(* ===== verification/Rust_Text.thy ===== *)
theory Rust_Text
  imports Prelude
begin

text \<open>
  The operations of Rust's \<open>str\<close> that the sources use, on UTF-8 text kept as a list of bytes:
  characters as byte groups, Unicode white space, splitting, trimming, searching, replacing,
  and the parsing and printing of integers and IPv4 addresses.
\<close>

section \<open>Characters of a UTF-8 text\<close>

definition utf8_width :: "char \<Rightarrow> nat" where
  "utf8_width c = (let b = of_char c :: nat in if b < 0x80 then 1 else if b < 0xE0 then 2
     else if b < 0xF0 then 3 else 4)"

text \<open>\<open>str::chars\<close>: the text as the list of its characters, each the bytes of one code point.\<close>

function utf8_chars :: "str \<Rightarrow> str list" where
  "utf8_chars [] = []"
| "utf8_chars (c # cs) = (c # take (utf8_width c - 1) cs) # utf8_chars (drop (utf8_width c - 1) cs)"
  by pat_completeness auto
termination
  by (relation "measure length") auto

lemma concat_utf8_chars [simp]: "concat (utf8_chars s) = s"
  by (induction s rule: utf8_chars.induct) simp_all

definition is_ascii :: "char \<Rightarrow> bool" where
  "is_ascii c = ((of_char c :: nat) < 0x80)"

lemma utf8_chars_ascii: "list_all is_ascii s \<Longrightarrow> utf8_chars s = map (\<lambda>c. [c]) s"
  by (induction s) (simp_all add: utf8_width_def is_ascii_def)

text \<open>\<open>char::is_whitespace\<close> (Unicode \<open>White_Space\<close>) on the bytes of a character.\<close>

definition is_white :: "str \<Rightarrow> bool" where
  "is_white g = (case map of_char g :: nat list of
     [b] \<Rightarrow> (9 \<le> b \<and> b \<le> 13) \<or> b = 32
   | [a, b] \<Rightarrow> a = 0xC2 \<and> (b = 0x85 \<or> b = 0xA0)
   | [a, b, c] \<Rightarrow> (a = 0xE1 \<and> b = 0x9A \<and> c = 0x80)
       \<or> (a = 0xE2 \<and> b = 0x80 \<and> ((0x80 \<le> c \<and> c \<le> 0x8A) \<or> c = 0xA8 \<or> c = 0xA9 \<or> c = 0xAF))
       \<or> (a = 0xE2 \<and> b = 0x81 \<and> c = 0x9F) \<or> (a = 0xE3 \<and> b = 0x80 \<and> c = 0x80)
   | _ \<Rightarrow> False)"

text \<open>\<open>char::is_control\<close>: the code points 0 to 31 and 127 to 159.\<close>

definition is_control :: "str \<Rightarrow> bool" where
  "is_control g = (case map of_char g :: nat list of
     [b] \<Rightarrow> b < 32 \<or> b = 127
   | [a, b] \<Rightarrow> a = 0xC2 \<and> b < 0xA0
   | _ \<Rightarrow> False)"

section \<open>Trimming and splitting\<close>

definition trim :: "str \<Rightarrow> str" where
  "trim s = concat (rev (dropWhile is_white (rev (dropWhile is_white (utf8_chars s)))))"

fun words_of :: "str \<Rightarrow> str list \<Rightarrow> str list" where
  "words_of w [] = (if w = [] then [] else [w])"
| "words_of w (g # gs) =
     (if is_white g then (if w = [] then words_of [] gs else w # words_of [] gs)
      else words_of (w @ g) gs)"

definition split_whitespace :: "str \<Rightarrow> str list" where
  "split_whitespace s = words_of [] (utf8_chars s)"

text \<open>
  \<open>str::lines\<close>: a line ends at a line feed, and a carriage return right before it is
  dropped; what follows the last line feed is a line when it is not empty.
\<close>

definition strip_cr :: "str \<Rightarrow> str" where
  "strip_cr l = (if l \<noteq> [] \<and> last l = CHR 0x0D then butlast l else l)"

fun lines_from :: "str \<Rightarrow> str \<Rightarrow> str list" where
  "lines_from l [] = (if l = [] then [] else [l])"
| "lines_from l (c # cs) =
     (if c = CHR 0x0A then strip_cr l # lines_from [] cs else lines_from (l @ [c]) cs)"

definition lines :: "str \<Rightarrow> str list" where
  "lines s = lines_from [] s"

text \<open>\<open>str::split(c)\<close>, \<open>split_once(c)\<close> and \<open>rsplit_once(c)\<close> for an ASCII character.\<close>

fun split_char :: "char \<Rightarrow> str \<Rightarrow> str list" where
  "split_char d [] = [[]]"
| "split_char d (c # cs) = (if c = d then [] # split_char d cs
     else (case split_char d cs of [] \<Rightarrow> [[c]] | p # ps \<Rightarrow> (c # p) # ps))"

fun split_once :: "char \<Rightarrow> str \<Rightarrow> (str \<times> str) option" where
  "split_once d [] = None"
| "split_once d (c # cs) = (if c = d then Some ([], cs)
     else map_option (\<lambda>(a, b). (c # a, b)) (split_once d cs))"

definition rsplit_once :: "char \<Rightarrow> str \<Rightarrow> (str \<times> str) option" where
  "rsplit_once d s = map_option (\<lambda>(a, b). (rev b, rev a)) (split_once d (rev s))"

lemma split_once_Some: "split_once d s = Some (a, b) \<longleftrightarrow> s = a @ d # b \<and> d \<notin> set a"
proof (induction s arbitrary: a)
  case (Cons c cs)
  then show ?case by (cases a) auto
qed simp

lemma split_once_None: "split_once d s = None \<longleftrightarrow> d \<notin> set s"
  by (induction s) auto

lemma split_once_append [simp]: "d \<notin> set a \<Longrightarrow> split_once d (a @ d # b) = Some (a, b)"
  by (simp add: split_once_Some)

lemma rsplit_once_Some: "rsplit_once d s = Some (a, b) \<longleftrightarrow> s = a @ d # b \<and> d \<notin> set b"
proof -
  have "rsplit_once d s = Some (a, b) \<longleftrightarrow> split_once d (rev s) = Some (rev b, rev a)"
    by (auto simp: rsplit_once_def)
  also have "\<dots> \<longleftrightarrow> rev s = rev b @ d # rev a \<and> d \<notin> set b"
    by (simp add: split_once_Some)
  also have "rev s = rev b @ d # rev a \<longleftrightarrow> s = a @ d # b"
    by (metis append.assoc append_Cons append_Nil rev.simps(2) rev_append rev_rev_ident)
  finally show ?thesis .
qed

section \<open>Searching and replacing\<close>

definition starts_with :: "str \<Rightarrow> str \<Rightarrow> bool" where
  "starts_with p s = (take (length p) s = p)"

definition strip_prefix :: "str \<Rightarrow> str \<Rightarrow> str option" where
  "strip_prefix p s = (if starts_with p s then Some (drop (length p) s) else None)"

lemma strip_prefix_Some: "strip_prefix p s = Some r \<longleftrightarrow> s = p @ r"
  by (auto simp: strip_prefix_def starts_with_def) (metis append_take_drop_id)

text \<open>\<open>str::find\<close>: the byte index of the first occurrence.\<close>

fun find_str :: "str \<Rightarrow> str \<Rightarrow> nat option" where
  "find_str p [] = (if p = [] then Some 0 else None)"
| "find_str p (c # cs) = (if starts_with p (c # cs) then Some 0 else map_option Suc (find_str p cs))"

lemma find_str_Some: "find_str p s = Some i \<Longrightarrow> \<exists>t. s = take i s @ p @ t \<and> i \<le> length s"
proof (induction p s arbitrary: i rule: find_str.induct)
  case (2 p c cs)
  show ?case
  proof (cases "starts_with p (c # cs)")
    case True
    with 2 show ?thesis
      by (metis append_take_drop_id find_str.simps(2) le0 option.inject self_append_conv2
          starts_with_def take0)
  next
    case False
    with 2 obtain j where j: "i = Suc j" "find_str p cs = Some j" by auto
    from 2(1)[OF False this(2)] show ?thesis by (auto simp: j(1))
  qed
qed (auto split: if_splits)

definition contains_str :: "str \<Rightarrow> str \<Rightarrow> bool" where
  "contains_str p s = (find_str p s \<noteq> None)"

text \<open>\<open>str::replace\<close> for a non-empty pattern: non-overlapping occurrences, left to right.\<close>

function replace_str :: "str \<Rightarrow> str \<Rightarrow> str \<Rightarrow> str" where
  "replace_str p r [] = []"
| "replace_str p r (c # cs) = (if p \<noteq> [] \<and> starts_with p (c # cs)
     then r @ replace_str p r (drop (length p - 1) cs) else c # replace_str p r cs)"
  by pat_completeness auto
termination
  by (relation "measure (\<lambda>(p, r, s). length s)") auto

definition trim_end_char :: "char \<Rightarrow> str \<Rightarrow> str" where
  "trim_end_char d s = rev (dropWhile (\<lambda>c. c = d) (rev s))"

section \<open>ASCII classes and case\<close>

definition is_digit :: "char \<Rightarrow> bool" where
  "is_digit c = (let b = of_char c :: nat in 48 \<le> b \<and> b \<le> 57)"

definition is_alnum :: "char \<Rightarrow> bool" where
  "is_alnum c = (let b = of_char c :: nat in (48 \<le> b \<and> b \<le> 57) \<or> (65 \<le> b \<and> b \<le> 90) \<or> (97 \<le> b \<and> b \<le> 122))"

definition to_upper :: "char \<Rightarrow> char" where
  "to_upper c = (let b = of_char c :: nat in if 97 \<le> b \<and> b \<le> 122 then char_of (b - 32) else c)"

definition to_lower :: "char \<Rightarrow> char" where
  "to_lower c = (let b = of_char c :: nat in if 65 \<le> b \<and> b \<le> 90 then char_of (b + 32) else c)"

definition eq_ignore_case :: "str \<Rightarrow> str \<Rightarrow> bool" where
  "eq_ignore_case a b = (map to_lower a = map to_lower b)"

section \<open>Integers\<close>

definition digit_val :: "char \<Rightarrow> nat" where
  "digit_val c = of_char c - 48"

definition digit_char :: "nat \<Rightarrow> char" where
  "digit_char d = char_of (48 + d)"

text \<open>The value of a string of digits, most significant first.\<close>

definition digits_val :: "str \<Rightarrow> nat" where
  "digits_val s = foldl (\<lambda>n c. 10 * n + digit_val c) 0 s"

text \<open>\<open>from_str\<close> of an unsigned type: an optional plus sign, then one or more digits.\<close>

definition parse_nat :: "str \<Rightarrow> nat option" where
  "parse_nat s = (let ds = (case s of c # cs \<Rightarrow> if c = CHR ''+'' then cs else s | [] \<Rightarrow> []) in
     if ds \<noteq> [] \<and> list_all is_digit ds then Some (digits_val ds) else None)"

definition parse_word :: "str \<Rightarrow> 'a::len word option" where
  "parse_word s = Option.bind (parse_nat s) try_word"

text \<open>\<open>u16::from_str_radix(s, 16)\<close>.\<close>

definition hex_val :: "char \<Rightarrow> nat option" where
  "hex_val c = (let b = of_char c :: nat in
     if 48 \<le> b \<and> b \<le> 57 then Some (b - 48)
     else if 97 \<le> b \<and> b \<le> 102 then Some (b - 87)
     else if 65 \<le> b \<and> b \<le> 70 then Some (b - 55) else None)"

definition parse_hex :: "str \<Rightarrow> 'a::len word option" where
  "parse_hex s = (let ds = (case s of c # cs \<Rightarrow> if c = CHR ''+'' then cs else s | [] \<Rightarrow> []) in
     if ds \<noteq> [] \<and> list_all (\<lambda>c. hex_val c \<noteq> None) ds
     then try_word (foldl (\<lambda>n c. 16 * n + the (hex_val c)) 0 ds) else None)"

text \<open>\<open>Display\<close> of an unsigned integer.\<close>

fun dec :: "nat \<Rightarrow> str" where
  "dec n = (if n < 10 then [digit_char n] else dec (n div 10) @ [digit_char (n mod 10)])"

declare dec.simps [simp del]

lemma is_digit_digit_char: "d < 10 \<Longrightarrow> is_digit (digit_char d) \<and> digit_val (digit_char d) = d"
  by (simp add: is_digit_def digit_char_def digit_val_def take_bit_nat_eq_self)

lemma digits_val_snoc [simp]: "digits_val (s @ [c]) = 10 * digits_val s + digit_val c"
  by (simp add: digits_val_def)

lemma dec_digits: "list_all is_digit (dec n) \<and> dec n \<noteq> [] \<and> digits_val (dec n) = n"
proof (induction n rule: dec.induct)
  case (1 n)
  show ?case
  proof (cases "n < 10")
    case True
    then show ?thesis
      by (subst (1 2 3) dec.simps) (simp add: is_digit_digit_char digits_val_def)
  next
    case False
    with 1 show ?thesis
      by (subst (1 2 3) dec.simps) (simp add: is_digit_digit_char)
  qed
qed

lemma parse_nat_digits: "ds \<noteq> [] \<Longrightarrow> list_all is_digit ds \<Longrightarrow> parse_nat ds = Some (digits_val ds)"
  by (cases ds) (auto simp: parse_nat_def is_digit_def)

lemma parse_nat_dec [simp]: "parse_nat (dec n) = Some n"
  using dec_digits [of n] by (simp add: parse_nat_digits)

lemma parse_word_dec: "n < 2 ^ LENGTH('a) \<Longrightarrow> parse_word (dec n) = Some (of_nat n :: 'a::len word)"
  by (simp add: parse_word_def try_word_def)

lemma length_dec: "0 < k \<Longrightarrow> n < 10 ^ k \<Longrightarrow> length (dec n) \<le> k"
proof (induction k arbitrary: n)
  case (Suc k)
  show ?case
  proof (cases "n < 10")
    case True
    then show ?thesis by (simp add: dec.simps)
  next
    case False
    with Suc.prems have "0 < k" "n div 10 < 10 ^ k" by (cases k, auto)
    then have "length (dec (n div 10)) \<le> k" by (rule Suc.IH)
    with False show ?thesis by (subst dec.simps) simp
  qed
qed simp

text \<open>\<open>Ipv4Addr::from_str\<close>: four decimal octets of at most three digits, no leading zero.\<close>

definition parse_octet :: "str \<Rightarrow> u8 option" where
  "parse_octet s = (if s \<noteq> [] \<and> length s \<le> 3 \<and> list_all is_digit s \<and> (length s = 1 \<or> hd s \<noteq> CHR ''0'')
     then try_word (digits_val s) else None)"

definition parse_ipv4 :: "str \<Rightarrow> u8 list option" where
  "parse_ipv4 s = (case map parse_octet (split_char (CHR ''.'') s) of
     [Some a, Some b, Some c, Some d] \<Rightarrow> Some [a, b, c, d] | _ \<Rightarrow> None)"

section \<open>Checking and repairing UTF-8\<close>

text \<open>
  One step of the UTF-8 decoder on bytes: whether they start with a well-formed character, and
  how many bytes the character or the maximal ill-formed prefix takes.
\<close>

definition is_cont :: "nat \<Rightarrow> bool" where
  "is_cont b = (0x80 \<le> b \<and> b \<le> 0xBF)"

definition second_ok :: "nat \<Rightarrow> nat \<Rightarrow> bool" where
  "second_ok a b = (if a = 0xE0 then 0xA0 \<le> b \<and> b \<le> 0xBF
     else if a = 0xED then 0x80 \<le> b \<and> b \<le> 0x9F
     else if a = 0xF0 then 0x90 \<le> b \<and> b \<le> 0xBF
     else if a = 0xF4 then 0x80 \<le> b \<and> b \<le> 0x8F
     else is_cont b)"

definition utf8_step :: "nat list \<Rightarrow> bool \<times> nat" where
  "utf8_step bs = (case bs of [] \<Rightarrow> (True, 0) | a # r \<Rightarrow>
     let b = get_nth r 0; c = get_nth r 1; d = get_nth r 2 in
     if a < 0x80 then (True, 1)
     else if 0xC2 \<le> a \<and> a \<le> 0xDF then (is_some_and is_cont b, if is_some_and is_cont b then 2 else 1)
     else if 0xE0 \<le> a \<and> a \<le> 0xEF then
       (if \<not> is_some_and (second_ok a) b then (False, 1)
        else if \<not> is_some_and is_cont c then (False, 2) else (True, 3))
     else if 0xF0 \<le> a \<and> a \<le> 0xF4 then
       (if \<not> is_some_and (second_ok a) b then (False, 1)
        else if \<not> is_some_and is_cont c then (False, 2)
        else if \<not> is_some_and is_cont d then (False, 3) else (True, 4))
     else (False, 1))"

text \<open>\<open>String::from_utf8_lossy\<close> and \<open>String::from_utf8\<close>; the step never takes zero bytes.\<close>

function utf8_lossy :: "string \<Rightarrow> str" where
  "utf8_lossy [] = []"
| "utf8_lossy (c # cs) = (case utf8_step (map of_char (take 4 (c # cs))) of (valid, n) \<Rightarrow>
     (if valid then c # take (n - 1) cs else map char_of [0xEF :: nat, 0xBF, 0xBD]) @ utf8_lossy (drop (n - 1) cs))"
  by pat_completeness auto
termination
  by (relation "measure length") auto

function utf8_valid :: "string \<Rightarrow> bool" where
  "utf8_valid [] = True"
| "utf8_valid (c # cs) = (case utf8_step (map of_char (take 4 (c # cs))) of (valid, n) \<Rightarrow>
     valid \<and> utf8_valid (drop (n - 1) cs))"
  by pat_completeness auto
termination
  by (relation "measure length") auto

definition from_utf8 :: "string \<Rightarrow> str option" where
  "from_utf8 s = (if utf8_valid s then Some s else None)"

lemma utf8_step_ascii: "is_ascii c \<Longrightarrow> utf8_step (of_char c # bs) = (True, 1)"
  by (simp add: utf8_step_def is_ascii_def)

lemma utf8_valid_ascii: "list_all is_ascii s \<Longrightarrow> utf8_valid s"
  by (induction s) (simp_all add: utf8_step_ascii)

lemma utf8_lossy_valid: "utf8_valid s \<Longrightarrow> utf8_lossy s = s"
  by (induction s rule: utf8_lossy.induct) (auto split: prod.splits)

text \<open>The characters of a well-formed text: one ASCII byte, or bytes none of which is ASCII.\<close>

lemma utf8_step_valid:
  assumes "utf8_step (map of_char (take 4 (c # cs))) = (True, n)"
  shows "n = utf8_width c \<and> n - 1 \<le> length cs \<and> (if n = 1 then is_ascii c
    else list_all (\<lambda>x. \<not> is_ascii x) (c # take (n - 1) cs))"
proof -
  define r where "r = (map of_char (take 3 cs) :: nat list)"
  have r: "get_nth r i = (if i < 3 \<and> i < length cs then Some (of_char (cs ! i)) else None)" for i
    by (simp add: r_def get_nth_def)
  have step: "utf8_step (of_char c # r) = (True, n)" using assms by (simp add: r_def)
  have cont: "\<not> is_ascii x" if "is_cont (of_char x)" for x
    using that by (simp add: is_cont_def is_ascii_def)
  have second: "\<not> is_ascii x" if "second_ok a (of_char x)" for a x
    using that by (auto simp: second_ok_def is_cont_def is_ascii_def split: if_splits)
  have some: "P (of_char (cs ! i)) \<and> i < length cs" if "is_some_and P (get_nth r i)" for P i
    using that by (simp add: r split: if_splits)
  consider "of_char c < (0x80 :: nat)" "n = 1"
    | "0xC2 \<le> (of_char c :: nat)" "of_char c \<le> (0xDF :: nat)" "n = 2" "is_some_and is_cont (get_nth r 0)"
    | "0xE0 \<le> (of_char c :: nat)" "of_char c \<le> (0xEF :: nat)" "n = 3" "is_some_and (second_ok (of_char c)) (get_nth r 0)"
      "is_some_and is_cont (get_nth r 1)"
    | "0xF0 \<le> (of_char c :: nat)" "of_char c \<le> (0xF4 :: nat)" "n = 4" "is_some_and (second_ok (of_char c)) (get_nth r 0)"
      "is_some_and is_cont (get_nth r 1)" "is_some_and is_cont (get_nth r 2)"
    using step by (auto simp: utf8_step_def Let_def split: if_splits)
  then show ?thesis
  proof cases
    case 1
    then show ?thesis by (simp add: utf8_width_def is_ascii_def Let_def)
  next
    case 2
    then have "\<not> is_ascii (cs ! 0)" "0 < length cs" "\<not> is_ascii c" "utf8_width c = 2"
      using some [of is_cont 0] cont by (auto simp: utf8_width_def is_ascii_def Let_def)
    then show ?thesis using 2(3) by (cases cs) auto
  next
    case 3
    then have "\<not> is_ascii (cs ! 0)" "\<not> is_ascii (cs ! 1)" "1 < length cs" "\<not> is_ascii c" "utf8_width c = 3"
      using some [of is_cont 1] some [of "second_ok (of_char c)" 0] cont second by (auto simp: utf8_width_def is_ascii_def Let_def)
    then show ?thesis using 3(3) by (cases cs; cases "tl cs") auto
  next
    case 4
    then have "\<not> is_ascii (cs ! 0)" "\<not> is_ascii (cs ! 1)" "\<not> is_ascii (cs ! 2)" "2 < length cs" "\<not> is_ascii c"
        "utf8_width c = 4"
      using some [of is_cont 1] some [of is_cont 2] some [of "second_ok (of_char c)" 0] cont second
      by (auto simp: utf8_width_def is_ascii_def Let_def)
    then show ?thesis using 4(3) by (cases cs; cases "tl cs"; cases "tl (tl cs)") auto
  qed
qed

lemma utf8_width_pos: "0 < utf8_width c"
  by (simp add: utf8_width_def Let_def)

definition utf8_char :: "str \<Rightarrow> bool" where
  "utf8_char g = ((\<exists>c. g = [c] \<and> is_ascii c) \<or> (1 < length g \<and> list_all (\<lambda>x. \<not> is_ascii x) g))"

lemma utf8_valid_chars: "utf8_valid s \<Longrightarrow> list_all utf8_char (utf8_chars s)"
proof (induction s rule: utf8_valid.induct)
  case (2 c cs)
  obtain v n where step: "utf8_step (map of_char (take 4 (c # cs))) = (v, n)" by fastforce
  have v: "v" "utf8_valid (drop (n - 1) cs)" using "2.prems" step by simp_all
  note parts = utf8_step_valid [OF step [unfolded eqTrueI [OF v(1)]]]
  have "utf8_char (c # take (n - 1) cs)"
    using parts utf8_width_pos [of c] by (cases "n = 1") (auto simp: utf8_char_def)
  moreover have "list_all utf8_char (utf8_chars (drop (n - 1) cs))"
    using "2.IH" [OF step [symmetric]] v by simp
  ultimately show ?case using parts by simp
qed simp

end
