(* ===== verification/Protocol.thy ===== *)
theory Protocol
  imports Rust_Text
begin

text \<open>
  The typed messages both peers exchange (\<open>protocol/src/lib.rs\<close>, the part above the framing):
  health levels and incidents, the display and network manifests, the measurement snapshot,
  and the two message enumerations, with the constructors that clamp or validate.
  A private field with an accessor is a field of the record.
\<close>

section \<open>Constants\<close>

definition protocol_version :: u8 where
  "protocol_version = 10"

definition max_host_frame_len :: nat where
  "max_host_frame_len = 4 * 1024"

definition max_device_frame_len :: nat where
  "max_device_frame_len = 128"

definition max_rule_id_len :: nat where
  "max_rule_id_len = 48"

section \<open>Health levels, incidents and reports\<close>

datatype health_level = Healthy | Warning | Critical

fun priority :: "health_level \<Rightarrow> nat" where
  "priority Healthy = 0"
| "priority Warning = 1"
| "priority Critical = 2"

text \<open>The source compares levels through \<open>priority\<close> only; the order type class makes the
  library's order facts apply to it.\<close>

instantiation health_level :: linorder
begin

definition less_eq_health_level :: "health_level \<Rightarrow> health_level \<Rightarrow> bool" where
  "less_eq_health_level a b = (priority a \<le> priority b)"

definition less_health_level :: "health_level \<Rightarrow> health_level \<Rightarrow> bool" where
  "less_health_level a b = (priority a < priority b)"

lemma priority_inject: "priority a = priority b \<Longrightarrow> a = b"
  by (cases a; cases b) simp_all

instance
  by standard (auto simp: less_eq_health_level_def less_health_level_def intro: priority_inject)

end

datatype rule_id = RuleId str

datatype rule_id_error = RuleIdError

definition valid_rule_id :: "str \<Rightarrow> bool" where
  "valid_rule_id v = (v \<noteq> [] \<and> length v \<le> max_rule_id_len
     \<and> list_all (\<lambda>c. is_alnum c \<or> c = CHR ''_'' \<or> c = CHR ''-'') v)"

definition rule_id_new :: "str \<Rightarrow> rule_id_error + rule_id" where
  "rule_id_new v = (if v = [] \<or> length v > max_rule_id_len
       \<or> \<not> list_all (\<lambda>c. is_alnum c \<or> c = CHR ''_'' \<or> c = CHR ''-'') v
     then Inl RuleIdError else Inr (RuleId v))"

lemma rule_id_new_iff: "rule_id_new v = Inr r \<longleftrightarrow> valid_rule_id v \<and> r = RuleId v"
  by (auto simp: rule_id_new_def valid_rule_id_def)

datatype stick_incident = HostOffline

datatype incident_id = Rule rule_id | Stick stick_incident

record incident =
  inc_id :: incident_id
  inc_level :: health_level
  inc_message :: str

definition incident_new :: "incident_id \<Rightarrow> health_level \<Rightarrow> str \<Rightarrow> incident" where
  "incident_new i l m = \<lparr>inc_id = i, inc_level = l, inc_message = m\<rparr>"

datatype software_version = SoftwareVersion str

fun version_str :: "software_version \<Rightarrow> str" where
  "version_str (SoftwareVersion v) = v"

record health_report =
  hr_level :: health_level
  hr_message :: str

definition report_new :: "health_level \<Rightarrow> str \<Rightarrow> health_report" where
  "report_new l m = \<lparr>hr_level = l, hr_message = m\<rparr>"

definition report_healthy :: health_report where
  "report_healthy = report_new Healthy ''HEALTHY''"

section \<open>Display and network manifests\<close>

datatype display_page =
    Overview
  | Resources
  | Storage bool "u32 list" "u32 list" \<comment> \<open>filesystems left, filesystem indices, SMART indices\<close>
  | PowerNetwork bool \<comment> \<open>UPS left\<close>
  | Guests u32 u32 \<comment> \<open>offset, limit\<close>

datatype display_label = DisplayLabel str

fun label_str :: "display_label \<Rightarrow> str" where
  "label_str (DisplayLabel l) = l"

record display_view =
  dv_title :: display_label
  dv_page :: display_page

definition display_view_new :: "display_label \<Rightarrow> display_page \<Rightarrow> display_view" where
  "display_view_new t p = \<lparr>dv_title = t, dv_page = p\<rparr>"

record display_config =
  dc_hold_ms :: u16
  dc_delay_ms :: u16
  dc_daemon_version :: software_version
  dc_labels :: "display_label list"
  dc_pages :: "display_view list"

datatype display_config_error = DisplayConfigError

definition display_config_default :: display_config where
  "display_config_default = \<lparr>dc_hold_ms = 3000, dc_delay_ms = 200,
     dc_daemon_version = SoftwareVersion ''unknown'', dc_labels = [],
     dc_pages = [display_view_new (DisplayLabel ''OVERVIEW'') Overview]\<rparr>"

definition display_config_new ::
  "u16 \<Rightarrow> u16 \<Rightarrow> display_label list \<Rightarrow> display_view list \<Rightarrow> display_config_error + display_config" where
  "display_config_new hold delay labels pages =
     (if pages = [] \<or> hold = 0 \<or> delay \<ge> hold then Inl DisplayConfigError
      else Inr \<lparr>dc_hold_ms = hold, dc_delay_ms = delay,
        dc_daemon_version = SoftwareVersion ''unknown'', dc_labels = labels, dc_pages = pages\<rparr>)"

record http_config =
  hc_enabled :: bool
  hc_port :: u16
  hc_hostname :: str
  hc_pages :: "display_view list"

definition http_config_new :: "bool \<Rightarrow> str \<Rightarrow> u16 \<Rightarrow> display_view list \<Rightarrow> http_config" where
  "http_config_new enabled hostname port pages =
     \<lparr>hc_enabled = enabled, hc_port = port, hc_hostname = hostname, hc_pages = pages\<rparr>"

datatype notification_priority = PrioDefault | PrioHigh | PrioUrgent

record notification_severities =
  sev_warning :: bool
  sev_critical :: bool

record ntfy_config =
  nc_enabled :: bool
  nc_severities :: notification_severities
  nc_notify_recovery :: bool
  nc_warning_priority :: notification_priority
  nc_critical_priority :: notification_priority
  nc_recovery_priority :: notification_priority
  nc_repeat_critical :: "u32 option"
  nc_server :: str
  nc_click_url :: "str option"

definition ntfy_config_new ::
  "bool \<Rightarrow> str \<Rightarrow> notification_severities \<Rightarrow> bool \<Rightarrow> notification_priority \<Rightarrow> notification_priority
   \<Rightarrow> notification_priority \<Rightarrow> u32 option \<Rightarrow> str option \<Rightarrow> ntfy_config" where
  "ntfy_config_new enabled server sevs recovery wp cp rp repeat url =
     \<lparr>nc_enabled = enabled, nc_severities = sevs, nc_notify_recovery = recovery,
      nc_warning_priority = wp, nc_critical_priority = cp, nc_recovery_priority = rp,
      nc_repeat_critical = repeat, nc_server = server, nc_click_url = url\<rparr>"

record network_config =
  net_http :: http_config
  net_ntfy :: ntfy_config

datatype handshake_nonce = HandshakeNonce u64

section \<open>Measurements\<close>

datatype guest_kind = VirtualMachine | Container
datatype guest_status = GuestRunning | GuestStopped
datatype internet_status = Checking | Reachable | Missed | NetFailed
datatype backup_job_status = BackupUnknown | NoJob | BackupHealthy | BackupRunning | BackupFailed | BackupStale

datatype ups_status = NotConfigured | UpsUnknown | Online | OnBattery | LowBattery | Charging
  | Bypass | OutputOff | ReplaceBattery | Unavailable

record ups_snapshot =
  ups_status :: ups_status
  ups_battery :: "u8 option"
  ups_load :: "u8 option"
  ups_runtime :: "u32 option"
  ups_watts :: "u16 option"
  ups_stale :: bool

definition ups_not_configured :: ups_snapshot where
  "ups_not_configured = \<lparr>ups_status = NotConfigured, ups_battery = None, ups_load = None,
     ups_runtime = None, ups_watts = None, ups_stale = False\<rparr>"

datatype smart_status = SmartHealthy | SmartWarning | SmartFailed | Sleeping | SmartUnknown

record smart_device =
  sd_status :: smart_status
  sd_temperature :: "i8 option"
  sd_label :: str

definition smart_device_new :: "str \<Rightarrow> smart_status \<Rightarrow> i8 option \<Rightarrow> smart_device" where
  "smart_device_new label status temperature =
     \<lparr>sd_status = status, sd_temperature = temperature, sd_label = label\<rparr>"

datatype shutdown_phase = PreparingGuests | StoppingGuests | PhaseGuestsStopped | PhasePoweringOff
datatype shutdown_failure = HostPoweroffFailure

record filesystem_usage =
  fs_used_percent :: u8
  fs_available_mib :: u32
  fs_mounted :: bool

definition filesystem_missing :: filesystem_usage where
  "filesystem_missing = \<lparr>fs_used_percent = 0, fs_available_mib = 0, fs_mounted = False\<rparr>"

definition filesystem_new :: "u8 \<Rightarrow> u32 \<Rightarrow> filesystem_usage" where
  "filesystem_new used available = \<lparr>fs_used_percent = (if used > 100 then 100 else used),
     fs_available_mib = available, fs_mounted = True\<rparr>"

record guest_summary =
  g_vmid :: u32
  g_kind :: guest_kind
  g_status :: guest_status
  g_cpu :: u8
  g_mem_used :: u32
  g_mem_total :: u32
  g_name :: str

definition guest_new ::
  "u32 \<Rightarrow> str \<Rightarrow> guest_kind \<Rightarrow> guest_status \<Rightarrow> u8 \<Rightarrow> u32 \<Rightarrow> u32 \<Rightarrow> guest_summary" where
  "guest_new vmid name kind status cpu mused mtotal =
     \<lparr>g_vmid = vmid, g_kind = kind, g_status = status, g_cpu = min cpu 100,
      g_mem_used = mused, g_mem_total = mtotal, g_name = name\<rparr>"

record health_snapshot =
  hs_health :: health_report
  hs_incidents :: "incident list"
  hs_uptime :: u64
  hs_cpu :: u8
  hs_mem_used :: u32
  hs_mem_total :: u32
  hs_io_pressure :: u8
  hs_load_x100 :: u16
  hs_filesystems :: "filesystem_usage list"
  hs_backup :: backup_job_status
  hs_backup_age :: "u32 option"
  hs_network_up :: bool
  hs_network_mbps :: u16
  hs_internet :: internet_status
  hs_internet_age :: "u32 option"
  hs_ipv4 :: "u8 list" \<comment> \<open>four octets\<close>
  hs_guests :: "guest_summary list"
  hs_ups :: ups_snapshot
  hs_smart :: "smart_device list"
  hs_host_name :: str
  hs_interface :: str

definition snapshot_new ::
  "str \<Rightarrow> u64 \<Rightarrow> u8 \<Rightarrow> u32 \<Rightarrow> u32 \<Rightarrow> u8 \<Rightarrow> u16 \<Rightarrow> filesystem_usage list \<Rightarrow> backup_job_status
   \<Rightarrow> u32 option \<Rightarrow> bool \<Rightarrow> u16 \<Rightarrow> str \<Rightarrow> internet_status \<Rightarrow> u32 option \<Rightarrow> u8 list
   \<Rightarrow> guest_summary list \<Rightarrow> ups_snapshot \<Rightarrow> smart_device list \<Rightarrow> health_snapshot" where
  "snapshot_new host uptime cpu mused mtotal io load fss backup backup_age up mbps iface
     internet internet_age ipv4 guests ups smart =
     \<lparr>hs_health = report_healthy, hs_incidents = [], hs_uptime = uptime, hs_cpu = min cpu 100,
      hs_mem_used = mused, hs_mem_total = mtotal, hs_io_pressure = min io 100, hs_load_x100 = load,
      hs_filesystems = fss, hs_backup = backup, hs_backup_age = backup_age, hs_network_up = up,
      hs_network_mbps = mbps, hs_internet = internet, hs_internet_age = internet_age,
      hs_ipv4 = ipv4, hs_guests = guests, hs_ups = ups, hs_smart = smart,
      hs_host_name = host, hs_interface = iface\<rparr>"

definition set_incidents :: "health_report \<Rightarrow> incident list \<Rightarrow> health_snapshot \<Rightarrow> health_snapshot" where
  "set_incidents report incidents s = s\<lparr>hs_health := report, hs_incidents := incidents\<rparr>"

section \<open>Messages\<close>

datatype host_message =
    ShutdownAccepted
  | HealthSnapshot health_snapshot
  | ShutdownProgress shutdown_phase u16 u16 \<comment> \<open>phase, guests total, guests remaining\<close>
  | ShutdownFailed shutdown_failure u16
  | DisplayConfigMsg display_config
  | HostHello software_version handshake_nonce
  | NetworkConfigMsg network_config

datatype device_message =
    ShutdownRequested
  | DeviceHello software_version "handshake_nonce option"

datatype protocol_error = EmptyFrame | FrameTooLong | Serialize | Deserialize | UnsupportedVersion u8

section \<open>Percentages stay percentages\<close>

text \<open>A snapshot whose bounded fields are in range, as the constructors leave them.\<close>

definition snapshot_in_range :: "health_snapshot \<Rightarrow> bool" where
  "snapshot_in_range s = (hs_cpu s \<le> 100 \<and> hs_io_pressure s \<le> 100
     \<and> list_all (\<lambda>f. fs_used_percent f \<le> 100) (hs_filesystems s)
     \<and> list_all (\<lambda>g. g_cpu g \<le> 100) (hs_guests s))"

lemma filesystem_new_range [simp]: "fs_used_percent (filesystem_new used av) \<le> 100"
  by (auto simp: filesystem_new_def)

lemma guest_new_range [simp]: "g_cpu (guest_new v n k s c u t) \<le> 100"
  by (simp add: guest_new_def)

lemma snapshot_new_range:
  assumes "list_all (\<lambda>f. fs_used_percent f \<le> 100) fss" "list_all (\<lambda>g. g_cpu g \<le> 100) guests"
  shows "snapshot_in_range (snapshot_new host uptime cpu mused mtotal io load fss backup backup_age up mbps
    iface internet internet_age ipv4 guests ups smart)"
  using assms by (simp add: snapshot_in_range_def snapshot_new_def)

lemma set_incidents_range [simp]: "snapshot_in_range (set_incidents r is s) = snapshot_in_range s"
  by (simp add: snapshot_in_range_def set_incidents_def)

lemma display_config_new_Inr:
  "display_config_new hold delay labels pages = Inr d \<Longrightarrow>
     dc_pages d \<noteq> [] \<and> dc_pages d = pages \<and> dc_labels d = labels \<and> dc_hold_ms d = hold
     \<and> dc_delay_ms d = delay \<and> 0 < hold \<and> delay < hold"
  by (auto simp: display_config_new_def word_gt_0 split: if_splits)

end
