(* ===== verification/Rust_Float.thy ===== *)
theory Rust_Float
  imports Rust_Text Complex_Main "HOL-Library.Log_Nat"
begin

text \<open>
  The \<open>f64\<close> operations the sources use. A value is not-a-number, an infinity or a rational
  (every finite double is one; the sign of zero is not observable through the operations
  used here). Results are rounded to the nearest double, ties to even, by \<open>to_f64\<close>.
\<close>

datatype f64 = NaN | Inf bool | Fin rat \<comment> \<open>the flag of \<open>Inf\<close> is its sign\<close>

section \<open>Rounding to a double\<close>

definition pow2 :: "int \<Rightarrow> rat" where
  "pow2 e = (if 0 \<le> e then 2 ^ nat e else 1 / 2 ^ nat (- e))"

definition floor_log2 :: "rat \<Rightarrow> int" where
  "floor_log2 x = (let (n, d) = quotient_of x; k = bitlen n - bitlen d in
     if of_int d * pow2 k \<le> of_int n then k else k - 1)"

definition round_even :: "rat \<Rightarrow> int" where
  "round_even x = (let f = \<lfloor>x\<rfloor>; r = x - of_int f in
     if r < 1 / 2 then f else if r > 1 / 2 then f + 1 else if even f then f else f + 1)"

definition to_f64 :: "rat \<Rightarrow> f64" where
  "to_f64 x = (if x = 0 then Fin 0 else
     let a = \<bar>x\<bar>; e = max (floor_log2 a - 52) (- 1074); v = of_int (round_even (a / pow2 e)) * pow2 e in
     if v \<ge> 2 ^ 1024 then Inf (x < 0) else Fin (if x < 0 then - v else v))"

text \<open>Integers of at most 53 bits are doubles, so every width used here converts exactly.\<close>

lemma floor_log2_of_int:
  assumes "0 < n" "n < 2 ^ 53" shows "floor_log2 (of_int n) \<le> 52"
proof -
  have "bitlen n \<le> 53"
    using assms by (simp add: bitlen_le_iff_power)
  moreover have "bitlen 1 = 1"
    by (simp add: bitlen_def floorlog_def)
  ultimately show ?thesis
    by (simp add: floor_log2_def Let_def)
qed

lemma pow2_nonpos: "e \<le> 0 \<Longrightarrow> pow2 e = 1 / 2 ^ nat (- e)"
  by (cases "e = 0") (simp_all add: pow2_def)

lemma round_even_of_int [simp]: "round_even (of_int n) = n"
  by (simp add: round_even_def)

lemma to_f64_of_int:
  assumes "0 \<le> n" "n < 2 ^ 53" shows "to_f64 (of_int n) = Fin (of_int n)"
proof (cases "n = 0")
  case True
  then show ?thesis by (simp add: to_f64_def)
next
  case False
  define e where "e = max (floor_log2 (of_int n) - 52) (- 1074)"
  have e0: "e \<le> 0" using floor_log2_of_int [of n] assms False by (simp add: e_def)
  have q: "(of_int n :: rat) / pow2 e = of_int (n * 2 ^ nat (- e))"
    using e0 by (simp add: pow2_nonpos)
  have v: "of_int (round_even (of_int n / pow2 e)) * pow2 e = (of_int n :: rat)"
    unfolding q round_even_of_int using e0 by (simp add: pow2_nonpos)
  have "(of_int n :: rat) < of_int (2 ^ 53)" using assms(2) by (simp only: of_int_less_iff)
  also have "\<dots> \<le> 2 ^ 1024" by simp
  finally have "\<not> (of_int n :: rat) \<ge> 2 ^ 1024" by simp
  then show ?thesis
    using assms False v by (simp add: to_f64_def e_def [symmetric])
qed

lemma to_f64_of_nat: "n < 2 ^ 53 \<Longrightarrow> to_f64 (of_nat n) = Fin (of_nat n)"
  using to_f64_of_int [of "int n"] by (simp add: nat_less_numeral_power_cancel_iff)

text \<open>\<open>f64::from\<close> of an unsigned integer type, \<open>u64 as f64\<close>.\<close>

definition f64_of_nat :: "nat \<Rightarrow> f64" where
  "f64_of_nat n = to_f64 (of_nat n)"

section \<open>Arithmetic and comparison\<close>

definition f64_mul :: "f64 \<Rightarrow> f64 \<Rightarrow> f64" where
  "f64_mul a b = (case (a, b) of
     (NaN, _) \<Rightarrow> NaN | (_, NaN) \<Rightarrow> NaN
   | (Inf s, Inf t) \<Rightarrow> Inf (s \<noteq> t)
   | (Inf s, Fin y) \<Rightarrow> if y = 0 then NaN else Inf (s \<noteq> (y < 0))
   | (Fin x, Inf t) \<Rightarrow> if x = 0 then NaN else Inf ((x < 0) \<noteq> t)
   | (Fin x, Fin y) \<Rightarrow> to_f64 (x * y))"

definition f64_le :: "f64 \<Rightarrow> f64 \<Rightarrow> bool" where
  "f64_le a b = (case (a, b) of
     (NaN, _) \<Rightarrow> False | (_, NaN) \<Rightarrow> False
   | (Inf s, Inf t) \<Rightarrow> s \<or> \<not> t
   | (Inf s, Fin y) \<Rightarrow> s
   | (Fin x, Inf t) \<Rightarrow> \<not> t
   | (Fin x, Fin y) \<Rightarrow> x \<le> y)"

definition f64_lt :: "f64 \<Rightarrow> f64 \<Rightarrow> bool" where
  "f64_lt a b = (f64_le a b \<and> \<not> f64_le b a)"

definition f64_eq :: "f64 \<Rightarrow> f64 \<Rightarrow> bool" where
  "f64_eq a b = (f64_le a b \<and> f64_le b a)"

lemma f64_cmp_Fin [simp]:
  "f64_le (Fin x) (Fin y) \<longleftrightarrow> x \<le> y"
  "f64_lt (Fin x) (Fin y) \<longleftrightarrow> x < y"
  "f64_eq (Fin x) (Fin y) \<longleftrightarrow> x = y"
  by (auto simp: f64_le_def f64_lt_def f64_eq_def)

lemma f64_cmp_NaN [simp]:
  "\<not> f64_le NaN b" "\<not> f64_le a NaN" "\<not> f64_lt NaN b" "\<not> f64_lt a NaN" "\<not> f64_eq NaN b" "\<not> f64_eq a NaN"
  by (auto simp: f64_le_def f64_lt_def f64_eq_def split: f64.splits)

text \<open>\<open>f64::clamp\<close> with finite bounds, \<open>f64::round\<close> (half away from zero) and the
  saturating \<open>as\<close> cast.\<close>

definition f64_clamp :: "rat \<Rightarrow> rat \<Rightarrow> f64 \<Rightarrow> f64" where
  "f64_clamp lo hi v = (case v of NaN \<Rightarrow> NaN | Inf s \<Rightarrow> Fin (if s then lo else hi)
     | Fin x \<Rightarrow> Fin (if x < lo then lo else if x > hi then hi else x))"

definition f64_round :: "f64 \<Rightarrow> f64" where
  "f64_round v = (case v of Fin x \<Rightarrow> Fin (of_int (if 0 \<le> x then \<lfloor>x + 1 / 2\<rfloor> else - \<lfloor>1 / 2 - x\<rfloor>)) | _ \<Rightarrow> v)"

definition f64_as_uint :: "f64 \<Rightarrow> 'a::len word" where
  "f64_as_uint v = (case v of NaN \<Rightarrow> 0 | Inf s \<Rightarrow> (if s then 0 else - 1)
     | Fin x \<Rightarrow> (if x < 0 then 0 else clamp_word (nat \<lfloor>x\<rfloor>)))"

text \<open>Printing with \<open>{:.0}\<close>: rounded half to even.\<close>

definition f64_fmt0 :: "f64 \<Rightarrow> str" where
  "f64_fmt0 v = (case v of NaN \<Rightarrow> ''NaN'' | Inf s \<Rightarrow> (if s then ''-inf'' else ''inf'')
     | Fin x \<Rightarrow> (if x < 0 then CHR ''-'' # dec (nat (round_even (- x))) else dec (nat (round_even x))))"

section \<open>Parsing\<close>

definition parse_exponent :: "str \<Rightarrow> int option" where
  "parse_exponent s = (let (neg, ds) = (case s of c # cs \<Rightarrow>
        if c = CHR ''-'' then (True, cs) else if c = CHR ''+'' then (False, cs) else (False, s)
      | [] \<Rightarrow> (False, [])) in
     if ds \<noteq> [] \<and> list_all is_digit ds
     then Some (if neg then - int (digits_val ds) else int (digits_val ds)) else None)"

definition pow10 :: "int \<Rightarrow> rat" where
  "pow10 e = (if 0 \<le> e then 10 ^ nat e else 1 / 10 ^ nat (- e))"

text \<open>Digits with an optional point, at least one digit in all.\<close>

definition parse_mantissa :: "str \<Rightarrow> int \<Rightarrow> rat option" where
  "parse_mantissa m ex = (let (ip, fp) = (case split_once (CHR ''.'') m of None \<Rightarrow> (m, []) | Some p \<Rightarrow> p) in
     if (ip \<noteq> [] \<or> fp \<noteq> []) \<and> list_all is_digit ip \<and> list_all is_digit fp
     then Some (of_nat (digits_val (ip @ fp)) * pow10 (ex - int (length fp))) else None)"

definition parse_decimal :: "str \<Rightarrow> rat option" where
  "parse_decimal s = (case split_once (CHR ''e'') (map to_lower s) of
     None \<Rightarrow> parse_mantissa s 0
   | Some (m, e) \<Rightarrow> Option.bind (parse_exponent e) (parse_mantissa m))"

definition f64_neg :: "f64 \<Rightarrow> f64" where
  "f64_neg v = (case v of NaN \<Rightarrow> NaN | Inf s \<Rightarrow> Inf (\<not> s) | Fin x \<Rightarrow> Fin (- x))"

definition parse_unsigned :: "str \<Rightarrow> f64 option" where
  "parse_unsigned s = (let l = map to_lower s in
     if l = ''inf'' \<or> l = ''infinity'' then Some (Inf False)
     else if l = ''nan'' then Some NaN
     else map_option to_f64 (parse_decimal s))"

definition parse_f64 :: "str \<Rightarrow> f64 option" where
  "parse_f64 s = (case s of [] \<Rightarrow> None
   | c # cs \<Rightarrow> if c = CHR ''-'' then map_option f64_neg (parse_unsigned cs)
       else if c = CHR ''+'' then parse_unsigned cs else parse_unsigned s)"

lemma is_digit_to_lower: "is_digit c \<Longrightarrow> to_lower c = c \<and> c \<noteq> CHR ''e'' \<and> c \<noteq> CHR ''.''
    \<and> c \<noteq> CHR ''-'' \<and> c \<noteq> CHR ''+'' \<and> c \<noteq> CHR ''i'' \<and> c \<noteq> CHR ''n''"
  by (auto simp: is_digit_def to_lower_def Let_def)

lemma digits_to_lower: "list_all is_digit s \<Longrightarrow> map to_lower s = s \<and> CHR ''e'' \<notin> set s \<and> CHR ''.'' \<notin> set s"
  by (induction s) (auto dest: is_digit_to_lower)

lemma parse_f64_digits:
  assumes "s \<noteq> []" "list_all is_digit s" "digits_val s < 2 ^ 53"
  shows "parse_f64 s = Some (Fin (of_nat (digits_val s)))"
proof -
  have d: "map to_lower s = s" "split_once (CHR ''e'') s = None" "split_once (CHR ''.'') s = None"
    using digits_to_lower [OF assms(2)] by (simp_all add: split_once_None)
  obtain c cs where s: "s = c # cs" "is_digit c" using assms by (cases s) auto
  have "parse_decimal s = Some (of_nat (digits_val s))"
    using assms d by (simp add: parse_decimal_def parse_mantissa_def pow10_def)
  moreover have "s \<noteq> ''inf'' \<and> s \<noteq> ''infinity'' \<and> s \<noteq> ''nan''"
    using is_digit_to_lower [OF s(2)] s(1) by auto
  ultimately have "parse_unsigned s = Some (Fin (of_nat (digits_val s)))"
    using d(1) to_f64_of_nat [OF assms(3)] by (simp add: parse_unsigned_def)
  then show ?thesis
    using is_digit_to_lower [OF s(2)] s(1) by (simp add: parse_f64_def)
qed

section \<open>Single precision\<close>

text \<open>The finite \<open>f32\<close> nearest to a rational below \<open>2 ^ 128\<close>; \<open>f32::from(n) / 100.0\<close> is one
  correctly rounded division of two exact numbers.\<close>

definition to_f32 :: "rat \<Rightarrow> rat" where
  "to_f32 x = (if x = 0 then 0 else let a = \<bar>x\<bar>; e = max (floor_log2 a - 23) (- 149);
     v = of_int (round_even (a / pow2 e)) * pow2 e in if x < 0 then - v else v)"

definition f32_of_nat_div100 :: "nat \<Rightarrow> rat" where
  "f32_of_nat_div100 n = to_f32 (of_nat n / 100)"

text \<open>\<open>{:.2}\<close> of a value that is not negative.\<close>

definition f32_fmt2 :: "rat \<Rightarrow> str" where
  "f32_fmt2 x = (let c = nat (round_even (x * 100)) in
     dec (c div 100) @ ''.'' @ [digit_char (c mod 100 div 10), digit_char (c mod 10)])"

lemma pow2_pos [simp]: "0 < pow2 e"
  by (simp add: pow2_def)

lemma pow2_powi: "pow2 e = 2 powi e"
  by (cases "0 \<le> e") (simp_all only: pow2_def power_int_def if_True if_False divide_inverse mult_1_left power_inverse)

lemma pow2_mono: "a \<le> b \<Longrightarrow> pow2 a \<le> pow2 b"
  using power_int_increasing [of a b "2 :: rat"] by (simp only: pow2_powi)

lemma pow2_floor_log2:
  assumes "0 < x" shows "pow2 (floor_log2 x) \<le> x"
proof -
  obtain n d where q: "quotient_of x = (n, d)" by (cases "quotient_of x")
  have d: "0 < d" and x: "x = of_int n / of_int d"
    using q by (auto dest: quotient_of_denom_pos quotient_of_div)
  then have n: "0 < n" using assms by (simp add: zero_less_divide_iff)
  let ?k = "bitlen n - bitlen d"
  have fl: "floor_log2 x = (if of_int d * pow2 ?k \<le> of_int n then ?k else ?k - 1)"
    by (simp add: floor_log2_def q Let_def)
  show ?thesis
  proof (cases "of_int d * pow2 ?k \<le> of_int n")
    case True
    then show ?thesis using d unfolding fl by (simp add: x pos_le_divide_eq mult.commute)
  next
    case False
    have "(2 :: int) ^ nat (bitlen n - 1) \<le> n" using bitlen_bounds [OF n] by simp
    then have "of_int ((2 :: int) ^ nat (bitlen n - 1)) \<le> (of_int n :: rat)" by (simp only: of_int_le_iff)
    then have a: "pow2 (bitlen n - 1) \<le> of_int n"
      using bitlen_nonneg [of n] n by (simp add: pow2_def bitlen_eq_zero_iff)
    have "d < 2 ^ nat (bitlen d)" using bitlen_bounds [OF d] by simp
    then have "(of_int d :: rat) < of_int (2 ^ nat (bitlen d))" by (simp only: of_int_less_iff)
    then have b: "of_int d \<le> pow2 (bitlen d)" using bitlen_nonneg [of d] by (simp add: pow2_def)
    have "of_int d * pow2 (?k - 1) \<le> pow2 (bitlen d) * pow2 (?k - 1)"
      using b by (intro mult_right_mono) (simp_all add: less_imp_le)
    also have "\<dots> = pow2 (bitlen n - 1)" by (simp add: pow2_powi power_int_add [symmetric])
    also have "\<dots> \<le> of_int n" by (rule a)
    finally show ?thesis using False d unfolding fl by (simp add: x pos_le_divide_eq mult.commute)
  qed
qed

lemma round_even_close: "\<bar>of_int (round_even x) - x\<bar> \<le> 1 / 2"
proof -
  define f where "f = \<lfloor>x\<rfloor>"
  have "of_int f \<le> x" "x < of_int f + 1" unfolding f_def by linarith+
  then show ?thesis unfolding round_even_def Let_def f_def [symmetric] by (auto simp: abs_if)
qed

lemma round_even_unique: "\<bar>x - of_int n\<bar> < 1 / 2 \<Longrightarrow> round_even x = n"
proof -
  assume "\<bar>x - of_int n\<bar> < 1 / 2"
  then have "\<bar>of_int (round_even x) - (of_int n :: rat)\<bar> < 1"
    using round_even_close [of x] by linarith
  then show ?thesis by linarith
qed

text \<open>The rounding never shows: a 16-bit number of hundredths is printed exactly.\<close>

lemma load_text_exact:
  assumes "n < 2 ^ 16"
  shows "f32_fmt2 (f32_of_nat_div100 n) = dec (n div 100) @ ''.'' @ [digit_char (n mod 100 div 10), digit_char (n mod 10)]"
proof -
  let ?x = "of_nat n / 100 :: rat"
  have "round_even (to_f32 ?x * 100) = int n"
  proof (cases "n = 0")
    case True
    then show ?thesis by (simp add: to_f32_def round_even_def)
  next
    case False
    then have x: "0 < ?x" by simp
    have "of_nat n < (of_nat 65536 :: rat)" using assms by (simp only: of_nat_less_iff) simp
    then have "?x < 1024" by simp
    then have "pow2 (floor_log2 ?x) < pow2 10" using pow2_floor_log2 [OF x] by (simp add: pow2_def [of 10])
    then have "floor_log2 ?x < 10" using pow2_mono [of 10 "floor_log2 ?x"] by force
    define e where "e = max (floor_log2 ?x - 23) (- 149)"
    then have e: "e \<le> - 14" using \<open>floor_log2 ?x < 10\<close> by simp
    have v: "to_f32 ?x = of_int (round_even (?x / pow2 e)) * pow2 e"
      using False by (simp add: to_f32_def e_def Let_def)
    have "\<bar>to_f32 ?x - ?x\<bar> = \<bar>(of_int (round_even (?x / pow2 e)) - ?x / pow2 e) * pow2 e\<bar>"
      unfolding v left_diff_distrib using pow2_pos [of e] nonzero_divide_eq_eq [of "pow2 e" "?x / pow2 e" ?x]
      by (metis divide_self_if less_irrefl mult.right_neutral times_divide_eq_left times_divide_eq_right)
    also have "\<dots> = \<bar>of_int (round_even (?x / pow2 e)) - ?x / pow2 e\<bar> * pow2 e"
      unfolding abs_mult abs_of_pos [OF pow2_pos] ..
    also have "\<dots> \<le> 1 / 2 * pow2 e"
      using round_even_close by (intro mult_right_mono) (simp_all add: less_imp_le)
    also have "\<dots> \<le> 1 / 2 * pow2 (- 14)" using pow2_mono [OF e] by simp
    finally have "\<bar>to_f32 ?x - ?x\<bar> \<le> 1 / 2 ^ 15" by (simp add: pow2_def)
    then have "\<bar>to_f32 ?x * 100 - of_int (int n)\<bar> < 1 / 2" by (simp add: abs_if split: if_splits)
    then show ?thesis by (rule round_even_unique)
  qed
  then show ?thesis by (simp add: f32_fmt2_def f32_of_nat_div100_def)
qed

end
