(* ===== verification/Measure.thy ===== *)
theory Measure
  imports Protocol Rust_Float "HOL-Library.Char_ord" "HOL-Library.List_Lexorder"
begin

text \<open>
  The measurements of the host (\<open>host/src/health.rs\<close>): what is read from procfs, sysfs and the
  command-line tools, and how each reading is parsed and bounded. The operating system is a
  parameter, a record of what a file, a directory or a command gives at the time of the call;
  \<open>serde_json\<close> is a parameter too, a record of the accessors the code calls.
\<close>

section \<open>The environment\<close>

record cmd_output =
  co_code :: "int option" \<comment> \<open>\<open>ExitStatus::code\<close>\<close>
  co_stdout :: string
  co_stderr :: string

definition co_success :: "cmd_output \<Rightarrow> bool" where
  "co_success r = (co_code r = Some 0)"

record 'v json_api =
  j_parse :: "string \<Rightarrow> 'v option" \<comment> \<open>\<open>from_slice::<Value>\<close>\<close>
  j_null :: 'v
  j_get :: "'v \<Rightarrow> str \<Rightarrow> 'v option"
  j_pointer :: "'v \<Rightarrow> str \<Rightarrow> 'v option"
  j_str :: "'v \<Rightarrow> str option"
  j_u64 :: "'v \<Rightarrow> u64 option"
  j_i64 :: "'v \<Rightarrow> i64 option"
  j_f64 :: "'v \<Rightarrow> f64 option"
  j_bool :: "'v \<Rightarrow> bool option"
  j_array :: "'v \<Rightarrow> 'v list option"
  j_is_number :: "'v \<Rightarrow> bool"

record 'v host_env =
  he_file :: "str \<Rightarrow> str option" \<comment> \<open>\<open>fs::read_to_string\<close>\<close>
  he_dir :: "str \<Rightarrow> str list option" \<comment> \<open>the readable entries of \<open>fs::read_dir\<close>\<close>
  he_exists :: "str \<Rightarrow> bool"
  he_run :: "str \<Rightarrow> str list \<Rightarrow> cmd_output option" \<comment> \<open>\<open>command_output\<close> with the 10 s deadline\<close>
  he_json :: "'v json_api"
  he_unix_secs :: "u64 option" \<comment> \<open>the wall clock, if after the epoch\<close>

section \<open>Bounding numbers\<close>

definition percent :: "f64 \<Rightarrow> u8" where
  "percent v = f64_as_uint (f64_round (f64_clamp 0 100 v))"

definition bounded_u16 :: "f64 \<Rightarrow> u16" where
  "bounded_u16 v = f64_as_uint (f64_round (f64_clamp 0 65535 v))"

definition parse_percent_u8 :: "str \<Rightarrow> u8 option" where
  "parse_percent_u8 v = map_option percent (parse_f64 v)"

definition mib :: "u64 \<Rightarrow> u32" where
  "mib kib = clamp_word (unat (kib div 1024))"

definition bytes_to_mib :: "u64 \<Rightarrow> u32" where
  "bytes_to_mib bytes = clamp_word (unat (bytes div 1048576))"

text \<open>The digits after the point: no upper bound is checked on them.\<close>

definition frac_digit :: "str \<Rightarrow> nat \<Rightarrow> nat" where
  "frac_digit fraction i = (case get_nth (take 2 fraction) i of None \<Rightarrow> 0
     | Some c \<Rightarrow> if of_char c \<ge> (48 :: nat) then of_char c - 48 else 0)"

definition parse_hundredths :: "str \<Rightarrow> u16 option" where
  "parse_hundredths v = (let (w, fraction) = unwrap_or (v, []) (split_once (CHR ''.'') v) in
     do { whole \<leftarrow> parse_word w :: u32 option;
          try_word (unat (sat_add (sat_add (sat_mul whole 100)
            (of_nat (frac_digit fraction 0 * 10))) (of_nat (frac_digit fraction 1)))) })"

section \<open>Refresh schedule\<close>

definition refresh_due :: "time \<Rightarrow> time \<Rightarrow> time \<Rightarrow> bool \<times> time" where
  "refresh_due now next_refresh interval =
     (if now < next_refresh then (False, next_refresh) else (True, now + interval))"

section \<open>Processor\<close>

record cpu_times =
  ct_total :: u64
  ct_idle :: u64

definition read_cpu_times :: "'v host_env \<Rightarrow> cpu_times option" where
  "read_cpu_times env = do {
     text \<leftarrow> he_file env ''/proc/stat'';
     line \<leftarrow> List.find (starts_with ''cpu '') (lines text);
     let vs = (filter_map parse_word (drop 1 (split_whitespace line)) :: u64 list);
     (if length vs < 4 then None
      else Some \<lparr>ct_total = sum_list vs, ct_idle = sat_add (vs ! 3) (unwrap_or 0 (get_nth vs 4))\<rparr>) }"

definition cpu_percent :: "cpu_times option \<Rightarrow> cpu_times option \<Rightarrow> u8" where
  "cpu_percent previous current = (case (previous, current) of
     (Some p, Some c) \<Rightarrow>
       (let all = sat_sub (ct_total c) (ct_total p); idle = sat_sub (ct_idle c) (ct_idle p) in
        unwrap_or 0 (Option.bind (checked_div (sat_mul (sat_sub all idle) 100) all)
          (\<lambda>v. try_word (unat v))))
   | _ \<Rightarrow> 0)"

section \<open>Memory, pressure, load, uptime, host name\<close>

definition meminfo_value :: "str \<Rightarrow> str \<Rightarrow> u64" where
  "meminfo_value text key = unwrap_or 0 (do {
     line \<leftarrow> List.find (starts_with key) (lines text);
     v \<leftarrow> get_nth (split_whitespace line) 1;
     parse_word v })"

definition read_memory :: "'v host_env \<Rightarrow> u32 \<times> u32" where
  "read_memory env = (let text = unwrap_or [] (he_file env ''/proc/meminfo'');
       total_kib = meminfo_value text ''MemTotal:''; available_kib = meminfo_value text ''MemAvailable:''
     in (mib (sat_sub total_kib available_kib), mib total_kib))"

definition read_io_pressure :: "'v host_env \<Rightarrow> u8" where
  "read_io_pressure env = unwrap_or 0 (do {
     line \<leftarrow> List.find (starts_with ''some '') (lines (unwrap_or [] (he_file env ''/proc/pressure/io'')));
     part \<leftarrow> List.find (starts_with ''avg10='') (split_whitespace line);
     v \<leftarrow> strip_prefix ''avg10='' part;
     map_option percent (parse_f64 v) })"

definition read_load_average :: "'v host_env \<Rightarrow> u16" where
  "read_load_average env = unwrap_or 0 (do {
     text \<leftarrow> he_file env ''/proc/loadavg'';
     w \<leftarrow> get_nth (split_whitespace text) 0;
     parse_hundredths w })"

definition read_uptime :: "'v host_env \<Rightarrow> u64" where
  "read_uptime env = unwrap_or 0 (do {
     text \<leftarrow> he_file env ''/proc/uptime'';
     w \<leftarrow> get_nth (split_whitespace text) 0;
     s \<leftarrow> get_nth (split_char (CHR ''.'') w) 0;
     parse_word s })"

definition read_host_name :: "'v host_env \<Rightarrow> str" where
  "read_host_name env = trim (unwrap_or ''proxmox'' (he_file env ''/etc/hostname''))"

section \<open>Filesystems\<close>

definition parse_filesystem_usage :: "str \<Rightarrow> str \<Rightarrow> filesystem_usage option" where
  "parse_filesystem_usage output expected_mount = do {
     line \<leftarrow> (case lines output of [] \<Rightarrow> None | ls \<Rightarrow> Some (last ls));
     let fields = split_whitespace line;
     (if length fields < 6 \<or> (if fields = [] then None else Some (last fields)) \<noteq> Some expected_mount
      then None else Some ());
     a \<leftarrow> get_nth fields 3;
     available_kib \<leftarrow> parse_word a :: u64 option;
     u \<leftarrow> get_nth fields 4;
     used \<leftarrow> parse_word (trim_end_char (CHR ''%'') u) :: u8 option;
     Some (filesystem_new used (clamp_word (unat (available_kib div 1024)))) }"

definition read_filesystem_usage :: "'v host_env \<Rightarrow> str \<Rightarrow> filesystem_usage" where
  "read_filesystem_usage env path = (case he_run env ''/usr/bin/df'' [''-P'', ''-k'', path] of
     None \<Rightarrow> filesystem_missing
   | Some out \<Rightarrow> if \<not> co_success out then filesystem_missing
       else unwrap_or filesystem_missing (parse_filesystem_usage (utf8_lossy (co_stdout out)) path))"

section \<open>UPS\<close>

definition upsc_value :: "str \<Rightarrow> str \<Rightarrow> str option" where
  "upsc_value output key = find_map (\<lambda>line. do {
     (candidate, v) \<leftarrow> split_once (CHR '':'') line;
     (if trim candidate = key then Some (trim v) else None) }) (lines output)"

definition upsc_status :: "str \<Rightarrow> ups_status" where
  "upsc_status flags = (let has = (\<lambda>flag. flag \<in> set (split_whitespace flags)) in
     if has ''LB'' then LowBattery
     else if has ''RB'' then ReplaceBattery
     else if has ''OFF'' then OutputOff
     else if has ''OB'' then OnBattery
     else if has ''BYPASS'' then Bypass
     else if has ''CHRG'' then Charging
     else if has ''OL'' then Online
     else UpsUnknown)"

definition parse_upsc :: "str \<Rightarrow> ups_snapshot option" where
  "parse_upsc output = do {
     flags \<leftarrow> upsc_value output ''ups.status'';
     Some \<lparr>ups_status = upsc_status flags,
       ups_battery = Option.bind (upsc_value output ''battery.charge'') parse_percent_u8,
       ups_load = Option.bind (upsc_value output ''ups.load'') parse_percent_u8,
       ups_runtime = Option.bind (upsc_value output ''battery.runtime'') parse_word,
       ups_watts = map_option bounded_u16 (Option.bind (upsc_value output ''ups.realpower'') parse_f64),
       ups_stale = False\<rparr> }"

section \<open>Bounds\<close>

lemma f64_clamp_cases:
  assumes "lo \<le> hi"
  obtains "f64_clamp lo hi v = NaN" | x where "f64_clamp lo hi v = Fin x" "lo \<le> x" "x \<le> hi"
proof (cases v)
  case NaN
  then show thesis using that(1) by (simp add: f64_clamp_def)
next
  case (Inf s)
  then show thesis using that(2) [of "if s then lo else hi"] assms by (simp add: f64_clamp_def)
next
  case (Fin x)
  then show thesis
    using that(2) [of "if x < lo then lo else if x > hi then hi else x"] assms by (auto simp: f64_clamp_def)
qed

lemma round_clamped: "0 \<le> x \<Longrightarrow> x \<le> of_nat n \<Longrightarrow> nat \<lfloor>x + 1 / 2\<rfloor> \<le> n" for x :: rat
  by linarith

lemma percent_le: "percent v \<le> 100"
proof (rule f64_clamp_cases [of 0 100 v])
  fix x :: rat assume x: "f64_clamp 0 100 v = Fin x" "0 \<le> x" "x \<le> 100"
  then have "nat \<lfloor>x + 1 / 2\<rfloor> \<le> 100" using round_clamped [of x 100] by simp
  moreover have "0 \<le> \<lfloor>x + 1 / 2\<rfloor>" using x by simp
  ultimately show ?thesis
    using x by (simp add: percent_def f64_round_def f64_as_uint_def word_le_nat_alt unat_clamp_word)
qed (simp_all add: percent_def f64_round_def f64_as_uint_def)

lemma percent_of_nat: "n \<le> 100 \<Longrightarrow> percent (Fin (of_nat n)) = of_nat n"
proof -
  assume n: "n \<le> 100"
  have "\<lfloor>(of_nat n :: rat) + 1 / 2\<rfloor> = int n" by linarith
  then show ?thesis
    using n by (simp add: percent_def f64_round_def f64_as_uint_def f64_clamp_def clamp_word_def try_word_def)
qed

text \<open>The processor share in natural numbers, and its bound.\<close>

definition busy_share :: "nat \<Rightarrow> nat \<Rightarrow> nat" where
  "busy_share all idle = min ((all - idle) * 100) (2 ^ 64 - 1) div all"

lemma busy_share_le: "busy_share all idle \<le> 100"
proof (cases "all = 0")
  case False
  have "min ((all - idle) * 100) (2 ^ 64 - 1) \<le> all * 100" by auto
  then have "busy_share all idle \<le> all * 100 div all"
    unfolding busy_share_def by (rule div_le_mono)
  with False show ?thesis by simp
qed (simp add: busy_share_def)

lemma cpu_percent_share:
  "unat (cpu_percent (Some p) (Some c)) =
     busy_share (unat (ct_total c) - unat (ct_total p)) (unat (ct_idle c) - unat (ct_idle p))"
proof -
  let ?a = "sat_sub (ct_total c) (ct_total p)" and ?i = "sat_sub (ct_idle c) (ct_idle p)"
  let ?n = "busy_share (unat ?a) (unat ?i)"
  have v: "unat (sat_mul (sat_sub ?a ?i) 100 div ?a) = ?n"
    by (simp add: unat_div unat_sat_mul unat_sat_sub busy_share_def)
  have n: "?n < 2 ^ LENGTH(8)" using busy_share_le [of "unat ?a" "unat ?i"] by simp
  have "unat (cpu_percent (Some p) (Some c)) = ?n"
  proof (cases "?a = 0")
    case True
    then have "cpu_percent (Some p) (Some c) = 0" by (simp add: cpu_percent_def checked_div_def Let_def)
    moreover have "?n = 0" using True by (simp add: busy_share_def)
    ultimately show ?thesis by simp
  next
    case False
    then have "cpu_percent (Some p) (Some c) = unwrap_or 0 (try_word ?n)"
      using v by (simp add: cpu_percent_def checked_div_def Let_def)
    with n show ?thesis by (simp add: try_word_def unat_of_nat_small)
  qed
  then show ?thesis by (simp add: unat_sat_sub)
qed

text \<open>Splitting words that were joined with single spaces.\<close>

definition plain_word :: "str \<Rightarrow> bool" where
  "plain_word w = (w \<noteq> [] \<and> list_all (\<lambda>c. is_ascii c \<and> \<not> is_white [c]) w)"

lemma plain_word_ascii: "plain_word w \<Longrightarrow> list_all is_ascii w"
  by (simp add: plain_word_def list_all_iff)

lemma words_of_word: "list_all (\<lambda>c. \<not> is_white [c]) w \<Longrightarrow>
    words_of acc (map (\<lambda>c. [c]) w @ gs) = words_of (acc @ w) gs"
  by (induction w arbitrary: acc) auto

lemma is_white_space [simp]: "is_white [CHR '' '']"
  by (simp add: is_white_def)

fun unwords :: "str list \<Rightarrow> str" where
  "unwords [] = []"
| "unwords [w] = w"
| "unwords (w # ws) = w @ CHR '' '' # unwords ws"

lemma unwords_ascii: "\<forall>w \<in> set ws. plain_word w \<Longrightarrow> list_all is_ascii (unwords ws)"
  by (induction ws rule: unwords.induct) (auto simp: plain_word_ascii is_ascii_def)

lemma split_whitespace_unwords:
  assumes "\<forall>w \<in> set ws. plain_word w" shows "split_whitespace (unwords ws) = ws"
proof -
  have "words_of [] (map (\<lambda>c. [c]) (unwords ws)) = ws"
    using assms
  proof (induction ws rule: unwords.induct)
    case (2 w)
    then show ?case
      using words_of_word [of w "[]" "[]"] by (simp add: plain_word_def list_all_iff)
  next
    case (3 w v ws)
    then show ?case
      using words_of_word [of w "[]"] by (simp add: plain_word_def list_all_iff)
  qed simp
  then show ?thesis
    by (simp add: split_whitespace_def utf8_chars_ascii unwords_ascii assms)
qed

section \<open>The last line of a command's output\<close>

lemma lines_from_line: "CHR 0x0A \<notin> set w \<Longrightarrow> lines_from l (w @ CHR 0x0A # cs) = strip_cr (l @ w) # lines_from [] cs"
  by (induction w arbitrary: l) auto

lemma lines_from_append: "\<exists>ls. lines_from l (h @ CHR 0x0A # cs) = ls @ lines_from [] cs"
proof (induction h arbitrary: l)
  case (Cons c h)
  show ?case
  proof (cases "c = CHR 0x0A")
    case True
    obtain ls where "lines_from [] (h @ CHR 0x0A # cs) = ls @ lines_from [] cs" using Cons.IH by blast
    then have "lines_from l ((c # h) @ CHR 0x0A # cs) = (strip_cr l # ls) @ lines_from [] cs" using True by simp
    then show ?thesis by blast
  next
    case False
    with Cons.IH [of "l @ [c]"] show ?thesis by simp
  qed
qed auto

lemma plain_words_no_break:
  assumes "\<forall>w \<in> set ws. plain_word w"
  shows "CHR 0x0A \<notin> set (unwords ws) \<and> (unwords ws \<noteq> [] \<longrightarrow> last (unwords ws) \<noteq> CHR 0x0D)"
  using assms
proof (induction ws rule: unwords.induct)
  case (2 w)
  have "is_white [CHR 0x0A]" "is_white [CHR 0x0D]" by (simp_all add: is_white_def)
  moreover have "w \<noteq> []" "\<And>c. c \<in> set w \<Longrightarrow> \<not> is_white [c]"
    using 2 by (auto simp: plain_word_def list_all_iff)
  ultimately show ?case by (metis last_in_set unwords.simps(2))
next
  case (3 w v ws)
  have "is_white [CHR 0x0A]" by (simp add: is_white_def)
  with 3 show ?case
    by (cases ws) (auto simp: plain_word_def list_all_iff)
qed simp

lemma last_output_line:
  assumes "\<forall>w \<in> set ws. plain_word w" "ws \<noteq> []"
  shows "(case lines (h @ CHR 0x0A # unwords ws @ [CHR 0x0A]) of [] \<Rightarrow> None | ls \<Rightarrow> Some (last ls)) = Some (unwords ws)"
proof -
  note nb = plain_words_no_break [OF assms(1)]
  have "lines_from [] (unwords ws @ [CHR 0x0A]) = [unwords ws]"
    using nb lines_from_line [of "unwords ws" "[]" "[]"] by (auto simp: strip_cr_def)
  then obtain ls where "lines (h @ CHR 0x0A # unwords ws @ [CHR 0x0A]) = ls @ [unwords ws]"
    unfolding lines_def using lines_from_append [of "[]" h] by metis
  then show ?thesis by (cases ls) auto
qed

lemma dec_plain: "plain_word (dec n)"
proof -
  have "is_ascii c \<and> \<not> is_white [c]" if "is_digit c" for c
    using that by (auto simp: is_digit_def is_ascii_def is_white_def Let_def)
  then show ?thesis using dec_digits [of n] by (simp add: plain_word_def list_all_iff)
qed

lemma trim_end_percent: "trim_end_char (CHR ''%'') (dec n @ ''%'') = dec n"
proof -
  have "dec n \<noteq> []" "is_digit (last (dec n))"
    using dec_digits [of n] by (auto simp: list_all_iff)
  then have "last (dec n) \<noteq> CHR ''%'' \<and> dec n \<noteq> []" by (auto simp: is_digit_def)
  then obtain ds d where "dec n = ds @ [d]" "d \<noteq> CHR ''%''" by (metis append_butlast_last_id)
  then show ?thesis by (simp add: trim_end_char_def)
qed

section \<open>Properties\<close>

text \<open>The processor percentage is the busy share of the elapsed ticks, computed without
  overflow on the code's saturating 64-bit arithmetic, zero without two readings, and never
  above 100.\<close>

lemma cpu_percent_correct:
  "cpu_percent previous current = (case (previous, current) of
     (Some p, Some c) \<Rightarrow> of_nat (busy_share (unat (ct_total c) - unat (ct_total p)) (unat (ct_idle c) - unat (ct_idle p)))
   | _ \<Rightarrow> 0) \<and> cpu_percent previous current \<le> 100"
proof (cases "previous = None \<or> current = None")
  case True
  then show ?thesis by (auto simp: cpu_percent_def split: option.splits)
next
  case False
  then obtain p c where pc: "previous = Some p" "current = Some c" by auto
  show ?thesis
    using cpu_percent_share [of p c] busy_share_le
    by (simp add: pc word_le_nat_alt) (metis of_nat_unat ucast_id)
qed

text \<open>Reading \<open>df -P -k\<close>: whatever lines come before, a last line with the fields printed by
  \<open>df\<close> for the expected mount point gives a mounted filesystem with the capacity capped at
  100 and the free space in MiB, saturated at 32 bits.\<close>

lemma df_output_parsed:
  assumes "plain_word device" "plain_word mount" "available < 2 ^ 64" "used < 2 ^ 8"
  shows "parse_filesystem_usage (header @ CHR 0x0A # unwords [device, dec blocks, dec consumed, dec available,
       dec used @ ''%'', mount] @ [CHR 0x0A]) mount
    = Some \<lparr>fs_used_percent = of_nat (min used 100), fs_available_mib = clamp_word (available div 1024), fs_mounted = True\<rparr>"
proof -
  let ?ws = "[device, dec blocks, dec consumed, dec available, dec used @ ''%'', mount]"
  have "plain_word (dec used @ ''%'')"
    using dec_plain [of used] by (simp add: plain_word_def is_ascii_def is_white_def)
  then have plain: "\<forall>w \<in> set ?ws. plain_word w" using assms dec_plain by simp
  have a: "(parse_word (dec available) :: u64 option) = Some (of_nat available)"
    using assms(3) by (intro parse_word_dec) simp
  have u: "(parse_word (dec used) :: u8 option) = Some (of_nat used)"
    using assms(4) by (intro parse_word_dec) simp
  have d: "unat (of_nat available div (1024 :: u64)) = available div 1024"
    using assms(3) unat_of_nat_small [of available, where ?'a = 64] by (simp add: unat_div)
  have m: "(if (100 :: u8) < of_nat used then 100 else of_nat used) = (of_nat (min used 100) :: u8)"
    using assms(4) unat_of_nat_small [of used, where ?'a = 8] by (simp add: word_less_nat_alt min_def)
  have line: "(case lines (header @ CHR 0x0A # unwords ?ws @ [CHR 0x0A]) of [] \<Rightarrow> None | ls \<Rightarrow> Some (last ls))
      = Some (unwords ?ws)"
    by (rule last_output_line [OF plain]) simp
  have "length ?ws = 6" "last ?ws = mount" by simp_all
  moreover have "get_nth ?ws 3 = Some (dec available)" "get_nth ?ws 4 = Some (dec used @ ''%'')"
    by (simp_all add: get_nth_def)
  ultimately show ?thesis
    unfolding parse_filesystem_usage_def line
    using split_whitespace_unwords [OF plain] a u d m
    by (simp add: trim_end_percent filesystem_new_def del: unwords.simps)
qed

lemma df_output_parsed_example:
  "parse_filesystem_usage (''Filesystem'' @ CHR 0x0A # unwords [''/dev/sdc1'', dec 9767546464, dec 5476083304,
       dec 3758096384, dec 60 @ ''%'', ''/mnt/pve/backup''] @ [CHR 0x0A]) ''/mnt/pve/backup''
    = Some \<lparr>fs_used_percent = of_nat (min 60 100), fs_available_mib = clamp_word (3758096384 div 1024), fs_mounted = True\<rparr>"
  by (rule df_output_parsed) (simp_all add: plain_word_def is_ascii_def is_white_def)

end
