(* ===== verification/Network_Link.thy ===== *)
theory Network_Link
  imports Measure
begin

text \<open>
  The uplink (\<open>host/src/health.rs\<close>, from \<open>read_network\<close> down): the default route from the
  \<open>ip\<close> tool or procfs, and the walk through bonds, bridges and VLANs in sysfs to the physical
  port. The walk is recursive over a graph that may have cycles; \<open>visited\<close> bounds it, which is
  proved by an enough-fuel lemma.
\<close>

section \<open>Routes\<close>

text \<open>The word after the first occurrence of a keyword.\<close>

fun word_after :: "str \<Rightarrow> str list \<Rightarrow> str option" where
  "word_after k (a # b # ws) = (if a = k then Some b else word_after k (b # ws))"
| "word_after k ws = None"

definition parse_ip_route :: "str \<Rightarrow> (str \<times> u8 list) option" where
  "parse_ip_route output = (let ws = split_whitespace output in do {
     interface \<leftarrow> word_after ''dev'' ws;
     Some (interface, unwrap_or [0, 0, 0, 0] (Option.bind (word_after ''src'' ws) parse_ipv4)) })"

definition route_entry :: "str \<Rightarrow> (u32 \<times> str) option" where
  "route_entry line = (let fields = split_whitespace line in
     if length fields < 8 \<or> fields ! 1 \<noteq> ''00000000'' \<or> fields ! 7 \<noteq> ''00000000'' then None
     else do {
       flags \<leftarrow> parse_hex (fields ! 3) :: u16 option;
       (if \<not> bit flags 0 then None else Some ());
       metric \<leftarrow> parse_word (fields ! 6);
       Some (metric, fields ! 0) })"

text \<open>\<open>Iterator::min_by_key\<close> gives the first of equal minima, \<open>max_by_key\<close> the last of equal maxima.\<close>

fun min_by_key :: "('a \<Rightarrow> 'k::linorder) \<Rightarrow> 'a list \<Rightarrow> 'a option" where
  "min_by_key f [] = None"
| "min_by_key f (x # xs) = (case min_by_key f xs of None \<Rightarrow> Some x
     | Some y \<Rightarrow> Some (if f x \<le> f y then x else y))"

fun max_by_key :: "('a \<Rightarrow> 'k::linorder) \<Rightarrow> 'a list \<Rightarrow> 'a option" where
  "max_by_key f [] = None"
| "max_by_key f (x # xs) = (case max_by_key f xs of None \<Rightarrow> Some x
     | Some y \<Rightarrow> Some (if f y < f x then x else y))"

lemma min_by_key_None [simp]: "min_by_key f xs = None \<longleftrightarrow> xs = []"
  by (cases xs) (auto split: option.splits)

lemma max_by_key_None [simp]: "max_by_key f xs = None \<longleftrightarrow> xs = []"
  by (cases xs) (auto split: option.splits)

lemma min_by_key_Some: "min_by_key f xs = Some m \<Longrightarrow> m \<in> set xs \<and> (\<forall>x \<in> set xs. f m \<le> f x)"
proof (induction xs arbitrary: m)
  case (Cons x xs)
  show ?case
  proof (cases "min_by_key f xs")
    case None
    with Cons.prems show ?thesis by simp
  next
    case (Some a)
    with Cons.prems Cons.IH [OF Some] show ?thesis
      by (cases "f x \<le> f a") (auto simp: not_le not_less dest: order.trans less_imp_le)
  qed
qed simp

lemma max_by_key_Some: "max_by_key f xs = Some m \<Longrightarrow> m \<in> set xs \<and> (\<forall>x \<in> set xs. f x \<le> f m)"
proof (induction xs arbitrary: m)
  case (Cons x xs)
  show ?case
  proof (cases "max_by_key f xs")
    case None
    with Cons.prems show ?thesis by simp
  next
    case (Some a)
    with Cons.prems Cons.IH [OF Some] show ?thesis
      by (cases "f a < f x") (auto simp: not_le not_less dest: order.trans less_imp_le)
  qed
qed simp

definition parse_default_route :: "str \<Rightarrow> str option" where
  "parse_default_route routes =
     map_option snd (min_by_key fst (filter_map route_entry (drop 1 (lines routes))))"

definition read_interface_ipv4 :: "'v host_env \<Rightarrow> str \<Rightarrow> u8 list" where
  "read_interface_ipv4 env interface = unwrap_or [0, 0, 0, 0] (find_map (\<lambda>executable. do {
     out \<leftarrow> he_run env executable [''-4'', ''-o'', ''address'', ''show'', ''dev'', interface, ''scope'', ''global''];
     (if co_success out then Some () else None);
     find_map (\<lambda>word. Option.bind (get_nth (split_char (CHR ''/'') word) 0) parse_ipv4)
       (split_whitespace (utf8_lossy (co_stdout out))) }) [''/usr/sbin/ip'', ''/usr/bin/ip''])"

definition read_route :: "'v host_env \<Rightarrow> (str \<times> u8 list) option" where
  "read_route env = or_else
     (find_map (\<lambda>executable. do {
        out \<leftarrow> he_run env executable [''-4'', ''route'', ''get'', ''8.8.8.8''];
        (if co_success out then parse_ip_route (utf8_lossy (co_stdout out)) else None) })
        [''/usr/sbin/ip'', ''/usr/bin/ip''])
     (do { routes \<leftarrow> he_file env ''/proc/net/route'';
           interface \<leftarrow> parse_default_route routes;
           Some (interface, read_interface_ipv4 env interface) })"

section \<open>Links\<close>

definition path_join :: "str \<Rightarrow> str \<Rightarrow> str" where
  "path_join a b = (if starts_with ''/'' b then b else a @ ''/'' @ b)"

definition read_link :: "'v host_env \<Rightarrow> str \<Rightarrow> str \<Rightarrow> bool \<times> u16" where
  "read_link env sysfs interface = (let path = path_join sysfs interface;
       up = (case he_file env (path_join path ''carrier'') of
          None \<Rightarrow> is_some_and (\<lambda>state. trim state = ''up'') (he_file env (path_join path ''operstate''))
        | Some carrier \<Rightarrow> trim carrier = ''1'');
       speed = unwrap_or 0 (do {
          value \<leftarrow> he_file env (path_join path ''speed'');
          v \<leftarrow> parse_word (trim value) :: u32 option;
          try_word (unat v) })
     in (up, speed))"

section \<open>From the routed interface to the physical port\<close>

text \<open>
  The key the code compares with \<open>max_by_key\<close>, a tuple of a physical device, an up link and
  the speed, as one number.
\<close>

definition port_key :: "'v host_env \<Rightarrow> str \<Rightarrow> str \<Rightarrow> nat" where
  "port_key env sysfs candidate = (let (up, speed) = read_link env sysfs candidate in
     (if he_exists env (path_join (path_join sysfs candidate) ''device'') then 2 ^ 17 else 0)
     + (if up then 2 ^ 16 else 0) + unat speed)"

text \<open>The first \<open>lower_\<close> entry of the interface's directory, without the prefix.\<close>

definition lower_of :: "'v host_env \<Rightarrow> str \<Rightarrow> str option" where
  "lower_of env path = do {
     entries \<leftarrow> he_dir env path;
     entry \<leftarrow> List.find (starts_with ''lower_'') entries;
     strip_prefix ''lower_'' entry }"

text \<open>
  One call, over the recursive call \<open>rec\<close>: \<open>None\<close> is running out of fuel; otherwise the answer
  and the interfaces visited, which the code keeps in a vector the callees extend (a bridge
  clones it for each of its ports). First the active slave of a bond, then the ports of a
  bridge, then the lower device of a VLAN, else the interface itself.
\<close>

type_synonym walk = "str \<Rightarrow> str list \<Rightarrow> (str option \<times> str list) option"

definition resolve_bond :: "walk \<Rightarrow> 'v host_env \<Rightarrow> str \<Rightarrow> str list \<Rightarrow> (str option \<times> str list) option" where
  "resolve_bond rec env path visited =
     (case map_option trim (he_file env (path_join path ''bonding/active_slave'')) of
        None \<Rightarrow> Some (None, visited)
      | Some active_slave \<Rightarrow> if active_slave = [] then Some (None, visited) else rec active_slave visited)"

definition resolve_bridge ::
  "walk \<Rightarrow> 'v host_env \<Rightarrow> str \<Rightarrow> str list \<Rightarrow> str list \<Rightarrow> (str option \<times> str list) option" where
  "resolve_bridge rec env sysfs entries visited =
     (let results = map (\<lambda>entry. rec entry visited) entries in
      if None \<in> set results then None
      else Some (max_by_key (port_key env sysfs) (sort (filter_map (\<lambda>r. Option.bind r fst) results)), visited))"

definition resolve_lower ::
  "walk \<Rightarrow> 'v host_env \<Rightarrow> str \<Rightarrow> str \<Rightarrow> str list \<Rightarrow> (str option \<times> str list) option" where
  "resolve_lower rec env path interface visited =
     (case lower_of env path of
        None \<Rightarrow> Some (Some interface, visited)
      | Some lower \<Rightarrow> (case rec lower visited of
          None \<Rightarrow> None
        | Some (Some resolved, visited') \<Rightarrow> Some (Some resolved, visited')
        | Some (None, visited') \<Rightarrow> Some (Some interface, visited')))"

definition resolve_step ::
  "walk \<Rightarrow> 'v host_env \<Rightarrow> str \<Rightarrow> str \<Rightarrow> str list \<Rightarrow> (str option \<times> str list) option" where
  "resolve_step rec env sysfs interface visited =
     (if interface \<in> set visited then Some (None, visited)
      else let path = path_join sysfs interface in
        if \<not> he_exists env path then Some (None, visited @ [interface])
        else (case resolve_bond rec env path (visited @ [interface]) of
          None \<Rightarrow> None
        | Some (Some resolved, visited') \<Rightarrow> Some (Some resolved, visited')
        | Some (None, visited') \<Rightarrow>
            (case he_dir env (path_join path ''brif'') of
               Some entries \<Rightarrow> resolve_bridge rec env sysfs entries visited'
             | None \<Rightarrow> resolve_lower rec env path interface visited')))"

primrec resolve_interface :: "nat \<Rightarrow> 'v host_env \<Rightarrow> str \<Rightarrow> walk" where
  "resolve_interface 0 env sysfs = (\<lambda>interface visited. None)"
| "resolve_interface (Suc fuel) env sysfs = resolve_step (resolve_interface fuel env sysfs) env sysfs"

definition resolve_physical_interface :: "nat \<Rightarrow> 'v host_env \<Rightarrow> str \<Rightarrow> str \<Rightarrow> str option option" where
  "resolve_physical_interface fuel env sysfs routed =
     map_option fst (resolve_interface fuel env sysfs routed [])"

record network_snapshot =
  ns_interface :: str
  ns_up :: bool
  ns_mbps :: u16
  ns_ipv4 :: "u8 list"

definition network_default :: network_snapshot where
  "network_default = \<lparr>ns_interface = [], ns_up = False, ns_mbps = 0, ns_ipv4 = [0, 0, 0, 0]\<rparr>"

definition sysfs_net :: str where
  "sysfs_net = ''/sys/class/net''"

definition read_network :: "nat \<Rightarrow> 'v host_env \<Rightarrow> network_snapshot option" where
  "read_network fuel env = (case read_route env of
     None \<Rightarrow> Some network_default
   | Some (routed, ipv4) \<Rightarrow>
       map_option (\<lambda>physical. let interface = unwrap_or routed physical;
           (up, mbps) = read_link env sysfs_net interface
         in \<lparr>ns_interface = interface, ns_up = up, ns_mbps = mbps, ns_ipv4 = ipv4\<rparr>)
       (resolve_physical_interface fuel env sysfs_net routed))"

section \<open>The walk ends\<close>

text \<open>The interfaces sysfs knows; the walk visits each at most once.\<close>

definition interfaces :: "'v host_env \<Rightarrow> str \<Rightarrow> str set" where
  "interfaces env sysfs = {i. he_exists env (path_join sysfs i)}"

text \<open>What a walk keeps: visited interfaces stay visited, and the answer exists in sysfs.\<close>

definition walk_ok :: "'v host_env \<Rightarrow> str \<Rightarrow> walk \<Rightarrow> bool" where
  "walk_ok env sysfs rec = (\<forall>i vis r vis'. rec i vis = Some (r, vis') \<longrightarrow>
     set vis \<subseteq> set vis' \<and> (\<forall>x. r = Some x \<longrightarrow> x \<in> interfaces env sysfs))"

lemma walk_okD:
  "walk_ok env sysfs rec \<Longrightarrow> rec i vis = Some (r, vis') \<Longrightarrow> set vis \<subseteq> set vis'"
  "walk_ok env sysfs rec \<Longrightarrow> rec i vis = Some (Some x, vis') \<Longrightarrow> x \<in> interfaces env sysfs"
  by (auto simp: walk_ok_def)

lemma resolve_bond_ok:
  assumes "walk_ok env sysfs rec" "resolve_bond rec env path vis = Some (r, vis')"
  shows "set vis \<subseteq> set vis' \<and> (\<forall>x. r = Some x \<longrightarrow> x \<in> interfaces env sysfs)"
  using assms by (auto simp: resolve_bond_def walk_ok_def split: option.splits if_splits)

lemma resolve_bridge_ok:
  assumes "walk_ok env sysfs rec" "resolve_bridge rec env sysfs entries vis = Some (r, vis')"
  shows "set vis \<subseteq> set vis' \<and> (\<forall>x. r = Some x \<longrightarrow> x \<in> interfaces env sysfs)"
proof -
  let ?cs = "filter_map (\<lambda>r. Option.bind r fst) (map (\<lambda>entry. rec entry vis) entries)"
  have r: "r = max_by_key (port_key env sysfs) (sort ?cs)" "vis' = vis"
    using assms(2) by (auto simp: resolve_bridge_def Let_def split: if_splits)
  have "x \<in> interfaces env sysfs" if "x \<in> set ?cs" for x
    using that walk_okD(2) [OF assms(1)] by (auto simp: set_filter_map bind_eq_Some_conv)
  then show ?thesis using r max_by_key_Some [of "port_key env sysfs" "sort ?cs"] by force
qed

lemma resolve_lower_ok:
  assumes "walk_ok env sysfs rec" "interface \<in> interfaces env sysfs"
    and "resolve_lower rec env path interface vis = Some (r, vis')"
  shows "set vis \<subseteq> set vis' \<and> (\<forall>x. r = Some x \<longrightarrow> x \<in> interfaces env sysfs)"
  using assms(2,3) walk_okD [OF assms(1)]
  by (auto simp: resolve_lower_def split: option.splits) (meson subsetD)+

lemma resolve_step_ok:
  assumes "walk_ok env sysfs rec" shows "walk_ok env sysfs (resolve_step rec env sysfs)"
  unfolding walk_ok_def
proof (intro allI impI)
  fix i vis r vis'
  assume step: "resolve_step rec env sysfs i vis = Some (r, vis')"
  show "set vis \<subseteq> set vis' \<and> (\<forall>x. r = Some x \<longrightarrow> x \<in> interfaces env sysfs)"
  proof (cases "i \<in> set vis \<or> i \<notin> interfaces env sysfs")
    case True
    with step show ?thesis by (auto simp: resolve_step_def interfaces_def Let_def split: if_splits)
  next
    case False
    let ?path = "path_join sysfs i"
    obtain rb vb where bond: "resolve_bond rec env ?path (vis @ [i]) = Some (rb, vb)"
      using step False by (auto simp: resolve_step_def interfaces_def Let_def split: option.splits prod.splits)
    note b = resolve_bond_ok [OF assms bond]
    show ?thesis
    proof (cases rb)
      case (Some x)
      with step False bond b show ?thesis by (auto simp: resolve_step_def interfaces_def Let_def)
    next
      case None
      with step False bond have "(case he_dir env (path_join ?path ''brif'') of
          Some entries \<Rightarrow> resolve_bridge rec env sysfs entries vb
        | None \<Rightarrow> resolve_lower rec env ?path i vb) = Some (r, vis')"
        by (auto simp: resolve_step_def interfaces_def Let_def)
      then have "set vb \<subseteq> set vis' \<and> (\<forall>x. r = Some x \<longrightarrow> x \<in> interfaces env sysfs)"
        using False resolve_bridge_ok [OF assms] resolve_lower_ok [OF assms]
        by (auto split: option.splits)
      with b show ?thesis by auto
    qed
  qed
qed

lemma resolve_interface_ok: "walk_ok env sysfs (resolve_interface fuel env sysfs)"
  by (induction fuel) (simp_all add: resolve_step_ok, simp add: walk_ok_def)

text \<open>A call needs fuel only when recursive calls from a larger visited set do.\<close>

lemma resolve_step_total:
  assumes ok: "walk_ok env sysfs rec" and i: "i \<notin> set vis"
    and total_rec: "\<And>j vis'. i \<in> interfaces env sysfs \<Longrightarrow> set vis \<union> {i} \<subseteq> set vis' \<Longrightarrow> rec j vis' \<noteq> None"
  shows "resolve_step rec env sysfs i vis \<noteq> None"
proof (cases "i \<in> interfaces env sysfs")
  case False
  with i show ?thesis by (simp add: resolve_step_def interfaces_def Let_def)
next
  case True
  let ?path = "path_join sysfs i"
  have "resolve_bond rec env ?path (vis @ [i]) \<noteq> None"
    using total_rec [OF True, of "vis @ [i]"] by (auto simp: resolve_bond_def split: option.splits)
  then obtain rb vb where bond: "resolve_bond rec env ?path (vis @ [i]) = Some (rb, vb)" by auto
  have vb: "set vis \<union> {i} \<subseteq> set vb"
    using resolve_bond_ok [OF ok bond] by auto
  have "resolve_bridge rec env sysfs entries vb \<noteq> None" for entries
  proof -
    have "None \<notin> set (map (\<lambda>entry. rec entry vb) entries)"
      using total_rec [OF True vb] by (metis (mono_tags, lifting) imageE list.set_map)
    then show ?thesis by (simp add: resolve_bridge_def Let_def)
  qed
  moreover have "resolve_lower rec env ?path i vb \<noteq> None"
  proof (cases "lower_of env ?path")
    case None
    then show ?thesis by (simp add: resolve_lower_def)
  next
    case (Some l)
    obtain a v where "rec l vb = Some (a, v)" using total_rec [OF True vb, of l] by auto
    with Some show ?thesis by (cases a) (simp_all add: resolve_lower_def)
  qed
  ultimately show ?thesis
    using i True bond by (auto simp: resolve_step_def interfaces_def Let_def split: option.splits)
qed

lemma resolve_interface_total:
  assumes "finite (interfaces env sysfs)"
  shows "card (interfaces env sysfs - set vis) < fuel \<Longrightarrow> resolve_interface fuel env sysfs i vis \<noteq> None"
proof (induction fuel arbitrary: i vis)
  case (Suc fuel)
  show ?case
  proof (cases "i \<in> set vis")
    case True
    then show ?thesis by (simp add: resolve_step_def)
  next
    case False
    have rec: "resolve_interface fuel env sysfs j vis' \<noteq> None"
      if i: "i \<in> interfaces env sysfs" and v: "set vis \<union> {i} \<subseteq> set vis'" for j vis'
    proof (rule Suc.IH)
      have "interfaces env sysfs - set vis' \<subset> interfaces env sysfs - set vis"
        using i v False by auto
      then have "card (interfaces env sysfs - set vis') < card (interfaces env sysfs - set vis)"
        using assms by (intro psubset_card_mono) auto
      with Suc.prems show "card (interfaces env sysfs - set vis') < fuel" by simp
    qed
    have "resolve_step (resolve_interface fuel env sysfs) env sysfs i vis \<noteq> None"
      by (rule resolve_step_total [OF resolve_interface_ok False rec])
    then show ?thesis by simp
  qed
qed simp

section \<open>Properties\<close>

text \<open>(C23) Resolving the physical interface terminates on every sysfs, cyclic ones included: with
  one unit of fuel more than there are interfaces the recursion returns, and an interface it
  returns exists in sysfs.\<close>

theorem interface_resolution_terminates:
  assumes "finite (interfaces env sysfs)"
  shows "\<exists>r. resolve_physical_interface (Suc (card (interfaces env sysfs))) env sysfs routed = Some r
    \<and> set_option r \<subseteq> interfaces env sysfs"
proof -
  obtain r vis where r: "resolve_interface (Suc (card (interfaces env sysfs))) env sysfs routed [] = Some (r, vis)"
    using resolve_interface_total [OF assms, of "[]"] by fastforce
  then have "set_option r \<subseteq> interfaces env sysfs"
    using walk_okD(2) [OF resolve_interface_ok] by (cases r) blast+
  with r show ?thesis by (simp add: resolve_physical_interface_def)
qed

text \<open>A sysfs in which a bridge and its port name each other.\<close>

definition empty_json :: "unit json_api" where
  "empty_json = \<lparr>j_parse = (\<lambda>_. None), j_null = (), j_get = (\<lambda>_ _. None), j_pointer = (\<lambda>_ _. None),
     j_str = (\<lambda>_. None), j_u64 = (\<lambda>_. None), j_i64 = (\<lambda>_. None), j_f64 = (\<lambda>_. None),
     j_bool = (\<lambda>_. None), j_array = (\<lambda>_. None), j_is_number = (\<lambda>_. False)\<rparr>"

definition looping_env :: "unit host_env" where
  "looping_env = \<lparr>he_file = (\<lambda>_. None),
     he_dir = (\<lambda>p. if p = ''/s/br0/brif'' then Some [''eth0''] else if p = ''/s/eth0/brif'' then Some [''br0''] else None),
     he_exists = (\<lambda>p. p = ''/s/br0'' \<or> p = ''/s/eth0''),
     he_run = (\<lambda>_ _. None), he_json = empty_json, he_unix_secs = None\<rparr>"

lemma looping_interfaces: "finite (interfaces looping_env ''/s'')"
proof (rule finite_subset)
  show "interfaces looping_env ''/s'' \<subseteq> {''br0'', ''eth0'', ''/s/br0'', ''/s/eth0''}"
    by (auto simp: interfaces_def looping_env_def path_join_def)
qed simp

theorem interface_resolution_terminates_witness:
  "\<exists>r. resolve_physical_interface (Suc (card (interfaces looping_env ''/s''))) looping_env ''/s'' ''br0'' = Some r
    \<and> set_option r \<subseteq> interfaces looping_env ''/s''"
  by (rule interface_resolution_terminates [OF looping_interfaces])

end
