(* ===== verification/Inventory.thy ===== *)
theory Inventory
  imports Measure
begin

text \<open>
  SMART devices, backup jobs and guests (\<open>host/src/health.rs\<close>): the readings that come as
  JSON from \<open>smartctl\<close> and \<open>pvesh\<close>, with the error paths of the commands, and the count of
  running guests of \<open>host/src/lib.rs\<close>.
\<close>

section \<open>SMART\<close>

definition smart_temperature :: "'v json_api \<Rightarrow> 'v \<Rightarrow> i8 option" where
  "smart_temperature J json = do {
     t \<leftarrow> or_else (Option.bind (j_pointer J json ''/temperature/current'') (j_i64 J))
       (do { table \<leftarrow> j_pointer J json ''/ata_smart_attributes/table'';
             attributes \<leftarrow> j_array J table;
             attribute \<leftarrow> List.find (\<lambda>a. Option.bind (j_get J a ''name'') (j_str J)
                 \<in> {Some ''Temperature_Celsius'', Some ''Airflow_Temperature_Cel''}) attributes;
             raw \<leftarrow> j_pointer J attribute ''/raw/value'';
             j_i64 J raw });
     (if - 128 \<le> t \<and> t \<le> 127 then Some t else None) }"

text \<open>A bit of the (32-bit, two's complement) exit code.\<close>

definition exit_bit :: "int \<Rightarrow> nat \<Rightarrow> bool" where
  "exit_bit code k = odd (code div 2 ^ k)"

definition smart_verdict :: "bool option \<Rightarrow> int \<Rightarrow> i8 option \<Rightarrow> bool \<Rightarrow> smart_status" where
  "smart_verdict passed code temperature success =
     (if passed = Some False \<or> exit_bit code 3 then SmartFailed
      else if exit_bit code 4 \<or> exit_bit code 5 \<or> is_some_and (\<lambda>t. t \<ge> 55) temperature then SmartWarning
      else if passed = Some True \<or> success then SmartHealthy
      else SmartUnknown)"

definition read_smart_device :: "'v host_env \<Rightarrow> str \<Rightarrow> smart_status \<times> i8 option" where
  "read_smart_device env path =
     (case find_map (\<lambda>executable. he_run env executable
         [''-j'', ''-n'', ''standby'', ''-H'', ''-A'', ''-d'', ''sat'', path])
         [''/usr/sbin/smartctl'', ''/usr/bin/smartctl''] of
       None \<Rightarrow> (SmartUnknown, None)
     | Some out \<Rightarrow>
         let combined = utf8_lossy (co_stdout out) @ CHR 0x0A # utf8_lossy (co_stderr out) in
         if co_code out = Some 2 \<and> contains_str ''STANDBY'' (map to_upper combined) then (Sleeping, None)
         else
           let J = he_json env; json = unwrap_or (j_null J) (j_parse J (co_stdout out));
               temperature = smart_temperature J json;
               passed = Option.bind (j_pointer J json ''/smart_status/passed'') (j_bool J)
           in (smart_verdict passed (unwrap_or 1 (co_code out)) temperature (co_success out), temperature))"

text \<open>A configured device is its path and its label here (\<open>SmartDeviceConfig\<close>).\<close>

record smart_device_config =
  sdc_id :: str
  sdc_path :: str
  sdc_label :: str

definition read_smart :: "'v host_env \<Rightarrow> smart_device_config list \<Rightarrow> smart_device list" where
  "read_smart env devices = map (\<lambda>device.
     let (status, temperature) = read_smart_device env (sdc_path device)
     in smart_device_new (sdc_label device) status temperature) devices"

section \<open>Backup jobs\<close>

definition backup_job_enabled :: "'v json_api \<Rightarrow> 'v \<Rightarrow> bool" where
  "backup_job_enabled J job = (case j_get J job ''enabled'' of
     None \<Rightarrow> True
   | Some v \<Rightarrow> (case j_bool J v of
       Some enabled \<Rightarrow> enabled
     | None \<Rightarrow> if j_is_number J v then j_u64 J v \<noteq> Some 0
         else (case j_str J v of Some enabled \<Rightarrow> enabled \<noteq> ''0'' | None \<Rightarrow> False)))"

definition json_field_str :: "'v json_api \<Rightarrow> str \<Rightarrow> 'v \<Rightarrow> str option" where
  "json_field_str J key v = Option.bind (j_get J v key) (j_str J)"

definition json_field_u64 :: "'v json_api \<Rightarrow> str \<Rightarrow> 'v \<Rightarrow> u64 option" where
  "json_field_u64 J key v = Option.bind (j_get J v key) (j_u64 J)"

fun max_opt :: "u64 list \<Rightarrow> u64 option" where
  "max_opt [] = None"
| "max_opt (x # xs) = Some (fold max xs x)"

definition parse_backup_job_status ::
  "'v json_api \<Rightarrow> string \<Rightarrow> string \<Rightarrow> str \<Rightarrow> u64 \<Rightarrow> backup_job_status \<times> u32 option" where
  "parse_backup_job_status J jobs_bytes tasks_bytes host_name now_seconds =
     (case Option.bind (j_parse J jobs_bytes) (j_array J) of
       None \<Rightarrow> (BackupUnknown, None)
     | Some jobs \<Rightarrow>
         let enabled_jobs = length (filter (\<lambda>job. is_none_or (\<lambda>node. node = [] \<or> node = ''all'' \<or> node = host_name)
               (json_field_str J ''node'' job)) (filter (backup_job_enabled J) jobs)) in
         if enabled_jobs = 0 then (NoJob, None)
         else (case Option.bind (j_parse J tasks_bytes) (j_array J) of
           None \<Rightarrow> (BackupUnknown, None)
         | Some tasks \<Rightarrow>
             let local_tasks = sort_key (\<lambda>task. unwrap_or 0 (json_field_u64 J ''starttime'' task))
                   (filter (\<lambda>task. is_none_or (\<lambda>node. node = host_name) (json_field_str J ''node'' task)) tasks);
                 last_success_end = max_opt (filter_map (json_field_u64 J ''endtime'')
                   (filter (\<lambda>task. json_field_str J ''status'' task = Some ''OK'') local_tasks));
                 success_age = map_option (\<lambda>e. clamp_word (unat (sat_sub now_seconds e)) :: u32) last_success_end
             in if local_tasks = [] then (BackupStale, None)
                else if json_field_u64 J ''endtime'' (last local_tasks) = None then (BackupRunning, success_age)
                else if json_field_str J ''status'' (last local_tasks) \<noteq> Some ''OK'' then (BackupFailed, success_age)
                else (BackupHealthy, success_age)))"

definition read_backup_job_status :: "'v host_env \<Rightarrow> str \<Rightarrow> u64 option \<Rightarrow> u16 \<Rightarrow> backup_job_status \<times> u32 option" where
  "read_backup_job_status env host_name now_seconds task_history_limit =
     (case now_seconds of None \<Rightarrow> (BackupUnknown, None) | Some now \<Rightarrow>
      (case he_run env ''/usr/bin/pvesh'' [''get'', ''/cluster/backup'', ''--output-format'', ''json''] of
        None \<Rightarrow> (BackupUnknown, None)
      | Some jobs \<Rightarrow>
        (case he_run env ''/usr/bin/pvesh'' [''get'', ''/nodes/'' @ host_name @ ''/tasks'', ''--typefilter'',
             ''vzdump'', ''--source'', ''all'', ''--limit'', dec (unat task_history_limit),
             ''--output-format'', ''json''] of
          None \<Rightarrow> (BackupUnknown, None)
        | Some tasks \<Rightarrow>
            if \<not> co_success jobs \<or> \<not> co_success tasks then (BackupUnknown, None)
            else parse_backup_job_status (he_json env) (co_stdout jobs) (co_stdout tasks) host_name now)))"

section \<open>Guests\<close>

definition local_node :: "'v json_api \<Rightarrow> str \<Rightarrow> 'v \<Rightarrow> bool" where
  "local_node J host_name v = is_none_or (\<lambda>node. node = host_name) (json_field_str J ''node'' v)"

definition parse_guest :: "'v json_api \<Rightarrow> 'v \<Rightarrow> guest_summary option" where
  "parse_guest J v = do {
     id \<leftarrow> json_field_u64 J ''vmid'' v;
     vmid \<leftarrow> try_word (unat id);
     let kind = (if json_field_str J ''type'' v = Some ''lxc'' then Container else VirtualMachine);
     let status = (if json_field_str J ''status'' v = Some ''running'' then GuestRunning else GuestStopped);
     let cpu = (case Option.bind (j_get J v ''cpu'') (j_f64 J) of
       None \<Rightarrow> 0 | Some usage \<Rightarrow> percent (f64_mul usage (Fin 100)));
     let mused = bytes_to_mib (unwrap_or 0 (json_field_u64 J ''mem'' v));
     let mtotal = bytes_to_mib (unwrap_or 0 (json_field_u64 J ''maxmem'' v));
     let name = unwrap_or (dec (unat vmid)) (json_field_str J ''name'' v);
     Some (guest_new vmid name kind status cpu mused mtotal) }"

definition parse_guests :: "'v json_api \<Rightarrow> string \<Rightarrow> str \<Rightarrow> guest_summary list" where
  "parse_guests J bytes host_name = (case Option.bind (j_parse J bytes) (j_array J) of
     None \<Rightarrow> []
   | Some vs \<Rightarrow> filter_map (parse_guest J) (filter (local_node J host_name) vs))"

definition pvesh_guest_args :: "str list" where
  "pvesh_guest_args = [''get'', ''/cluster/resources'', ''--type'', ''vm'', ''--output-format'', ''json'']"

definition read_guests :: "'v host_env \<Rightarrow> str \<Rightarrow> guest_summary list" where
  "read_guests env host_name = (case he_run env ''/usr/bin/pvesh'' pvesh_guest_args of
     None \<Rightarrow> []
   | Some out \<Rightarrow> if \<not> co_success out then [] else parse_guests (he_json env) (co_stdout out) host_name)"

text \<open>The shutdown path counts running guests on its own (\<open>host/src/lib.rs\<close>).\<close>

definition running_guest_count_from_json :: "'v json_api \<Rightarrow> string \<Rightarrow> str \<Rightarrow> u16 option" where
  "running_guest_count_from_json J bytes host_name = map_option
     (\<lambda>vs. clamp_word (length (filter (\<lambda>v. json_field_str J ''status'' v = Some ''running'')
        (filter (local_node J host_name) vs))))
     (Option.bind (j_parse J bytes) (j_array J))"

definition running_guest_count :: "'v host_env \<Rightarrow> str \<Rightarrow> u16 option" where
  "running_guest_count env host_name = (case he_run env ''/usr/bin/pvesh'' pvesh_guest_args of
     None \<Rightarrow> None
   | Some out \<Rightarrow> if \<not> co_success out then None
       else running_guest_count_from_json (he_json env) (co_stdout out) host_name)"

section \<open>The newest task\<close>

text \<open>The last element of a stable sort is the one with the greatest key, the last of equals.\<close>

definition latest_by :: "('a \<Rightarrow> 'k :: linorder) \<Rightarrow> 'a list \<Rightarrow> 'a \<Rightarrow> bool" where
  "latest_by f xs x = (\<exists>before after. xs = before @ x # after
     \<and> (\<forall>y \<in> set before. f y \<le> f x) \<and> (\<forall>y \<in> set after. f y < f x))"

lemma last_insort_key:
  assumes "sorted (map f ys)"
  shows "last (insort_key f x ys) = (if \<forall>y \<in> set ys. f y < f x then x else last ys)"
  using assms by (induction ys) (auto simp: insort_is_Cons not_less)

lemma last_sort_key: "xs \<noteq> [] \<Longrightarrow> latest_by f xs (last (sort_key f xs))"
proof (induction xs)
  case (Cons x xs)
  let ?ys = "sort_key f xs"
  show ?case
  proof (cases "\<forall>y \<in> set xs. f y < f x")
    case True
    then have "last (sort_key f (x # xs)) = x" by (simp add: last_insort_key)
    moreover have "x # xs = [] @ x # xs" by simp
    ultimately show ?thesis unfolding latest_by_def using True by fastforce
  next
    case False
    then have ne: "xs \<noteq> []" by auto
    then obtain b a where s: "xs = b @ last ?ys # a" "\<forall>y \<in> set b. f y \<le> f (last ?ys)"
        "\<forall>y \<in> set a. f y < f (last ?ys)"
      using Cons.IH by (auto simp: latest_by_def)
    from False obtain y where y: "y \<in> set xs" "f x \<le> f y" by (auto simp: not_less)
    have "f y \<le> f (last ?ys)" if "y \<in> set xs" for y using that s(2,3) by (subst (asm) s(1)) (auto intro: less_imp_le)
    with y have "f x \<le> f (last ?ys)" by (meson order_trans)
    with s have "x # xs = (x # b) @ last ?ys # a \<and> (\<forall>y \<in> set (x # b). f y \<le> f (last ?ys))" by simp
    moreover have "last (sort_key f (x # xs)) = last ?ys" using False by (auto simp: last_insort_key)
    ultimately show ?thesis unfolding latest_by_def using s(3) by metis
  qed
qed simp

section \<open>Properties\<close>

text \<open>The jobs and the tasks that count for a host.\<close>

definition covering_jobs :: "'v json_api \<Rightarrow> str \<Rightarrow> 'v list \<Rightarrow> 'v list" where
  "covering_jobs J host jobs = filter (\<lambda>job. backup_job_enabled J job
     \<and> json_field_str J ''node'' job \<in> {None, Some [], Some ''all'', Some host}) jobs"

definition host_tasks :: "'v json_api \<Rightarrow> str \<Rightarrow> 'v list \<Rightarrow> 'v list" where
  "host_tasks J host tasks = filter (\<lambda>task. json_field_str J ''node'' task \<in> {None, Some host}) tasks"

text \<open>The backup state of the host. It is \<open>Healthy\<close> exactly when some enabled job covers the host
  and the most recently started of its tasks has ended with status OK; \<open>Running\<close> when that task
  has not ended, \<open>Failed\<close> when it ended otherwise, \<open>Stale\<close> when the host has no task at all,
  \<open>NoJob\<close> without a covering job and \<open>Unknown\<close> only on output that is not a JSON array.\<close>

lemma backup_status_correct:
  "case Option.bind (j_parse J jobs_bytes) (j_array J) of
     None \<Rightarrow> parse_backup_job_status J jobs_bytes tasks_bytes host now = (BackupUnknown, None)
   | Some jobs \<Rightarrow> if covering_jobs J host jobs = []
       then parse_backup_job_status J jobs_bytes tasks_bytes host now = (NoJob, None)
       else (case Option.bind (j_parse J tasks_bytes) (j_array J) of
         None \<Rightarrow> parse_backup_job_status J jobs_bytes tasks_bytes host now = (BackupUnknown, None)
       | Some tasks \<Rightarrow> if host_tasks J host tasks = []
           then parse_backup_job_status J jobs_bytes tasks_bytes host now = (BackupStale, None)
           else \<exists>latest. latest_by (\<lambda>t. unwrap_or 0 (json_field_u64 J ''starttime'' t)) (host_tasks J host tasks) latest
             \<and> fst (parse_backup_job_status J jobs_bytes tasks_bytes host now) =
                (if json_field_u64 J ''endtime'' latest = None then BackupRunning
                 else if json_field_str J ''status'' latest = Some ''OK'' then BackupHealthy else BackupFailed))"
proof (cases "Option.bind (j_parse J jobs_bytes) (j_array J)")
  case None
  then show ?thesis by (simp add: parse_backup_job_status_def)
next
  case (Some jobs)
  have cov: "filter (\<lambda>job. is_none_or (\<lambda>node. node = [] \<or> node = ''all'' \<or> node = host)
      (json_field_str J ''node'' job)) (filter (backup_job_enabled J) jobs) = covering_jobs J host jobs"
    unfolding covering_jobs_def filter_filter
    by (rule filter_cong) (auto simp: is_none_or_def split: option.splits)
  have loc: "filter (\<lambda>task. is_none_or (\<lambda>node. node = host) (json_field_str J ''node'' task)) tasks
      = host_tasks J host tasks" for tasks
    unfolding host_tasks_def by (rule filter_cong) (auto simp: is_none_or_def split: option.splits)
  have sorted: "sort_key f xs = [] \<longleftrightarrow> xs = []" for f :: "'a \<Rightarrow> u64" and xs
    by (metis length_0_conv length_sort)
  show ?thesis
  proof (cases "covering_jobs J host jobs = [] \<or> Option.bind (j_parse J tasks_bytes) (j_array J) = None")
    case True
    then show ?thesis
      unfolding parse_backup_job_status_def Some option.case Let_def cov loc
      by (cases "covering_jobs J host jobs = []") (simp_all only: length_0_conv if_True if_False option.case simp_thms refl)
  next
    case False
    then obtain tasks where tasks: "Option.bind (j_parse J tasks_bytes) (j_array J) = Some tasks" by auto
    let ?l = "last (sort_key (\<lambda>t. unwrap_or 0 (json_field_u64 J ''starttime'' t)) (host_tasks J host tasks))"
    show ?thesis
    proof (cases "host_tasks J host tasks = []")
      case True
      then show ?thesis
        using False unfolding parse_backup_job_status_def Some tasks option.case Let_def cov loc by simp
    next
      case ne: False
      have c: "covering_jobs J host jobs \<noteq> []" using False by simp
      have "fst (parse_backup_job_status J jobs_bytes tasks_bytes host now) =
          (if json_field_u64 J ''endtime'' ?l = None then BackupRunning
           else if json_field_str J ''status'' ?l = Some ''OK'' then BackupHealthy else BackupFailed)"
        unfolding parse_backup_job_status_def Some tasks option.case Let_def cov loc
        by (simp only: sorted length_0_conv c ne if_False if_not_P fst_conv split: if_split) simp
      with last_sort_key [OF ne, of "\<lambda>t. unwrap_or 0 (json_field_u64 J ''starttime'' t)"] c ne
      show ?thesis by (simp only: Some tasks option.case if_False) blast
    qed
  qed
qed

end
