(* ===== verification/Framing.thy ===== *)
theory Framing
  imports Protocol
begin

text \<open>
  Framing of messages on the serial line (\<open>protocol/src/lib.rs\<close>, \<open>encode\<close>, \<open>decode\<close> and
  \<open>FrameDecoder\<close>). The postcard and COBS crates are parameters: \<open>ser\<close> is
  \<open>postcard::to_slice_cobs\<close> into a buffer of the given size, \<open>de\<close> is
  \<open>postcard::from_bytes_cobs\<close> and \<open>cobs\<close> is \<open>cobs::decode_in_place\<close> with the decoded bytes.
  The main result says that the decoder, fed byte by byte, computes the segments between the
  delimiters of the stream, whatever the stream is.
\<close>

section \<open>Encoding and decoding one frame\<close>

definition frame_magic :: "u8 list" where
  "frame_magic = [0xa5, 0x5a]"

definition encode :: "('m \<Rightarrow> nat \<Rightarrow> u8 list option) \<Rightarrow> 'm \<Rightarrow> nat \<Rightarrow> protocol_error + u8 list" where
  "encode ser message output_len =
     (if output_len < 3 then Inl Serialize
      else case ser message (output_len - 3) of
        None \<Rightarrow> Inl Serialize
      | Some payload \<Rightarrow> Inr (frame_magic @ [protocol_version] @ payload))"

definition decode ::
  "(u8 list \<Rightarrow> 'm option) \<Rightarrow> (u8 list \<Rightarrow> u8 list option) \<Rightarrow> u8 list \<Rightarrow> protocol_error + 'm" where
  "decode de cobs frame =
     (if take 2 frame = frame_magic then
        (case drop 2 frame of
           [] \<Rightarrow> Inl EmptyFrame
         | version # payload \<Rightarrow>
             if version \<noteq> protocol_version then Inl (UnsupportedVersion version)
             else ok_or Deserialize (de payload))
      else
        (case cobs frame of
           None \<Rightarrow> Inl Deserialize
         | Some decoded \<Rightarrow>
             (case decoded of [] \<Rightarrow> Inl Deserialize | received # _ \<Rightarrow> Inl (UnsupportedVersion received))))"

text \<open>What the crates document of the serialized form: it fits the buffer, ends in its only
  zero byte, and decodes to the message it came from.\<close>

definition postcard_ok :: "('m \<Rightarrow> nat \<Rightarrow> u8 list option) \<Rightarrow> (u8 list \<Rightarrow> 'm option) \<Rightarrow> bool" where
  "postcard_ok ser de = (\<forall>m n p. ser m n = Some p \<longrightarrow>
     length p \<le> n \<and> p \<noteq> [] \<and> last p = 0 \<and> 0 \<notin> set (butlast p) \<and> de p = Some m)"

lemma postcard_okD:
  assumes "postcard_ok ser de" "ser m n = Some p"
  obtains body where "p = body @ [0]" "0 \<notin> set body" "length p \<le> n" "de p = Some m"
  using assms unfolding postcard_ok_def by (metis append_butlast_last_id)

lemma encode_length: "postcard_ok ser de \<Longrightarrow> encode ser m n = Inr frame \<Longrightarrow> length frame \<le> n"
  by (auto simp: encode_def postcard_ok_def frame_magic_def split: if_splits option.splits) fastforce

lemma encode_too_small: "n < 3 \<Longrightarrow> encode ser m n = Inl Serialize"
  by (simp add: encode_def)

lemma encode_error: "encode ser m n = Inl e \<Longrightarrow> e = Serialize"
  by (auto simp: encode_def split: if_splits option.splits)

lemma decode_encode_frame:
  "postcard_ok ser de \<Longrightarrow> encode ser m n = Inr frame \<Longrightarrow> decode de cobs frame = Inr m"
  by (auto simp: encode_def decode_def postcard_ok_def frame_magic_def numeral_2_eq_2
      split: if_splits option.splits)

lemma encode_delimited:
  assumes "postcard_ok ser de" "encode ser m n = Inr frame"
  obtains body where "frame = body @ [0]" "body \<noteq> []" "0 \<notin> set body"
proof -
  obtain p where p: "ser m (n - 3) = Some p" "frame = frame_magic @ [protocol_version] @ p"
    using assms(2) by (auto simp: encode_def split: if_splits option.splits)
  obtain b where b: "p = b @ [0]" "0 \<notin> set b"
    using postcard_okD [OF assms(1) p(1)] by metis
  show thesis
    by (rule that [of "frame_magic @ [protocol_version] @ b"])
      (simp_all add: p b frame_magic_def protocol_version_def)
qed

section \<open>The stream decoder\<close>

record frame_decoder =
  fd_bytes :: "u8 list" \<comment> \<open>the array of \<open>N\<close> bytes\<close>
  fd_len :: nat
  fd_discarding :: bool

definition decoder_new :: "nat \<Rightarrow> frame_decoder" where
  "decoder_new N = \<lparr>fd_bytes = replicate N 0, fd_len = 0, fd_discarding = False\<rparr>"

text \<open>
  One byte: \<open>None\<close> is the panic of an index out of the array; otherwise the new state and what
  \<open>push\<close> returns, a frame or an error at a delimiter.
\<close>

definition push ::
  "nat \<Rightarrow> frame_decoder \<Rightarrow> u8 \<Rightarrow> (frame_decoder \<times> (protocol_error + u8 list) option) option" where
  "push N d byte =
     (if byte = 0 then
        if fd_discarding d then Some (d\<lparr>fd_discarding := False, fd_len := 0\<rparr>, Some (Inl FrameTooLong))
        else if fd_len d = 0 then Some (d, Some (Inl EmptyFrame))
        else if fd_len d < length (fd_bytes d) then
          (let bytes = (fd_bytes d)[fd_len d := 0]
           in Some (d\<lparr>fd_bytes := bytes, fd_len := 0\<rparr>, Some (Inr (take (fd_len d + 1) bytes))))
        else None
      else if fd_discarding d then Some (d, None)
      else if N = 0 \<or> fd_len d \<ge> N - 1 then Some (d\<lparr>fd_discarding := True, fd_len := 0\<rparr>, None)
      else if fd_len d < length (fd_bytes d) then
        Some (d\<lparr>fd_bytes := (fd_bytes d)[fd_len d := byte], fd_len := fd_len d + 1\<rparr>, None)
      else None)"

fun push_all ::
  "('s \<Rightarrow> u8 \<Rightarrow> ('s \<times> 'r option) option) \<Rightarrow> 's \<Rightarrow> u8 list \<Rightarrow> ('s \<times> 'r list) option" where
  "push_all step s [] = Some (s, [])"
| "push_all step s (b # bs) =
     (case step s b of None \<Rightarrow> None
      | Some (s', out) \<Rightarrow>
          map_option (\<lambda>(t, outs). (t, (case out of None \<Rightarrow> outs | Some r \<Rightarrow> r # outs))) (push_all step s' bs))"

section \<open>Specification: the segments between delimiters\<close>

fun segments :: "u8 list \<Rightarrow> u8 list \<Rightarrow> u8 list list \<times> u8 list" where
  "segments cur [] = ([], cur)"
| "segments cur (b # bs) =
     (if b = 0 then (case segments [] bs of (done, rest) \<Rightarrow> (cur # done, rest))
      else segments (cur @ [b]) bs)"

definition classify :: "nat \<Rightarrow> u8 list \<Rightarrow> protocol_error + u8 list" where
  "classify N seg = (if seg = [] then Inl EmptyFrame
     else if length seg < N then Inr (seg @ [0]) else Inl FrameTooLong)"

text \<open>What a decoder of capacity \<open>N\<close> still knows of the current segment: its bytes while they fit.\<close>

definition kept :: "nat \<Rightarrow> u8 list \<Rightarrow> u8 list option" where
  "kept N seg = (if seg = [] \<or> length seg < N then Some seg else None)"

definition verdict :: "u8 list option \<Rightarrow> protocol_error + u8 list" where
  "verdict a = (case a of None \<Rightarrow> Inl FrameTooLong
     | Some seg \<Rightarrow> if seg = [] then Inl EmptyFrame else Inr (seg @ [0]))"

lemma verdict_kept: "verdict (kept N seg) = classify N seg"
  by (simp add: verdict_def kept_def classify_def)

definition extend :: "nat \<Rightarrow> u8 list option \<Rightarrow> u8 \<Rightarrow> u8 list option" where
  "extend N a b = (case a of None \<Rightarrow> None
     | Some seg \<Rightarrow> if length seg + 1 < N then Some (seg @ [b]) else None)"

lemma extend_kept: "extend N (kept N seg) b = kept N (seg @ [b])"
  by (auto simp: extend_def kept_def)

text \<open>The contract between a framer and the peers that feed it.\<close>

locale framer =
  fixes cap :: nat
    and step :: "'s \<Rightarrow> u8 \<Rightarrow> ('s \<times> (protocol_error + u8 list) option) option"
    and acc :: "'s \<Rightarrow> u8 list option"
    and ok :: "'s \<Rightarrow> bool"
  assumes step_data: "ok s \<Longrightarrow> b \<noteq> 0 \<Longrightarrow>
      \<exists>s'. step s b = Some (s', None) \<and> ok s' \<and> acc s' = extend cap (acc s) b"
    and step_delim: "ok s \<Longrightarrow>
      \<exists>s'. step s 0 = Some (s', Some (verdict (acc s))) \<and> ok s' \<and> acc s' = Some []"
begin

lemma run_segments:
  "ok s \<Longrightarrow> acc s = kept cap cur \<Longrightarrow>
   \<exists>s'. push_all step s bs = Some (s', map (classify cap) (fst (segments cur bs)))
      \<and> ok s' \<and> acc s' = kept cap (snd (segments cur bs))"
proof (induction bs arbitrary: s cur)
  case Nil
  then show ?case by simp
next
  case (Cons b bs)
  show ?case
  proof (cases "b = 0")
    case True
    obtain s' where s': "step s 0 = Some (s', Some (verdict (acc s)))" "ok s'" "acc s' = Some []"
      using step_delim [OF Cons.prems(1)] by blast
    have "acc s' = kept cap []" using s'(3) by (simp add: kept_def)
    from Cons.IH [OF s'(2) this] s'(1) True Cons.prems(2) show ?thesis
      by (auto simp: verdict_kept split: prod.splits)
  next
    case False
    obtain s' where s': "step s b = Some (s', None)" "ok s'" "acc s' = extend cap (acc s) b"
      using step_data [OF Cons.prems(1) False] by blast
    have "acc s' = kept cap (cur @ [b])" using s'(3) Cons.prems(2) by (simp add: extend_kept)
    from Cons.IH [OF s'(2) this] s'(1) False show ?thesis by auto
  qed
qed

lemma run_frames:
  assumes "ok s" "acc s = Some []"
  shows "\<exists>s'. push_all step s bs = Some (s', map (classify cap) (fst (segments [] bs))) \<and> ok s'"
  using run_segments [OF assms(1), of "[]" bs] assms(2) by (auto simp: kept_def)

end

section \<open>The decoder meets the contract\<close>

definition decoder_ok :: "nat \<Rightarrow> frame_decoder \<Rightarrow> bool" where
  "decoder_ok N d = (length (fd_bytes d) = N \<and> (fd_len d = 0 \<or> fd_len d < N)
     \<and> (fd_discarding d \<longrightarrow> fd_len d = 0))"

definition decoder_acc :: "frame_decoder \<Rightarrow> u8 list option" where
  "decoder_acc d = (if fd_discarding d then None else Some (take (fd_len d) (fd_bytes d)))"

lemma decoder_new_ok: "decoder_ok N (decoder_new N)" "decoder_acc (decoder_new N) = Some []"
  by (simp_all add: decoder_ok_def decoder_acc_def decoder_new_def)

lemma push_data:
  assumes ok: "decoder_ok N d" and b: "b \<noteq> 0"
  shows "\<exists>d'. push N d b = Some (d', None) \<and> decoder_ok N d'
    \<and> decoder_acc d' = extend N (decoder_acc d) b"
proof (cases "fd_discarding d")
  case True
  with ok b show ?thesis by (simp add: push_def decoder_acc_def extend_def)
next
  case live: False
  show ?thesis
  proof (cases "N = 0 \<or> fd_len d \<ge> N - 1")
    case True
    with ok b live show ?thesis
      by (simp add: push_def decoder_ok_def decoder_acc_def extend_def) linarith
  next
    case False
    then have l: "fd_len d + 1 < N" "fd_len d < length (fd_bytes d)"
      using ok by (auto simp: decoder_ok_def)
    then have "take (Suc (fd_len d)) ((fd_bytes d)[fd_len d := b]) = take (fd_len d) (fd_bytes d) @ [b]"
      by (simp add: take_Suc_conv_app_nth)
    with ok b live False l show ?thesis
      by (simp add: push_def decoder_ok_def decoder_acc_def extend_def)
  qed
qed

lemma push_delim:
  assumes ok: "decoder_ok N d"
  shows "\<exists>d'. push N d 0 = Some (d', Some (verdict (decoder_acc d))) \<and> decoder_ok N d'
    \<and> decoder_acc d' = Some []"
proof (cases "fd_discarding d \<or> fd_len d = 0")
  case True
  with ok show ?thesis
    by (auto simp: push_def decoder_ok_def decoder_acc_def verdict_def)
next
  case False
  then have l: "fd_len d < length (fd_bytes d)" "take (fd_len d) (fd_bytes d) \<noteq> []"
    using ok by (auto simp: decoder_ok_def)
  then have "take (Suc (fd_len d)) ((fd_bytes d)[fd_len d := 0]) = take (fd_len d) (fd_bytes d) @ [0]"
    by (simp add: take_Suc_conv_app_nth)
  with ok False l show ?thesis
    by (simp add: push_def decoder_ok_def decoder_acc_def verdict_def Let_def)
qed

lemma push_ok: "decoder_ok N d \<Longrightarrow> \<exists>d' out. push N d b = Some (d', out) \<and> decoder_ok N d'"
  using push_data [of N d b] push_delim [of N d] by (cases "b = 0") fastforce+

interpretation fd: framer N "push N" decoder_acc "decoder_ok N" for N
  by unfold_locales (blast intro: push_data push_delim)+

lemma segments_no_zero: "0 \<notin> set xs \<Longrightarrow> segments cur (xs @ bs) = segments (cur @ xs) bs"
  by (induction xs arbitrary: cur) auto

lemma segments_frame: "0 \<notin> set xs \<Longrightarrow>
    segments cur (xs @ 0 # bs) = (let (ds, r) = segments [] bs in ((cur @ xs) # ds, r))"
  by (simp add: segments_no_zero)

lemma segments_join: "segments cur bs = (ds, r) \<Longrightarrow> cur @ bs = concat (map (\<lambda>d. d @ [0]) ds) @ r \<and>
    (0 \<notin> set cur \<longrightarrow> 0 \<notin> set r \<and> (\<forall>d \<in> set ds. 0 \<notin> set d))"
proof (induction bs arbitrary: cur ds r)
  case (Cons b bs)
  show ?case
  proof (cases "b = 0")
    case True
    obtain ds' where ds': "segments [] bs = (ds', r)" "ds = cur # ds'"
      using Cons.prems True by (auto split: prod.splits)
    from Cons.IH [OF ds'(1)] ds'(2) True show ?thesis by auto
  next
    case False
    with Cons.prems have "segments (cur @ [b]) bs = (ds, r)" by simp
    from Cons.IH [OF this] False show ?thesis by auto
  qed
qed auto

lemma segments_frames:
  "\<forall>b \<in> set bodies. 0 \<notin> set b \<Longrightarrow> segments [] (concat (map (\<lambda>b. b @ [0]) bodies)) = (bodies, [])"
  by (induction bodies) (auto simp: segments_frame)

lemma segments_delim: "segments cur (xs @ 0 # ys) =
    (fst (segments cur (xs @ [0])) @ fst (segments [] ys), snd (segments [] ys))"
  by (induction xs arbitrary: cur) (auto split: prod.splits)

lemma classify_body: "body \<noteq> [] \<Longrightarrow> length body < N \<Longrightarrow> classify N body = Inr (body @ [0])"
  by (simp add: classify_def)

text \<open>The segments of a concatenation of encoded frames are the frames.\<close>

lemma segments_encoded:
  assumes "postcard_ok ser de"
  shows "list_all2 (\<lambda>m f. encode ser m N = Inr f) ms frames \<Longrightarrow>
    map (classify N) (fst (segments [] (concat frames))) = map Inr frames"
proof (induction ms frames rule: list_all2_induct)
  case (Cons m ms f frames)
  obtain body where body: "f = body @ [0]" "body \<noteq> []" "0 \<notin> set body"
    using encode_delimited [OF assms Cons(1)] by metis
  moreover have "length body < N"
    using encode_length [OF assms Cons(1)] body(1) by simp
  ultimately show ?case
    using Cons.IH by (auto simp: segments_frame classify_body split: prod.splits)
qed simp

section \<open>Properties\<close>

text \<open>(C7) The stream decoder is total and exact: fed any bytes one at a time from its initial
  state it never indexes outside its array, and what it returns is, in order, one answer per
  delimiter, which is the segment before it (with the delimiter) when that fits the capacity,
  \<open>EmptyFrame\<close> when it is empty and \<open>FrameTooLong\<close> when it does not fit.\<close>

theorem decoder_computes_segments:
  "\<exists>d. push_all (push N) (decoder_new N) bs = Some (d, map (classify N) (fst (segments [] bs)))"
  using fd.run_frames [OF decoder_new_ok] by blast

text \<open>(C8) Messages survive the line: after any bytes and one delimiter (the line may be opened
  in the middle of a frame), the frames of a list of encoded messages are recovered, and
  decoding what the decoder returns for them gives exactly these messages in this order.\<close>

theorem messages_survive_the_stream:
  assumes "postcard_ok ser de"
    and "list_all2 (\<lambda>m f. encode ser m N = Inr f) ms frames"
  shows "\<exists>d before outs. push_all (push N) (decoder_new N) (junk @ [0] @ concat frames) = Some (d, before @ outs)
    \<and> map (\<lambda>r. and_then r (decode de cobs)) outs = map Inr ms"
proof -
  obtain d where "push_all (push N) (decoder_new N) (junk @ [0] @ concat frames)
      = Some (d, map (classify N) (fst (segments [] (junk @ [0]))) @ map Inr frames)"
    using fd.run_frames [OF decoder_new_ok, of N "junk @ 0 # concat frames"] segments_encoded [OF assms]
    by (auto simp: segments_delim [of "[]" junk "concat frames"])
  moreover have "map (\<lambda>r. and_then r (decode de cobs)) (map Inr frames) = map Inr ms"
    using assms(2) by (induction rule: list_all2_induct) (simp_all add: decode_encode_frame [OF assms(1)])
  ultimately show ?thesis by blast
qed

definition sample_ser :: "device_message \<Rightarrow> nat \<Rightarrow> u8 list option" where
  "sample_ser m n = (if m = ShutdownRequested \<and> 3 \<le> n then Some [1, 1, 0] else None)"

definition sample_de :: "u8 list \<Rightarrow> device_message option" where
  "sample_de p = (if p = [1, 1, 0] then Some ShutdownRequested else None)"

lemma sample_postcard_ok: "postcard_ok sample_ser sample_de"
  by (auto simp: postcard_ok_def sample_ser_def sample_de_def)

theorem messages_survive_the_stream_witness:
  "\<exists>d before outs. push_all (push 8) (decoder_new 8)
       ([7, 9] @ [0] @ concat [[0xa5, 0x5a, 10, 1, 1, 0], [0xa5, 0x5a, 10, 1, 1, 0]]) = Some (d, before @ outs)
    \<and> map (\<lambda>r. and_then r (decode sample_de (\<lambda>_. None))) outs = map Inr [ShutdownRequested, ShutdownRequested]"
  by (rule messages_survive_the_stream [OF sample_postcard_ok])
    (simp add: encode_def sample_ser_def frame_magic_def protocol_version_def)

text \<open>The version gate: a frame decodes to a message exactly when it starts with the two
  magic bytes and the current protocol version and the rest deserializes; so no payload of
  another version ever reaches the message schema.\<close>

lemma decode_version_gate:
  "decode de cobs frame = Inr m \<longleftrightarrow>
     (\<exists>payload. frame = frame_magic @ protocol_version # payload \<and> de payload = Some m)"
proof
  assume "decode de cobs frame = Inr m"
  then obtain payload where "take 2 frame = frame_magic" "drop 2 frame = protocol_version # payload"
    "de payload = Some m"
    by (auto simp: decode_def split: if_splits list.splits option.splits)
  then show "\<exists>payload. frame = frame_magic @ protocol_version # payload \<and> de payload = Some m"
    by (metis append_take_drop_id)
next
  assume "\<exists>payload. frame = frame_magic @ protocol_version # payload \<and> de payload = Some m"
  then show "decode de cobs frame = Inr m"
    by (auto simp: decode_def frame_magic_def)
qed

end
