(* ===== verification/Host_Shutdown.thy ===== *)
theory Host_Shutdown
  imports Network_Link Inventory Framing
begin

text \<open>
  Shutting the host down on request of the device (\<open>host/src/lib.rs\<close>) and the console stand-in of
  the mock host (\<open>mock-host/src/lib.rs\<close>). The serial port is a log of what happened and the
  outcomes of the coming operations on it; \<open>ser\<close> is the serializer of the framing. Guests are
  counted again on every poll, so the environment depends on the poll: \<open>env k\<close>. Log lines on
  stderr are not modelled.
\<close>

section \<open>Input and output\<close>

datatype io_event = Wrote "u8 list" | Flushed | Slept time | RanPoweroff | Printed str

record io =
  io_log :: "io_event list"
  io_faults :: "bool list" \<comment> \<open>whether the coming port operations fail; no entry: they succeed\<close>

datatype host_error = EncodingHostMessage | WriteError | FlushError
  | SystemctlNotRun | SystemctlExited "int option" | AlsoFailedToReport host_error | PrintError

text \<open>A computation: \<open>None\<close> when it has not returned within the fuel.\<close>

type_synonym 'a act = "io \<Rightarrow> ((host_error + 'a) \<times> io) option"

definition ret :: "'a \<Rightarrow> 'a act" where
  "ret a = (\<lambda>io. Some (Inr a, io))"

definition throw :: "host_error \<Rightarrow> 'a act" where
  "throw e = (\<lambda>io. Some (Inl e, io))"

definition then_do :: "'a act \<Rightarrow> ('a \<Rightarrow> 'b act) \<Rightarrow> 'b act" where
  "then_do m f = (\<lambda>io. case m io of None \<Rightarrow> None | Some (Inl e, io') \<Rightarrow> Some (Inl e, io') | Some (Inr a, io') \<Rightarrow> f a io')"

definition catch_do :: "'a act \<Rightarrow> (host_error + 'a \<Rightarrow> 'b act) \<Rightarrow> 'b act" where
  "catch_do m f = (\<lambda>io. case m io of None \<Rightarrow> None | Some (r, io') \<Rightarrow> f r io')"

definition log_event :: "io_event \<Rightarrow> unit act" where
  "log_event ev = (\<lambda>io. Some (Inr (), io\<lparr>io_log := io_log io @ [ev]\<rparr>))"

definition port_op :: "io_event \<Rightarrow> host_error \<Rightarrow> unit act" where
  "port_op ev e = (\<lambda>io. case io_faults io of
     [] \<Rightarrow> Some (Inr (), io\<lparr>io_log := io_log io @ [ev]\<rparr>)
   | fault # faults \<Rightarrow> if fault then Some (Inl e, io\<lparr>io_faults := faults\<rparr>)
       else Some (Inr (), io\<lparr>io_log := io_log io @ [ev], io_faults := faults\<rparr>))"

section \<open>Host messages on the port\<close>

type_synonym serializer = "host_message \<Rightarrow> nat \<Rightarrow> u8 list option"

definition write_host_message :: "serializer \<Rightarrow> host_message \<Rightarrow> unit act" where
  "write_host_message ser m = (case encode ser m max_host_frame_len of
     Inl e \<Rightarrow> throw EncodingHostMessage
   | Inr frame \<Rightarrow> port_op (Wrote frame) WriteError)"

definition write_shutdown_progress :: "serializer \<Rightarrow> shutdown_phase \<Rightarrow> u16 \<Rightarrow> u16 \<Rightarrow> unit act" where
  "write_shutdown_progress ser phase total_guests remaining =
     then_do (write_host_message ser (ShutdownProgress phase total_guests remaining)) (\<lambda>_. port_op Flushed FlushError)"

definition write_shutdown_failure :: "serializer \<Rightarrow> shutdown_failure \<Rightarrow> u16 \<Rightarrow> unit act" where
  "write_shutdown_failure ser reason remaining =
     then_do (write_host_message ser (ShutdownFailed reason remaining)) (\<lambda>_.
     then_do (port_op Flushed FlushError) (\<lambda>_. log_event (Slept 3000000000)))"

definition report_shutdown_failure :: "serializer \<Rightarrow> shutdown_failure \<Rightarrow> u16 \<Rightarrow> host_error \<Rightarrow> 'a act" where
  "report_shutdown_failure ser reason remaining e =
     catch_do (write_shutdown_failure ser reason remaining)
       (\<lambda>r. case r of Inl _ \<Rightarrow> throw (AlsoFailedToReport e) | Inr _ \<Rightarrow> throw e)"

section \<open>Powering the system off\<close>

text \<open>\<open>monitor_system_guest_shutdown\<close>: \<open>k\<close> counts the polls; a poll that fails ends the loop with
  the last count.\<close>

fun monitor_system_guest_shutdown ::
  "nat \<Rightarrow> serializer \<Rightarrow> (nat \<Rightarrow> 'v host_env) \<Rightarrow> str \<Rightarrow> u16 \<Rightarrow> u16 \<Rightarrow> nat \<Rightarrow> u16 act" where
  "monitor_system_guest_shutdown 0 ser env host_name all_guests last_remaining k = (\<lambda>io. None)"
| "monitor_system_guest_shutdown (Suc fuel) ser env host_name all_guests last_remaining k =
     then_do (log_event (Slept 1000000000)) (\<lambda>_.
       case running_guest_count (env k) host_name of
         None \<Rightarrow> ret last_remaining
       | Some remaining \<Rightarrow>
           then_do (write_shutdown_progress ser StoppingGuests all_guests remaining) (\<lambda>_.
             if remaining = 0 then ret 0
             else monitor_system_guest_shutdown fuel ser env host_name all_guests remaining (Suc k)))"

definition count_guests :: "serializer \<Rightarrow> 'v host_env \<Rightarrow> str \<Rightarrow> u16 option act" where
  "count_guests ser env host_name = (case running_guest_count env host_name of
     Some initial \<Rightarrow> then_do (write_shutdown_progress ser StoppingGuests initial initial) (\<lambda>_. ret (Some initial))
   | None \<Rightarrow> ret None)"

text \<open>\<open>systemctl poweroff --no-block\<close>: the exit code, or \<open>None\<close> when it cannot be started.\<close>

definition run_systemctl :: "serializer \<Rightarrow> 'v host_env \<Rightarrow> u16 option \<Rightarrow> unit act" where
  "run_systemctl ser env initial = (case he_run env ''/usr/bin/systemctl'' [''poweroff'', ''--no-block''] of
     None \<Rightarrow> report_shutdown_failure ser HostPoweroffFailure (unwrap_or 0 initial) SystemctlNotRun
   | Some out \<Rightarrow> then_do (log_event RanPoweroff) (\<lambda>_.
       if \<not> co_success out then
         report_shutdown_failure ser HostPoweroffFailure (unwrap_or 0 initial) (SystemctlExited (co_code out))
       else ret ()))"

definition after_poweroff :: "nat \<Rightarrow> serializer \<Rightarrow> (nat \<Rightarrow> 'v host_env) \<Rightarrow> str \<Rightarrow> u16 option \<Rightarrow> unit act" where
  "after_poweroff fuel ser env host_name initial = (case initial of
     None \<Rightarrow> write_shutdown_progress ser PhasePoweringOff 0 0
   | Some initial_count \<Rightarrow>
       then_do (monitor_system_guest_shutdown fuel ser env host_name initial_count initial_count 1) (\<lambda>remaining.
       then_do (if remaining = 0 then
           then_do (write_shutdown_progress ser PhaseGuestsStopped initial_count 0) (\<lambda>_. log_event (Slept 500000000))
         else ret ()) (\<lambda>_.
         write_shutdown_progress ser PhasePoweringOff initial_count remaining)))"

definition systemd_poweroff :: "nat \<Rightarrow> serializer \<Rightarrow> (nat \<Rightarrow> 'v host_env) \<Rightarrow> unit act" where
  "systemd_poweroff fuel ser env =
     then_do (write_shutdown_progress ser PreparingGuests 0 0) (\<lambda>_.
       let host_name = read_host_name (env 0) in
       then_do (count_guests ser (env 0) host_name) (\<lambda>initial.
       then_do (run_systemctl ser (env 0) initial) (\<lambda>_.
         after_poweroff fuel ser env host_name initial)))"

section \<open>The mock host's shutdown\<close>

definition mock_phases :: "(shutdown_phase \<times> u16) list" where
  "mock_phases = [(PreparingGuests, 4), (StoppingGuests, 4), (StoppingGuests, 3), (StoppingGuests, 2),
     (StoppingGuests, 1), (PhaseGuestsStopped, 0), (PhasePoweringOff, 0)]"

fun write_phases :: "serializer \<Rightarrow> time \<Rightarrow> (shutdown_phase \<times> u16) list \<Rightarrow> unit act" where
  "write_phases ser delay [] = ret ()"
| "write_phases ser delay ((phase, remaining) # rest) =
     then_do (write_shutdown_progress ser phase 4 remaining) (\<lambda>_.
     then_do (log_event (Slept delay)) (\<lambda>_. write_phases ser delay rest))"

text \<open>\<open>print_ok\<close>: whether the writer of the console accepts the line.\<close>

definition console_poweroff :: "bool \<Rightarrow> serializer \<Rightarrow> time \<Rightarrow> unit act" where
  "console_poweroff print_ok ser progress_delay = then_do (write_phases ser progress_delay mock_phases) (\<lambda>_.
     if print_ok then log_event (Printed ''mock shutdown requested; no system shutdown was performed'')
     else throw PrintError)"

section \<open>The event handler\<close>

definition handle :: "serializer \<Rightarrow> unit act \<Rightarrow> bool \<Rightarrow> device_message \<Rightarrow> bool act" where
  "handle ser poweroff allow_shutdown message = (case message of
     DeviceHello version session \<Rightarrow> ret False
   | ShutdownRequested \<Rightarrow> if allow_shutdown then
         then_do (write_host_message ser ShutdownAccepted) (\<lambda>_.
         then_do (port_op Flushed FlushError) (\<lambda>_.
         catch_do poweroff (\<lambda>r. case r of Inr _ \<Rightarrow> ret True | Inl _ \<Rightarrow> ret False)))
       else ret False)"

section \<open>What a computation adds to the log\<close>

definition emits :: "(io_event \<Rightarrow> bool) \<Rightarrow> 'a act \<Rightarrow> bool" where
  "emits P m = (\<forall>io r io'. m io = Some (r, io') \<longrightarrow> (\<exists>new. io_log io' = io_log io @ new \<and> list_all P new))"

named_theorems emits_rule

lemma emits_ret [emits_rule]: "emits P (ret a)"
  by (simp add: emits_def ret_def)

lemma emits_throw [emits_rule]: "emits P (throw e)"
  by (simp add: emits_def throw_def)

lemma emits_none [emits_rule]: "emits P (\<lambda>io. None)"
  by (simp add: emits_def)

lemma emits_log [emits_rule]: "P ev \<Longrightarrow> emits P (log_event ev)"
  by (simp add: emits_def log_event_def)

lemma emits_port_op [emits_rule]: "P ev \<Longrightarrow> emits P (port_op ev e)"
  by (auto simp: emits_def port_op_def split: list.splits if_splits)

lemma emits_catch_do [emits_rule]: "emits P m \<Longrightarrow> (\<And>r. emits P (f r)) \<Longrightarrow> emits P (catch_do m f)"
  unfolding emits_def catch_do_def by (fastforce split: option.splits)

lemma emits_then_do [emits_rule]: "emits P m \<Longrightarrow> (\<And>a. emits P (f a)) \<Longrightarrow> emits P (then_do m f)"
  unfolding emits_def then_do_def by (fastforce split: option.splits sum.splits)

lemma emits_if [emits_rule]: "emits P m \<Longrightarrow> emits P n \<Longrightarrow> emits P (if b then m else n)"
  by simp

lemma emits_mono: "emits P m \<Longrightarrow> (\<And>ev. P ev \<Longrightarrow> Q ev) \<Longrightarrow> emits Q m"
  unfolding emits_def by (meson list.pred_mono_strong)

lemma emitsD:
  assumes "emits P m" "m io = Some (r, io')"
  obtains new where "io_log io' = io_log io @ new" "list_all P new"
  using assms unfolding emits_def by blast

lemma port_op_returns: "\<exists>r io'. port_op ev e io = Some (r, io')"
  by (simp add: port_op_def split: list.split)

lemma port_op_result:
  "port_op ev e io = Some (r, io') \<Longrightarrow>
     r = Inl e \<and> io_log io' = io_log io \<or> r = Inr () \<and> io_log io' = io_log io @ [ev]"
  by (auto simp: port_op_def split: list.splits if_splits)

text \<open>The frames of a shutdown.\<close>

definition shutdown_frame :: "serializer \<Rightarrow> u8 list \<Rightarrow> bool" where
  "shutdown_frame ser f = (\<exists>m. encode ser m max_host_frame_len = Inr f
     \<and> (case m of ShutdownProgress phase n r \<Rightarrow> True | ShutdownFailed reason r \<Rightarrow> True | _ \<Rightarrow> False))"

fun shutdown_event :: "serializer \<Rightarrow> io_event \<Rightarrow> bool" where
  "shutdown_event ser (Wrote f) = shutdown_frame ser f"
| "shutdown_event ser ev = True"

definition quiet_event :: "serializer \<Rightarrow> io_event \<Rightarrow> bool" where
  "quiet_event ser ev = (shutdown_event ser ev \<and> ev \<noteq> RanPoweroff)"

lemma quiet_event_simps [simp]:
  "quiet_event ser (Wrote f) = shutdown_frame ser f"
  "quiet_event ser Flushed" "quiet_event ser (Slept t)" "quiet_event ser (Printed s)"
  "\<not> quiet_event ser RanPoweroff"
  by (simp_all add: quiet_event_def)

lemma emits_write_message:
  "(\<And>f. encode ser m max_host_frame_len = Inr f \<Longrightarrow> P (Wrote f)) \<Longrightarrow> emits P (write_host_message ser m)"
  by (auto simp: write_host_message_def intro: emits_rule split: sum.splits)

lemma emits_progress [emits_rule]: "emits (quiet_event ser) (write_shutdown_progress ser phase n r)"
  unfolding write_shutdown_progress_def
  by (intro emits_rule emits_write_message) (auto simp: quiet_event_def shutdown_frame_def)

lemma emits_failure [emits_rule]: "emits (quiet_event ser) (report_shutdown_failure ser reason n e)"
  unfolding report_shutdown_failure_def write_shutdown_failure_def
  by (intro emits_rule emits_write_message)
    (auto simp: quiet_event_def shutdown_frame_def intro: emits_rule split: sum.splits)

lemma emits_count [emits_rule]: "emits (quiet_event ser) (count_guests ser env host)"
  by (auto simp: count_guests_def intro: emits_rule split: option.splits)

lemma emits_monitor [emits_rule]:
  "emits (quiet_event ser) (monitor_system_guest_shutdown fuel ser env host n last_remaining k)"
  by (induction fuel ser env host n last_remaining k rule: monitor_system_guest_shutdown.induct)
    (auto intro!: emits_rule split: option.splits)

lemma emits_after_poweroff [emits_rule]: "emits (quiet_event ser) (after_poweroff fuel ser env host initial)"
  unfolding after_poweroff_def
  by (auto intro!: emits_rule split: option.splits)

lemma emits_run_systemctl [emits_rule]: "emits (shutdown_event ser) (run_systemctl ser env initial)"
proof -
  have "emits (shutdown_event ser) (report_shutdown_failure ser reason n e)" for reason n and e
    by (rule emits_mono [OF emits_failure]) (simp add: quiet_event_def)
  then show ?thesis by (auto simp: run_systemctl_def intro!: emits_rule split: option.splits)
qed

lemma emits_quiet: "emits (quiet_event ser) m \<Longrightarrow> emits (shutdown_event ser) m"
  by (erule emits_mono) (simp add: quiet_event_def)

lemma emits_systemd: "emits (shutdown_event ser) (systemd_poweroff fuel ser env)"
  unfolding systemd_poweroff_def Let_def
  by (intro emits_then_do emits_run_systemctl emits_quiet emits_progress emits_count emits_after_poweroff)

lemma emits_phases: "emits (quiet_event ser) (write_phases ser delay phases)"
  by (induction ser delay phases rule: write_phases.induct)
    (auto intro!: emits_rule)

lemma emits_console: "emits (quiet_event ser) (console_poweroff print_ok ser delay)"
  unfolding console_poweroff_def by (intro emits_rule emits_phases) (simp add: quiet_event_def)

section \<open>The interface of a shutdown\<close>

text \<open>What the handler needs of an implementation of the trait \<open>Shutdown\<close>: that it only adds to
  the log, and writes no frames but those of a shutdown.\<close>

locale shutdown_impl =
  fixes ser :: serializer and poweroff :: "unit act"
  assumes poweroff_emits: "emits (shutdown_event ser) poweroff"
begin

lemma handle_ignores:
  assumes "handle ser poweroff allow message io = Some (r, io')" "\<not> (allow \<and> message = ShutdownRequested)"
  shows "r = Inr False \<and> io' = io"
  using assms by (cases message) (auto simp: handle_def ret_def)

text \<open>The acknowledgement is the first thing the handler writes, and it is flushed before the
  shutdown starts.\<close>

lemma handle_acknowledges:
  assumes "handle ser poweroff allow ShutdownRequested io = Some (r, io')" "io' \<noteq> io"
  shows "allow \<and> (io_log io' = io_log io \<and> r \<in> {Inl WriteError}
    \<or> (\<exists>frame. encode ser ShutdownAccepted max_host_frame_len = Inr frame
         \<and> (io_log io' = io_log io @ [Wrote frame] \<and> r = Inl FlushError
           \<or> (\<exists>new. io_log io' = io_log io @ [Wrote frame, Flushed] @ new \<and> list_all (shutdown_event ser) new
                \<and> (\<exists>stop. r = Inr stop)))))"
proof -
  have allow: allow using assms handle_ignores by blast
  show ?thesis
  proof (cases "encode ser ShutdownAccepted max_host_frame_len")
    case (Inl e)
    then show ?thesis using assms allow by (simp add: handle_def write_host_message_def then_do_def throw_def)
  next
    case (Inr frame)
    obtain r1 io1 where w: "port_op (Wrote frame) WriteError io = Some (r1, io1)"
      using port_op_returns by blast
    obtain r2 io2 where fl: "port_op Flushed FlushError io1 = Some (r2, io2)"
      using port_op_returns by blast
    note w' = port_op_result [OF w] and fl' = port_op_result [OF fl]
    show ?thesis
    proof (cases "r1 = Inr () \<and> r2 = Inr ()")
      case False
      with assms allow w w' fl fl' Inr show ?thesis
        by (auto simp: handle_def write_host_message_def then_do_def)
    next
      case True
      with assms(1) allow w fl Inr have h: "(case poweroff io2 of None \<Rightarrow> None
          | Some (r, io') \<Rightarrow> (case r of Inr _ \<Rightarrow> ret True | Inl _ \<Rightarrow> ret False) io') = Some (r, io')"
        by (simp add: handle_def write_host_message_def then_do_def catch_do_def)
      then obtain rp iop where p: "poweroff io2 = Some (rp, iop)" by (cases "poweroff io2") auto
      from emitsD [OF poweroff_emits p] obtain new where new: "io_log iop = io_log io2 @ new"
          "list_all (shutdown_event ser) new" .
      with h p True allow w' fl' Inr show ?thesis
        by (auto simp: ret_def split: sum.splits)
    qed
  qed
qed

end

interpretation systemd: shutdown_impl ser "systemd_poweroff fuel ser env" for ser fuel env
  by unfold_locales (rule emits_systemd)

interpretation console: shutdown_impl ser "console_poweroff print_ok ser delay" for print_ok ser delay
  by unfold_locales (rule emits_quiet [OF emits_console])

section \<open>Success and return\<close>

lemma then_do_Inr:
  "then_do m f io = Some (Inr b, io'') \<longleftrightarrow> (\<exists>a io'. m io = Some (Inr a, io') \<and> f a io' = Some (Inr b, io''))"
  by (auto simp: then_do_def split: option.splits sum.splits)

lemma progress_Inr:
  assumes "write_shutdown_progress ser phase n r io = Some (Inr (), io')"
  shows "\<exists>f. encode ser (ShutdownProgress phase n r) max_host_frame_len = Inr f
    \<and> io_log io' = io_log io @ [Wrote f, Flushed]"
  using assms
  by (auto simp: write_shutdown_progress_def then_do_Inr write_host_message_def throw_def
      dest!: port_op_result split: sum.splits)

lemma report_not_Inr: "report_shutdown_failure ser reason n e io \<noteq> Some (Inr a, io')"
  by (auto simp: report_shutdown_failure_def catch_do_def throw_def split: option.splits sum.splits)

lemma run_systemctl_Inr:
  assumes "run_systemctl ser env initial io = Some (Inr (), io')"
  shows "(\<exists>out. he_run env ''/usr/bin/systemctl'' [''poweroff'', ''--no-block''] = Some out \<and> co_success out)
    \<and> io_log io' = io_log io @ [RanPoweroff]"
  using assms
  by (auto simp: run_systemctl_def then_do_Inr log_event_def report_not_Inr ret_def
      split: option.splits if_splits)

lemma after_poweroff_Inr:
  assumes "after_poweroff fuel ser env host initial io = Some (Inr (), io')"
  shows "\<exists>new n r f. io_log io' = io_log io @ new @ [Wrote f, Flushed] \<and> list_all (quiet_event ser) new
    \<and> encode ser (ShutdownProgress PhasePoweringOff n r) max_host_frame_len = Inr f"
proof (cases initial)
  case None
  with assms have p: "write_shutdown_progress ser PhasePoweringOff 0 0 io = Some (Inr (), io')"
    by (simp add: after_poweroff_def)
  obtain f where "encode ser (ShutdownProgress PhasePoweringOff 0 0) max_host_frame_len = Inr f"
      "io_log io' = io_log io @ [] @ [Wrote f, Flushed]" "list_all (quiet_event ser) []"
    using progress_Inr [OF p] by auto
  then show ?thesis by blast
next
  case (Some n)
  let ?last = "\<lambda>remaining. if remaining = 0 then
      then_do (write_shutdown_progress ser PhaseGuestsStopped n 0) (\<lambda>_. log_event (Slept 500000000)) else ret ()"
  obtain remaining io1 io2 where m: "monitor_system_guest_shutdown fuel ser env host n n 1 io = Some (Inr remaining, io1)"
      "?last remaining io1 = Some (Inr (), io2)"
    and p: "write_shutdown_progress ser PhasePoweringOff n remaining io2 = Some (Inr (), io')"
    using assms Some by (auto simp: after_poweroff_def then_do_Inr split: if_splits)
  obtain new1 where n1: "io_log io1 = io_log io @ new1" "list_all (quiet_event ser) new1"
    by (rule emitsD [OF emits_monitor m(1)])
  have e: "emits (quiet_event ser) (?last remaining)" by (intro emits_rule) simp
  obtain new2 where n2: "io_log io2 = io_log io1 @ new2" "list_all (quiet_event ser) new2"
    using emitsD [of _ "?last remaining", OF e m(2)] .
  obtain f where "encode ser (ShutdownProgress PhasePoweringOff n remaining) max_host_frame_len = Inr f"
      "io_log io' = io_log io @ (new1 @ new2) @ [Wrote f, Flushed]" "list_all (quiet_event ser) (new1 @ new2)"
    using progress_Inr [OF p] n1 n2 by auto
  then show ?thesis by blast
qed

lemma returns_then_do:
  "m io \<noteq> None \<Longrightarrow> (\<And>a io'. m io = Some (Inr a, io') \<Longrightarrow> f a io' \<noteq> None) \<Longrightarrow> then_do m f io \<noteq> None"
  by (auto simp: then_do_def split: sum.splits)

lemma progress_returns: "write_shutdown_progress ser phase n r io \<noteq> None"
  unfolding write_shutdown_progress_def
  by (rule returns_then_do) (auto simp: write_host_message_def throw_def port_op_returns split: sum.split)

lemma report_returns: "report_shutdown_failure ser reason n e io \<noteq> None"
proof -
  have "write_shutdown_failure ser reason n io \<noteq> None"
    unfolding write_shutdown_failure_def
    by (intro returns_then_do) (auto simp: write_host_message_def throw_def log_event_def port_op_returns split: sum.split)
  then show ?thesis by (auto simp: report_shutdown_failure_def catch_do_def throw_def split: sum.split)
qed

lemma count_returns: "count_guests ser env host io \<noteq> None"
proof (cases "running_guest_count env host")
  case (Some n)
  show ?thesis unfolding count_guests_def Some option.case
    by (rule returns_then_do [OF progress_returns]) (simp add: ret_def)
qed (simp add: count_guests_def ret_def)

lemma systemctl_returns: "run_systemctl ser env initial io \<noteq> None"
  using report_returns
  by (auto simp: run_systemctl_def then_do_def log_event_def ret_def split: option.split)

lemma monitor_returns:
  assumes "running_guest_count (env j) host \<in> {None, Some 0}" "k \<le> j"
  shows "j < k + fuel \<Longrightarrow> monitor_system_guest_shutdown fuel ser env host n l k io \<noteq> None"
  using assms(2)
proof (induction fuel arbitrary: k l io)
  case (Suc fuel)
  have "(case running_guest_count (env k) host of None \<Rightarrow> ret l
      | Some remaining \<Rightarrow> then_do (write_shutdown_progress ser StoppingGuests n remaining) (\<lambda>_.
          if remaining = 0 then ret 0
          else monitor_system_guest_shutdown fuel ser env host n remaining (Suc k))) io' \<noteq> None" for io'
  proof (cases "running_guest_count (env k) host")
    case (Some remaining)
    have "remaining \<noteq> 0 \<Longrightarrow> monitor_system_guest_shutdown fuel ser env host n remaining (Suc k) io2 \<noteq> None" for io2
      using Suc.IH [of "Suc k"] Suc.prems Some assms(1) by (cases "j = k") auto
    then show ?thesis unfolding Some option.case by (intro returns_then_do progress_returns) (simp add: ret_def)
  qed (simp add: ret_def)
  then show ?case unfolding monitor_system_guest_shutdown.simps
    by (intro returns_then_do) (simp_all add: log_event_def)
qed simp

section \<open>Properties\<close>

text \<open>(C12) A shutdown of the system is always asked for and acknowledged first: the power-off command
  can only have been run by the handler when shutdowns are enabled, the message was a shutdown
  request, and the first things the handler did were to write the frame of \<open>ShutdownAccepted\<close>
  and to flush it.\<close>

theorem shutdown_acknowledged_first:
  assumes "handle ser (systemd_poweroff fuel ser env) allow message io = Some (r, io')"
    and "io_log io' = io_log io @ new" "RanPoweroff \<in> set new"
  shows "allow \<and> message = ShutdownRequested
    \<and> (\<exists>frame rest. encode ser ShutdownAccepted max_host_frame_len = Inr frame \<and> new = Wrote frame # Flushed # rest)"
proof -
  have "io' \<noteq> io" using assms(2,3) by auto
  moreover from this have m: "message = ShutdownRequested"
    using systemd.handle_ignores [OF assms(1)] by blast
  ultimately have "allow" and "io_log io' = io_log io \<and> r \<in> {Inl WriteError}
    \<or> (\<exists>frame. encode ser ShutdownAccepted max_host_frame_len = Inr frame
         \<and> (io_log io' = io_log io @ [Wrote frame] \<and> r = Inl FlushError
           \<or> (\<exists>new. io_log io' = io_log io @ [Wrote frame, Flushed] @ new \<and> list_all (shutdown_event ser) new
                \<and> (\<exists>stop. r = Inr stop))))"
    using systemd.handle_acknowledges [OF assms(1) [unfolded m]] by blast+
  then show ?thesis using m assms(2,3) by auto
qed

text \<open>An environment in which the command succeeds and guests cannot be counted.\<close>

definition poweroff_env :: "unit host_env" where
  "poweroff_env = looping_env\<lparr>he_run := (\<lambda>p args. if p = ''/usr/bin/systemctl''
     then Some \<lparr>co_code = Some 0, co_stdout = [], co_stderr = []\<rparr> else None)\<rparr>"

lemmas shutdown_run_defs = handle_def systemd_poweroff_def write_host_message_def write_shutdown_progress_def
  then_do_def catch_do_def throw_def ret_def log_event_def port_op_def encode_def max_host_frame_len_def
  count_guests_def running_guest_count_def run_systemctl_def after_poweroff_def poweroff_env_def
  looping_env_def co_success_def

theorem shutdown_acknowledged_first_witness:
  "\<exists>io' new. handle (\<lambda>m n. Some [0]) (systemd_poweroff 0 (\<lambda>m n. Some [0]) (\<lambda>k. poweroff_env)) True ShutdownRequested
        \<lparr>io_log = [], io_faults = []\<rparr> = Some (Inr True, io') \<and> RanPoweroff \<in> set new \<and> io_log io' = new
    \<and> (\<exists>frame rest. encode (\<lambda>m n. Some [0]) ShutdownAccepted max_host_frame_len = Inr frame
         \<and> new = Wrote frame # Flushed # rest)"
proof -
  let ?io = "\<lparr>io_log = [], io_faults = []\<rparr>"
  obtain io' where h: "handle (\<lambda>m n. Some [0]) (systemd_poweroff 0 (\<lambda>m n. Some [0]) (\<lambda>k. poweroff_env)) True
      ShutdownRequested ?io = Some (Inr True, io')" and l: "RanPoweroff \<in> set (io_log io')"
    by (simp add: shutdown_run_defs)
  have "io_log io' = io_log ?io @ io_log io'" by simp
  from shutdown_acknowledged_first [OF h this l] h l show ?thesis by blast
qed

text \<open>A power-off that succeeds ran the command exactly once, successfully, and tells the display that
  the host powers off only after that, as the last frame.\<close>

lemma poweroff_log:
  assumes "systemd_poweroff fuel ser env io = Some (Inr (), io')"
  shows "\<exists>before after n remaining frame.
      io_log io' = io_log io @ before @ [RanPoweroff] @ after @ [Wrote frame, Flushed]
    \<and> list_all (quiet_event ser) before \<and> list_all (quiet_event ser) after
    \<and> encode ser (ShutdownProgress PhasePoweringOff n remaining) max_host_frame_len = Inr frame
    \<and> (\<exists>out. he_run (env 0) ''/usr/bin/systemctl'' [''poweroff'', ''--no-block''] = Some out \<and> co_success out)"
proof -
  obtain io1 io2 io3 initial where s:
      "write_shutdown_progress ser PreparingGuests 0 0 io = Some (Inr (), io1)"
      "count_guests ser (env 0) (read_host_name (env 0)) io1 = Some (Inr initial, io2)"
      "run_systemctl ser (env 0) initial io2 = Some (Inr (), io3)"
      "after_poweroff fuel ser env (read_host_name (env 0)) initial io3 = Some (Inr (), io')"
    using assms by (auto simp: systemd_poweroff_def Let_def then_do_Inr)
  obtain b1 where b1: "io_log io1 = io_log io @ b1" "list_all (quiet_event ser) b1"
    by (rule emitsD [OF emits_progress s(1)])
  obtain b2 where b2: "io_log io2 = io_log io1 @ b2" "list_all (quiet_event ser) b2"
    by (rule emitsD [OF emits_count s(2)])
  obtain a n remaining f where a: "io_log io' = io_log io3 @ a @ [Wrote f, Flushed]" "list_all (quiet_event ser) a"
      "encode ser (ShutdownProgress PhasePoweringOff n remaining) max_host_frame_len = Inr f"
    using after_poweroff_Inr [OF s(4)] by blast
  have "io_log io' = io_log io @ (b1 @ b2) @ [RanPoweroff] @ a @ [Wrote f, Flushed]"
    using b1 b2 a run_systemctl_Inr [OF s(3)] by simp
  moreover have "list_all (quiet_event ser) (b1 @ b2)" using b1 b2 by simp
  ultimately show ?thesis using a run_systemctl_Inr [OF s(3)] by blast
qed

text \<open>(C13) The power-off returns as soon as some poll of the guests, the \<open>j\<close>-th second after the
  command, finds none running or fails; the fuel that is needed is the number of polls.\<close>

theorem poweroff_returns:
  assumes "running_guest_count (env j) (read_host_name (env 0)) \<in> {None, Some 0}" "1 \<le> j"
  shows "\<exists>r io'. systemd_poweroff j ser env io = Some (r, io')"
proof -
  let ?host = "read_host_name (env 0)"
  have after: "after_poweroff j ser env ?host initial io1 \<noteq> None" for initial io1
  proof (cases initial)
    case (Some n)
    have last_part: "(if r = 0 then then_do (write_shutdown_progress ser PhaseGuestsStopped n 0)
        (\<lambda>_. log_event (Slept 500000000)) else ret ()) io2 \<noteq> None" for r :: u16 and io2
    proof (cases "r = 0")
      case True
      show ?thesis unfolding True simp_thms if_True
        by (rule returns_then_do [OF progress_returns]) (simp add: log_event_def)
    qed (simp add: ret_def)
    have monitor: "monitor_system_guest_shutdown j ser env ?host n n 1 io1 \<noteq> None"
      by (rule monitor_returns [where env = env and j = j, OF assms]) simp
    show ?thesis unfolding after_poweroff_def Some option.case
      by (rule returns_then_do, rule monitor, rule returns_then_do, rule last_part, rule progress_returns)
  qed (simp add: after_poweroff_def progress_returns)
  have "systemd_poweroff j ser env io \<noteq> None"
    unfolding systemd_poweroff_def Let_def
    by (intro returns_then_do progress_returns count_returns systemctl_returns after)
  then show ?thesis by auto
qed

theorem poweroff_returns_witness:
  "\<exists>r io'. systemd_poweroff 1 (\<lambda>m n. Some [0]) (\<lambda>k. poweroff_env) \<lparr>io_log = [], io_faults = []\<rparr> = Some (r, io')"
  by (rule poweroff_returns) (simp_all add: running_guest_count_def poweroff_env_def)

end
