(* ===== verification/Config.thy ===== *)
theory Config
  imports Inventory
begin

text \<open>
  The configuration of the daemon (\<open>host/src/config.rs\<close>): its data, the parsers of durations,
  measurement names and view layouts, and the validation \<open>Config::load\<close> runs. What
  \<open>serde_yaml\<close> does is a parameter: \<open>'v yaml\<close> has the shapes of a YAML value the code matches
  on, everything else is \<open>YOther\<close>, and the accessors are a record. The text of an error is a
  value of \<open>config_error\<close>.
\<close>

section \<open>Errors\<close>

datatype config_error =
    UnsupportedConfigVersion u8
  | Bail str \<comment> \<open>a message without arguments\<close>
  | InvalidId str str
  | DuplicateId str str
  | EmptyLabel str str
  | FilesystemPathNotAbsolute str
  | SmartPathNotDevice str
  | EmptyMessage str
  | EmptyCondition str
  | UnknownFilesystemMeasurement str
  | InRule str config_error
  | UnknownHttpView str
  | ViewsEmpty str
  | UnknownView str
  | UnknownResource str str
  | UnknownMeasurement str
  | InvalidDuration str
  | InvalidDurationUnit str

section \<open>YAML values\<close>

datatype 'v yaml = YString str | YSequence "'v yaml list" | YMapping "('v yaml \<times> 'v yaml) list" | YOther 'v

record 'v yaml_api =
  ya_str :: "'v yaml \<Rightarrow> str option"
  ya_bool :: "'v yaml \<Rightarrow> bool option"
  ya_u64 :: "'v yaml \<Rightarrow> u64 option"
  ya_f64 :: "'v yaml \<Rightarrow> f64 option"
  ya_null :: "'v yaml \<Rightarrow> bool"
  ya_sequence :: "'v yaml \<Rightarrow> 'v yaml list option"
  ya_field :: "'v yaml \<Rightarrow> str \<Rightarrow> 'v yaml option" \<comment> \<open>\<open>as_mapping\<close>, then \<open>get\<close> of a string key\<close>

section \<open>Durations\<close>

text \<open>
  \<open>parse_duration\<close>, in nanoseconds. The multiplications are on \<open>u64\<close> and wrap in a release build.
\<close>

definition from_millis :: "u64 \<Rightarrow> time" where
  "from_millis n = unat n * 1000000"

definition from_secs :: "u64 \<Rightarrow> time" where
  "from_secs n = unat n * 1000000000"

definition parse_duration :: "str \<Rightarrow> config_error + time" where
  "parse_duration v = (let digits = takeWhile is_digit v; rest = dropWhile is_digit v;
       unit = (if rest = [] then ''ms'' else rest) in
     and_then (ok_or (InvalidDuration v) (parse_word digits :: u64 option)) (\<lambda>number.
       if unit = ''ms'' then Inr (from_millis number)
       else if unit = ''s'' then Inr (from_secs number)
       else if unit = ''m'' then Inr (from_secs (number * 60))
       else if unit = ''h'' then Inr (from_secs (number * 3600))
       else Inl (InvalidDurationUnit v)))"

section \<open>Data\<close>

record host_config =
  cfg_update_interval :: time

record usb_serial_config =
  usb_device :: str
  usb_reconnect_interval :: time

record shutdown_config =
  sh_enabled :: bool
  sh_hold_time :: time
  sh_animation_delay :: time

record filesystem_config =
  fc_id :: str
  fc_path :: str
  fc_label :: str

record ups_config =
  uf_endpoint :: "str option"
  uf_failures_before_unavailable :: u8

record internet_config =
  in_target :: str
  in_interval :: time
  in_timeout :: time
  in_settle_delay :: time
  in_retry_delay :: time
  in_failures_before_failed :: u8

record sources_config =
  src_filesystems :: "filesystem_config list"
  src_smart_devices :: "smart_device_config list"
  src_ups :: ups_config
  src_internet :: internet_config
  src_task_history_limit :: u16

datatype severity = SevHealthy | SevWarning | SevCritical

fun severity_level :: "severity \<Rightarrow> health_level" where
  "severity_level SevHealthy = Healthy"
| "severity_level SevWarning = Warning"
| "severity_level SevCritical = Critical"

datatype filesystem_field = MountedField | UsedPercentField

datatype metric_selector = SelUpsStatus | SelUpsStale | SelSmartStatus | SelNetworkUp | SelInternetStatus
  | SelBackupStatus | SelBackupAge | SelCpuPercent | SelMemoryPercent | SelIoPressurePercent
  | SelFilesystem str filesystem_field

definition parse_selector :: "str \<Rightarrow> config_error + metric_selector" where
  "parse_selector v =
     (if v = ''ups.main.status'' then Inr SelUpsStatus
      else if v = ''ups.main.stale'' then Inr SelUpsStale
      else if v = ''smart.*.status'' then Inr SelSmartStatus
      else if v = ''network.uplink.up'' then Inr SelNetworkUp
      else if v = ''network.internet.status'' then Inr SelInternetStatus
      else if v = ''proxmox.backup.status'' then Inr SelBackupStatus
      else if v = ''proxmox.backup.last_success_age'' then Inr SelBackupAge
      else if v = ''system.cpu.percent'' then Inr SelCpuPercent
      else if v = ''system.memory.used_percent'' then Inr SelMemoryPercent
      else if v = ''system.io_pressure.percent'' then Inr SelIoPressurePercent
      else (case Option.bind (strip_prefix ''filesystem.'' v) (rsplit_once (CHR ''.'')) of
        Some (i, field) \<Rightarrow>
          if field = ''mounted'' then Inr (SelFilesystem i MountedField)
          else if field = ''used_percent'' then Inr (SelFilesystem i UsedPercentField)
          else Inl (UnknownMeasurement v)
      | None \<Rightarrow> Inl (UnknownMeasurement v)))"

record 'v predicate =
  pr_measurement :: metric_selector
  pr_equals :: "'v yaml option"
  pr_in :: "'v yaml list option"
  pr_at_least :: "f64 option"
  pr_greater_than :: "f64 option"
  pr_missing_or_greater_than :: "time option"

datatype 'v condition = All "'v condition list" | Any "'v condition list" | Predicate "'v predicate"

record 'v health_rule =
  rl_id :: str
  rl_severity :: severity
  rl_when :: "'v condition"
  rl_message :: str

record 'v health_config =
  hf_default_severity :: severity
  hf_default_message :: str
  hf_rules :: "'v health_rule list"

datatype view_layout =
    LOverview
  | LResources
  | LStorage "str list" "str list" bool \<comment> \<open>filesystem ids, SMART ids, filesystems left\<close>
  | LPowerNetwork bool \<comment> \<open>UPS left\<close>
  | LGuests bool u32 u32 \<comment> \<open>paginate, offset, limit\<close>

record view_config =
  vw_title :: str
  vw_layout :: view_layout

record http_output =
  ho_enabled :: bool
  ho_hostname :: str
  ho_port :: u16
  ho_views :: "str list"

datatype cfg_priority = CfgDefault | CfgHigh | CfgUrgent

fun notification_priority_of :: "cfg_priority \<Rightarrow> notification_priority" where
  "notification_priority_of CfgDefault = PrioDefault"
| "notification_priority_of CfgHigh = PrioHigh"
| "notification_priority_of CfgUrgent = PrioUrgent"

record ntfy_output =
  no_enabled :: bool
  no_server :: str
  no_severities :: "severity list"
  no_warning_priority :: cfg_priority
  no_critical_priority :: cfg_priority
  no_recovery_priority :: cfg_priority
  no_notify_recovery :: bool
  no_repeat_critical :: "time option"
  no_click_url :: "str option"

record outputs_config =
  ou_lcd_views :: "str list"
  ou_http :: "http_output option"
  ou_ntfy :: "ntfy_output option"

record 'v config =
  cf_version :: u8
  cf_host :: host_config
  cf_usb :: usb_serial_config
  cf_shutdown :: shutdown_config
  cf_sources :: sources_config
  cf_health :: "'v health_config"
  cf_views :: "str \<rightharpoonup> view_config"
  cf_outputs :: outputs_config

section \<open>View layouts\<close>

fun contains_node :: "str \<Rightarrow> 'v yaml \<Rightarrow> bool" where
  "contains_node needle (YString s) = (s = needle)"
| "contains_node needle (YSequence vs) = list_ex (contains_node needle) vs"
| "contains_node needle (YMapping kvs) = list_ex (\<lambda>kv. contains_node needle (fst kv) \<or> contains_node needle (snd kv)) kvs"
| "contains_node needle (YOther x) = False"

fun find_number :: "'v yaml_api \<Rightarrow> str \<Rightarrow> 'v yaml \<Rightarrow> u64 option" where
  "find_number Y needle (YMapping kvs) = find_map (\<lambda>kv. or_else
     (if ya_str Y (fst kv) = Some needle then ya_u64 Y (snd kv) else None) (find_number Y needle (snd kv))) kvs"
| "find_number Y needle (YSequence vs) = find_map (find_number Y needle) vs"
| "find_number Y needle v = None"

fun find_bool :: "'v yaml_api \<Rightarrow> str \<Rightarrow> 'v yaml \<Rightarrow> bool option" where
  "find_bool Y needle (YMapping kvs) = find_map (\<lambda>kv. or_else
     (if ya_str Y (fst kv) = Some needle then ya_bool Y (snd kv) else None) (find_bool Y needle (snd kv))) kvs"
| "find_bool Y needle (YSequence vs) = find_map (find_bool Y needle) vs"
| "find_bool Y needle v = None"

fun find_string_list :: "'v yaml_api \<Rightarrow> str \<Rightarrow> 'v yaml \<Rightarrow> str list option" where
  "find_string_list Y needle (YMapping kvs) = find_map (\<lambda>kv.
     if ya_str Y (fst kv) = Some needle then map_option (filter_map (ya_str Y)) (ya_sequence Y (snd kv))
     else find_string_list Y needle (snd kv)) kvs"
| "find_string_list Y needle (YSequence vs) = find_map (find_string_list Y needle) vs"
| "find_string_list Y needle v = None"

definition column_contains :: "'v yaml_api \<Rightarrow> 'v yaml \<Rightarrow> str \<Rightarrow> str \<Rightarrow> bool" where
  "column_contains Y layout side needle = is_some_and (contains_node needle)
     (Option.bind (ya_field Y layout ''columns'') (\<lambda>columns. ya_field Y columns side))"

definition parse_view_layout :: "'v yaml_api \<Rightarrow> 'v yaml \<Rightarrow> config_error + view_layout" where
  "parse_view_layout Y layout =
     (if contains_node ''guest_list'' layout then
        (let offset = unwrap_or 0 (find_number Y ''offset'' layout);
             limit = unwrap_or 4 (find_number Y ''limit'' layout) in
         and_then (ok_or (Bail ''out of range integral type conversion attempted'') (try_word (unat offset))) (\<lambda>off.
         and_then (ok_or (Bail ''out of range integral type conversion attempted'') (try_word (unat limit))) (\<lambda>lim.
           Inr (LGuests (unwrap_or False (find_bool Y ''paginate'' layout)) off lim))))
      else if contains_node ''filesystems'' layout \<and> contains_node ''smart'' layout then
        and_then (ok_or (Bail ''storage view requires a filesystem ID list'') (find_string_list Y ''filesystems'' layout)) (\<lambda>fss.
        and_then (ok_or (Bail ''storage view requires a SMART device ID list'') (find_string_list Y ''smart'' layout)) (\<lambda>smart.
          Inr (LStorage fss smart (column_contains Y layout ''left'' ''filesystems''))))
      else if column_contains Y layout ''left'' ''health'' \<and> column_contains Y layout ''right'' ''host_summary''
        then Inr LOverview
      else if contains_node ''cpu'' layout \<and> contains_node ''memory'' layout then Inr LResources
      else if column_contains Y layout ''left'' ''ups'' \<and> column_contains Y layout ''right'' ''network''
        then Inr (LPowerNetwork True)
      else if column_contains Y layout ''right'' ''ups'' \<and> column_contains Y layout ''left'' ''network''
        then Inr (LPowerNetwork False)
      else Inl (Bail ''layout cannot be rendered by the current firmware''))"

end
