(* ===== verification/Views.thy ===== *)
theory Views
  imports Config
begin

text \<open>
  From the configured views to the manifests the firmware gets (\<open>host/src/config.rs\<close>): ids are
  resolved to indices, long guest and storage views are cut into pages, and the display and
  network configurations are assembled. \<open>version\<close> is the build's version text.
\<close>

section \<open>Pages\<close>

definition resolve_index :: "str \<Rightarrow> (str \<Rightarrow> nat option) \<Rightarrow> str \<Rightarrow> config_error + u32" where
  "resolve_index kind find_index i =
     and_then (ok_or (UnknownResource kind i) (find_index i)) (\<lambda>index.
       ok_or (Bail ''resource index exceeds protocol range'') (try_word index))"

definition resolve_indices :: "str list \<Rightarrow> str \<Rightarrow> (str \<Rightarrow> nat option) \<Rightarrow> config_error + u32 list" where
  "resolve_indices ids kind find_index = collect (resolve_index kind find_index) ids"

definition filesystem_index :: "'v config \<Rightarrow> str \<Rightarrow> nat option" where
  "filesystem_index cfg i = position (\<lambda>f. fc_id f = i) (src_filesystems (cf_sources cfg))"

definition smart_index :: "'v config \<Rightarrow> str \<Rightarrow> nat option" where
  "smart_index cfg i = position (\<lambda>d. sdc_id d = i) (src_smart_devices (cf_sources cfg))"

definition guest_pages :: "display_label \<Rightarrow> nat \<Rightarrow> config_error + display_view list" where
  "guest_pages title guest_count = collect (\<lambda>index.
     and_then (ok_or (Bail ''out of range integral type conversion attempted'') (try_word (index * 4))) (\<lambda>offset. Inr (display_view_new title (Guests offset 4))))
     [0..<div_ceil (max guest_count 1) 4]"

definition storage_pages :: "display_label \<Rightarrow> bool \<Rightarrow> u32 list \<Rightarrow> u32 list \<Rightarrow> display_view list" where
  "storage_pages title filesystems_left fss smart =
     (let page_count = max (max (div_ceil (length fss) 3) (div_ceil (length smart) 5)) 1 in
      map (\<lambda>index. display_view_new title
        (Storage filesystems_left (take 3 (drop (index * 3) fss)) (take 5 (drop (index * 5) smart))))
        [0..<page_count])"

definition view_pages :: "'v config \<Rightarrow> nat \<Rightarrow> view_config \<Rightarrow> config_error + display_view list" where
  "view_pages cfg guest_count view = (let title = DisplayLabel (vw_title view) in
     case vw_layout view of
       LGuests paginate offset limit \<Rightarrow>
         if paginate then guest_pages title guest_count
         else Inr [display_view_new title (Guests offset limit)]
     | LStorage fs_ids smart_ids filesystems_left \<Rightarrow>
         and_then (resolve_indices fs_ids ''filesystem'' (filesystem_index cfg)) (\<lambda>fss.
         and_then (resolve_indices smart_ids ''SMART device'' (smart_index cfg)) (\<lambda>smart.
           Inr (storage_pages title filesystems_left fss smart)))
     | LOverview \<Rightarrow> Inr [display_view_new title Overview]
     | LResources \<Rightarrow> Inr [display_view_new title Resources]
     | LPowerNetwork ups_left \<Rightarrow> Inr [display_view_new title (PowerNetwork ups_left)])"

definition compile_pages_for ::
  "'v config \<Rightarrow> str list \<Rightarrow> nat \<Rightarrow> str \<Rightarrow> config_error + display_view list" where
  "compile_pages_for cfg view_ids guest_count output_name =
     (if view_ids = [] then Inl (ViewsEmpty output_name)
      else and_then (collect (\<lambda>i. and_then (ok_or (UnknownView i) (cf_views cfg i)) (view_pages cfg guest_count)) view_ids)
        (\<lambda>pages. Inr (concat pages)))"

definition compile_pages :: "'v config \<Rightarrow> nat \<Rightarrow> config_error + display_view list" where
  "compile_pages cfg guest_count = compile_pages_for cfg (ou_lcd_views (cf_outputs cfg)) guest_count ''LCD''"

section \<open>The manifests\<close>

definition as_millis :: "time \<Rightarrow> nat" where
  "as_millis t = t div 1000000"

definition whole_secs :: "time \<Rightarrow> nat" where
  "whole_secs t = t div 1000000000"

definition display_config :: "str \<Rightarrow> 'v config \<Rightarrow> nat \<Rightarrow> config_error + display_config" where
  "display_config version cfg guest_count =
     (let labels = map (\<lambda>f. DisplayLabel (fc_label f)) (src_filesystems (cf_sources cfg)) in
      and_then (ok_or (Bail ''shutdown hold_time exceeds device limit'') (try_word (as_millis (sh_hold_time (cf_shutdown cfg))))) (\<lambda>hold.
      and_then (ok_or (Bail ''shutdown animation_delay exceeds device limit'') (try_word (as_millis (sh_animation_delay (cf_shutdown cfg))))) (\<lambda>delay.
      and_then (compile_pages cfg guest_count) (\<lambda>pages.
        case display_config_new hold delay labels pages of
          Inl e \<Rightarrow> Inl (Bail ''invalid display configuration'')
        | Inr display \<Rightarrow> Inr (display\<lparr>dc_daemon_version := SoftwareVersion version\<rparr>)))))"

definition ntfy_config_of :: "ntfy_output option \<Rightarrow> ntfy_config" where
  "ntfy_config_of output = (case output of
     Some ntfy \<Rightarrow> ntfy_config_new (no_enabled ntfy) (no_server ntfy)
       \<lparr>sev_warning = SevWarning \<in> set (no_severities ntfy), sev_critical = SevCritical \<in> set (no_severities ntfy)\<rparr>
       (no_notify_recovery ntfy) (notification_priority_of (no_warning_priority ntfy))
       (notification_priority_of (no_critical_priority ntfy)) (notification_priority_of (no_recovery_priority ntfy))
       (map_option (\<lambda>d. clamp_word (whole_secs d)) (no_repeat_critical ntfy)) (no_click_url ntfy)
   | None \<Rightarrow> ntfy_config_new False ''https://ntfy.sh'' \<lparr>sev_warning = False, sev_critical = False\<rparr> False
       PrioHigh PrioUrgent PrioDefault None None)"

definition network_config :: "'v config \<Rightarrow> nat \<Rightarrow> config_error + network_config" where
  "network_config cfg guest_count =
     and_then (case ou_http (cf_outputs cfg) of
         Some http \<Rightarrow> and_then (compile_pages_for cfg (ho_views http) guest_count ''HTTP'')
           (\<lambda>pages. Inr (http_config_new (ho_enabled http) (ho_hostname http) (ho_port http) pages))
       | None \<Rightarrow> Inr (http_config_new False ''servatory'' 80 []))
       (\<lambda>http. Inr \<lparr>net_http = http, net_ntfy = ntfy_config_of (ou_ntfy (cf_outputs cfg))\<rparr>)"

section \<open>Which pages come out\<close>

text \<open>The guests a page shows, of a list of guests.\<close>

definition page_guests :: "'g list \<Rightarrow> display_view \<Rightarrow> 'g list" where
  "page_guests guests view = (case dv_page view of
     Guests offset limit \<Rightarrow> take (unat limit) (drop (unat offset) guests) | _ \<Rightarrow> [])"

definition page_filesystems :: "display_view \<Rightarrow> u32 list" where
  "page_filesystems view = (case dv_page view of Storage l fss smart \<Rightarrow> fss | _ \<Rightarrow> [])"

definition page_smart :: "display_view \<Rightarrow> u32 list" where
  "page_smart view = (case dv_page view of Storage l fss smart \<Rightarrow> smart | _ \<Rightarrow> [])"

lemma collect_map: "(\<And>x. x \<in> set xs \<Longrightarrow> f x = Inr (g x)) \<Longrightarrow> collect f xs = Inr (map g xs)"
  by (induction xs) auto

lemma guest_pages_small:
  assumes "guest_count < 2 ^ 32"
  shows "guest_pages title guest_count
    = Inr (map (\<lambda>i. display_view_new title (Guests (of_nat (i * 4)) 4)) [0..<div_ceil (max guest_count 1) 4])"
  unfolding guest_pages_def
proof (rule collect_map)
  fix i
  assume "i \<in> set [0..<div_ceil (max guest_count 1) 4]"
  then have "i * 4 < max guest_count 1" by (intro div_ceil_tight) auto
  then have "i * 4 < 2 ^ LENGTH(32)" using assms by auto
  then show "and_then (ok_or (Bail ''out of range integral type conversion attempted'') (try_word (i * 4))) (\<lambda>offset. Inr (display_view_new title (Guests offset 4)))
      = Inr (display_view_new title (Guests (of_nat (i * 4)) 4))"
    by (simp add: try_word_def)
qed

lemma storage_pages_nonempty: "storage_pages title l fss smart \<noteq> []"
  by (simp add: storage_pages_def Let_def)

lemma storage_pages_sets:
  assumes "p \<in> set (storage_pages title l fss smart)"
  shows "set (page_filesystems p) \<subseteq> set fss \<and> set (page_smart p) \<subseteq> set smart"
proof -
  obtain i where "p = display_view_new title (Storage l (take 3 (drop (i * 3) fss)) (take 5 (drop (i * 5) smart)))"
    using assms by (auto simp: storage_pages_def Let_def)
  then show ?thesis
    by (simp add: page_filesystems_def page_smart_def display_view_new_def)
      (meson in_set_dropD in_set_takeD subsetI)
qed

lemma view_pages_nonempty: "view_pages cfg n v = Inr ps \<Longrightarrow> ps \<noteq> []"
  by (auto simp: view_pages_def Let_def guest_pages_def storage_pages_nonempty collect_Inr div_ceil_def
      split: view_layout.splits if_splits)

lemma compile_pages_for_nonempty: "compile_pages_for cfg ids n out = Inr ps \<Longrightarrow> ps \<noteq> []"
  by (cases ids) (auto simp: compile_pages_for_def dest: view_pages_nonempty)

section \<open>Properties\<close>

text \<open>Paginating guests loses none and shows none twice: the pages, put one after the other, are
  the guest list, four to a page, and there is one page even without guests.\<close>

lemma guest_pages_partition:
  assumes "length guests < 2 ^ 32"
  shows "\<exists>pages. guest_pages title (length guests) = Inr pages \<and> pages \<noteq> []
    \<and> concat (map (page_guests guests) pages) = guests
    \<and> length pages = max 1 (div_ceil (length guests) 4)"
proof -
  let ?n = "div_ceil (max (length guests) 1) 4"
  let ?page = "\<lambda>i. display_view_new title (Guests (of_nat (i * 4)) 4)"
  have "page_guests guests (?page i) = take 4 (drop (i * 4) guests)" if "i < ?n" for i
  proof -
    have "i * 4 < max (length guests) 1" using that by (intro div_ceil_tight) auto
    then have "unat (of_nat (i * 4) :: u32) = i * 4" using assms by (intro unat_of_nat_small) auto
    then show ?thesis by (simp add: page_guests_def display_view_new_def)
  qed
  then have "map (page_guests guests) (map ?page [0..<?n]) = map (\<lambda>i. take 4 (drop (i * 4) guests)) [0..<?n]"
    by simp
  moreover have "length guests \<le> ?n * 4" using div_ceil_covers [of 4 "max (length guests) 1"] by simp
  ultimately have "concat (map (page_guests guests) (map ?page [0..<?n])) = guests"
    by (simp only: concat_chunks)
  moreover have "0 < ?n" "?n = max 1 (div_ceil (length guests) 4)" by (auto simp: div_ceil_def max_def)
  ultimately show ?thesis using guest_pages_small [OF assms] by simp
qed

lemma guest_pages_partition_example:
  "\<exists>pages. guest_pages (DisplayLabel ''GUESTS'') (length [1 :: nat, 2, 3, 4, 5, 6, 7, 8, 9]) = Inr pages \<and> pages \<noteq> []
    \<and> concat (map (page_guests [1 :: nat, 2, 3, 4, 5, 6, 7, 8, 9]) pages) = [1, 2, 3, 4, 5, 6, 7, 8, 9]
    \<and> length pages = max 1 (div_ceil (length [1 :: nat, 2, 3, 4, 5, 6, 7, 8, 9]) 4)"
  by (rule guest_pages_partition) simp

text \<open>A storage view shows every configured filesystem and every configured SMART device exactly
  once and in order over its pages, at most three and five to a page, on at least one page.\<close>

lemma storage_pages_partition:
  "concat (map page_filesystems (storage_pages title l fss smart)) = fss
    \<and> concat (map page_smart (storage_pages title l fss smart)) = smart
    \<and> (\<exists>p ps. storage_pages title l fss smart = p # ps)
    \<and> list_all (\<lambda>p. length (page_filesystems p) \<le> 3 \<and> length (page_smart p) \<le> 5) (storage_pages title l fss smart)"
proof -
  let ?n = "max (max (div_ceil (length fss) 3) (div_ceil (length smart) 5)) 1"
  have f: "map page_filesystems (storage_pages title l fss smart) = map (\<lambda>i. take 3 (drop (i * 3) fss)) [0..<?n]"
    by (simp add: storage_pages_def page_filesystems_def display_view_new_def Let_def comp_def)
  have s: "map page_smart (storage_pages title l fss smart) = map (\<lambda>i. take 5 (drop (i * 5) smart)) [0..<?n]"
    by (simp add: storage_pages_def page_smart_def display_view_new_def Let_def comp_def)
  have "length fss \<le> ?n * 3" using div_ceil_covers [of 3 "length fss"] by (simp add: le_max_iff_disj max_mult_distrib_right)
  moreover have "length smart \<le> ?n * 5"
    using div_ceil_covers [of 5 "length smart"] by (simp add: le_max_iff_disj max_mult_distrib_right)
  moreover have "list_all (\<lambda>p. length (page_filesystems p) \<le> 3 \<and> length (page_smart p) \<le> 5) (storage_pages title l fss smart)"
    by (simp add: storage_pages_def page_filesystems_def page_smart_def display_view_new_def Let_def list_all_iff)
  moreover have "\<exists>p ps. storage_pages title l fss smart = p # ps"
    using storage_pages_nonempty [of title l fss smart] by (cases "storage_pages title l fss smart") auto
  ultimately show ?thesis by (simp only: f s concat_chunks simp_thms)
qed

end
