(* ===== verification/Validate.thy ===== *)
theory Validate
  imports Views Framing
begin

text \<open>
  \<open>Config::validate\<close> and what a configuration that passes it guarantees: unique ids usable as
  rule ids, conditions with one comparison each, and manifests that compile for every number of
  guests. \<open>ser\<close> is the serializer of the framing (see \<open>Framing\<close>).
\<close>

section \<open>Parts of the validation\<close>

definition valid_id :: "str \<Rightarrow> bool" where
  "valid_id i = (\<not> (i = [] \<or> length i > max_rule_id_len
     \<or> \<not> list_all (\<lambda>c. is_alnum c \<or> c = CHR ''_'' \<or> c = CHR ''-'') i))"

fun validate_ids_from :: "str set \<Rightarrow> str list \<Rightarrow> str \<Rightarrow> config_error + unit" where
  "validate_ids_from seen [] kind = Inr ()"
| "validate_ids_from seen (i # ids) kind =
     (if \<not> valid_id i then Inl (InvalidId kind i)
      else if i \<in> seen then Inl (DuplicateId kind i)
      else validate_ids_from (insert i seen) ids kind)"

definition validate_ids :: "str list \<Rightarrow> str \<Rightarrow> config_error + unit" where
  "validate_ids ids kind = validate_ids_from {} ids kind"

definition validate_message :: "str \<Rightarrow> str \<Rightarrow> config_error + unit" where
  "validate_message message field = ensure (message \<noteq> []) (EmptyMessage field)"

definition comparisons :: "'v predicate \<Rightarrow> nat" where
  "comparisons p = of_bool (pr_equals p \<noteq> None) + of_bool (pr_in p \<noteq> None) + of_bool (pr_at_least p \<noteq> None)
     + of_bool (pr_greater_than p \<noteq> None) + of_bool (pr_missing_or_greater_than p \<noteq> None)"

definition validate_predicate :: "filesystem_config list \<Rightarrow> 'v predicate \<Rightarrow> config_error + unit" where
  "validate_predicate fss p = (if comparisons p \<noteq> 1 then Inl (Bail ''predicate must specify exactly one comparison'')
     else case pr_measurement p of
       SelFilesystem i _ \<Rightarrow> ensure (list_ex (\<lambda>f. fc_id f = i) fss) (UnknownFilesystemMeasurement i)
     | _ \<Rightarrow> Inr ())"

fun validate_condition :: "filesystem_config list \<Rightarrow> 'v condition \<Rightarrow> config_error + unit" where
  "validate_condition fss (All cs) =
     (if cs = [] then Inl (EmptyCondition ''all'') else each (validate_condition fss) cs)"
| "validate_condition fss (Any cs) =
     (if cs = [] then Inl (EmptyCondition ''any'') else each (validate_condition fss) cs)"
| "validate_condition fss (Predicate p) = validate_predicate fss p"

definition with_context :: "('e \<Rightarrow> 'e) \<Rightarrow> 'e + 'a \<Rightarrow> 'e + 'a" where
  "with_context f r = (case r of Inl e \<Rightarrow> Inl (f e) | Inr a \<Rightarrow> Inr a)"

lemma with_context_Inr [simp]: "with_context f r = Inr a \<longleftrightarrow> r = Inr a"
  by (simp add: with_context_def split: sum.splits)

definition validate_rule :: "filesystem_config list \<Rightarrow> 'v health_rule \<Rightarrow> config_error + unit" where
  "validate_rule fss rule =
     and_then (with_context (InRule (rl_id rule)) (validate_condition fss (rl_when rule))) (\<lambda>_.
       validate_message (rl_message rule) (''health rule '' @ rl_id rule @ '' message''))"

definition validate_http :: "(str \<rightharpoonup> view_config) \<Rightarrow> http_output \<Rightarrow> config_error + unit" where
  "validate_http views http =
     and_then (ensure (\<not> (ho_enabled http \<and> ho_views http = [])) (Bail ''outputs.http.views must not be empty when HTTP output is enabled'')) (\<lambda>_.
     and_then (each (\<lambda>i. ensure (views i \<noteq> None) (UnknownHttpView i)) (ho_views http)) (\<lambda>_.
       ensure (\<not> (ho_hostname http = [] \<or> \<not> list_all (\<lambda>c. is_alnum c \<or> c = CHR ''-'') (ho_hostname http)
         \<or> ho_port http = 0)) (Bail ''outputs.http hostname and port are invalid'')))"

definition validate_ntfy :: "ntfy_output \<Rightarrow> config_error + unit" where
  "validate_ntfy ntfy =
     (if no_enabled ntfy \<and> \<not> starts_with ''https://'' (no_server ntfy) \<and> \<not> starts_with ''http://'' (no_server ntfy)
      then Inl (Bail ''outputs.ntfy.server must be an HTTP or HTTPS URL'')
      else if no_enabled ntfy \<and> no_severities ntfy = [] then Inl (Bail ''outputs.ntfy.severities must not be empty when ntfy is enabled'')
      else if SevHealthy \<in> set (no_severities ntfy) then Inl (Bail ''outputs.ntfy.severities cannot contain healthy'')
      else if no_enabled ntfy \<and> is_some_and (\<lambda>d. d = 0) (no_repeat_critical ntfy) then Inl (Bail ''outputs.ntfy.repeat-critical must be greater than zero'')
      else Inr ())"

definition validate_outputs :: "'v config \<Rightarrow> config_error + unit" where
  "validate_outputs cfg =
     and_then (case ou_http (cf_outputs cfg) of Some http \<Rightarrow> validate_http (cf_views cfg) http | None \<Rightarrow> Inr ()) (\<lambda>_.
       case ou_ntfy (cf_outputs cfg) of Some ntfy \<Rightarrow> validate_ntfy ntfy | None \<Rightarrow> Inr ())"

definition fits_frame ::
  "(host_message \<Rightarrow> nat \<Rightarrow> u8 list option) \<Rightarrow> host_message \<Rightarrow> config_error \<Rightarrow> config_error + unit" where
  "fits_frame ser m e = (case encode ser m max_host_frame_len of Inl _ \<Rightarrow> Inl e | Inr _ \<Rightarrow> Inr ())"

definition validate_manifest_sizes ::
  "(host_message \<Rightarrow> nat \<Rightarrow> u8 list option) \<Rightarrow> str \<Rightarrow> 'v config \<Rightarrow> config_error + unit" where
  "validate_manifest_sizes ser version cfg =
     and_then (display_config version cfg 0) (\<lambda>display.
     and_then (fits_frame ser (DisplayConfigMsg display) (Bail ''configured display manifest does not fit the 4096-byte device frame budget'')) (\<lambda>_.
     and_then (network_config cfg 0) (\<lambda>network.
       fits_frame ser (NetworkConfigMsg network) (Bail ''configured network manifest does not fit the 4096-byte device frame budget''))))"

definition validate_filesystem :: "filesystem_config \<Rightarrow> config_error + unit" where
  "validate_filesystem f =
     and_then (ensure (fc_label f \<noteq> []) (EmptyLabel ''filesystem'' (fc_id f))) (\<lambda>_.
       ensure (starts_with ''/'' (fc_path f)) (FilesystemPathNotAbsolute (fc_id f)))"

definition validate_smart_device :: "smart_device_config \<Rightarrow> config_error + unit" where
  "validate_smart_device d =
     and_then (ensure (sdc_label d \<noteq> []) (EmptyLabel ''SMART device'' (sdc_id d))) (\<lambda>_.
       ensure (starts_with ''/dev/'' (sdc_path d)) (SmartPathNotDevice (sdc_id d)))"

definition validate_timing :: "'v config \<Rightarrow> config_error + unit" where
  "validate_timing cfg =
     and_then (ensure (cf_version cfg = 2) (UnsupportedConfigVersion (cf_version cfg))) (\<lambda>_.
     and_then (ensure (cfg_update_interval (cf_host cfg) \<noteq> 0) (Bail ''host.update_interval must be positive'')) (\<lambda>_.
     and_then (ensure (usb_reconnect_interval (cf_usb cfg) \<noteq> 0)
       (Bail ''connection.usb_serial.reconnect_interval must be positive'')) (\<lambda>_.
     and_then (ensure (sh_hold_time (cf_shutdown cfg) \<noteq> 0) (Bail ''actions.shutdown.hold_time must be positive'')) (\<lambda>_.
       ensure (sh_animation_delay (cf_shutdown cfg) < sh_hold_time (cf_shutdown cfg)) (Bail ''actions.shutdown.animation_delay must be shorter than hold_time'')))))"

definition validate_sources :: "sources_config \<Rightarrow> config_error + unit" where
  "validate_sources src =
     and_then (ensure (src_filesystems src \<noteq> []) (Bail ''at least one filesystem must be configured'')) (\<lambda>_.
     and_then (validate_ids (map fc_id (src_filesystems src)) ''filesystem'') (\<lambda>_.
     and_then (validate_ids (map sdc_id (src_smart_devices src)) ''SMART device'') (\<lambda>_.
     and_then (each validate_filesystem (src_filesystems src)) (\<lambda>_.
     and_then (each validate_smart_device (src_smart_devices src)) (\<lambda>_.
     and_then (ensure (uf_failures_before_unavailable (src_ups src) \<noteq> 0)
       (Bail ''UPS failures_before_unavailable must be positive'')) (\<lambda>_.
     and_then (ensure (src_task_history_limit src \<noteq> 0) (Bail ''Proxmox backup history limit must be positive'')) (\<lambda>_.
       ensure (\<not> (in_target (src_internet src) = [] \<or> in_interval (src_internet src) = 0
         \<or> in_timeout (src_internet src) = 0 \<or> in_failures_before_failed (src_internet src) = 0))
         (Bail ''internet probe target, durations, and failure count must be positive''))))))))"

definition validate_health :: "filesystem_config list \<Rightarrow> 'v health_config \<Rightarrow> config_error + unit" where
  "validate_health fss health =
     and_then (validate_message (hf_default_message health) ''health.default.message'') (\<lambda>_.
     and_then (validate_ids (map rl_id (hf_rules health)) ''health rule'') (\<lambda>_.
       each (validate_rule fss) (hf_rules health)))"

definition validate ::
  "(host_message \<Rightarrow> nat \<Rightarrow> u8 list option) \<Rightarrow> str \<Rightarrow> 'v config \<Rightarrow> config_error + unit" where
  "validate ser version cfg =
     and_then (validate_timing cfg) (\<lambda>_.
     and_then (validate_sources (cf_sources cfg)) (\<lambda>_.
     and_then (validate_health (src_filesystems (cf_sources cfg)) (cf_health cfg)) (\<lambda>_.
     and_then (validate_outputs cfg) (\<lambda>_.
       validate_manifest_sizes ser version cfg))))"

text \<open>\<open>Config::load\<close>: \<open>read\<close> is the file system, \<open>parse\<close> the derived deserializer.\<close>

definition load ::
  "(str \<Rightarrow> str option) \<Rightarrow> (str \<Rightarrow> 'v config option) \<Rightarrow> (host_message \<Rightarrow> nat \<Rightarrow> u8 list option) \<Rightarrow> str
   \<Rightarrow> str \<Rightarrow> config_error + 'v config" where
  "load read parse ser version path =
     and_then (ok_or (Bail ''reading configuration'') (read path)) (\<lambda>text.
     and_then (ok_or (Bail ''parsing configuration'') (parse text)) (\<lambda>cfg.
     and_then (validate ser version cfg) (\<lambda>_. Inr cfg)))"

section \<open>What the parts accept\<close>

lemma valid_id_rule_id: "valid_id i \<longleftrightarrow> valid_rule_id i"
  by (auto simp: valid_id_def valid_rule_id_def)

lemma validate_ids_from_iff:
  "validate_ids_from seen ids kind = Inr u \<longleftrightarrow> (\<forall>i \<in> set ids. valid_id i \<and> i \<notin> seen) \<and> distinct ids"
  by (induction seen ids kind rule: validate_ids_from.induct) auto

lemma validate_ids_iff: "validate_ids ids kind = Inr u \<longleftrightarrow> (\<forall>i \<in> set ids. valid_id i) \<and> distinct ids"
  by (simp add: validate_ids_def validate_ids_from_iff)

lemma validate_each:
  "validate_message m field = Inr u \<longleftrightarrow> m \<noteq> []"
  "validate_rule fss r = Inr u \<longleftrightarrow> validate_condition fss (rl_when r) = Inr () \<and> rl_message r \<noteq> []"
  by (auto simp: validate_rule_def validate_message_def)

lemma validate_iff:
  "validate ser version cfg = Inr u \<longleftrightarrow> validate_timing cfg = Inr () \<and> validate_sources (cf_sources cfg) = Inr ()
     \<and> validate_health (src_filesystems (cf_sources cfg)) (cf_health cfg) = Inr ()
     \<and> validate_outputs cfg = Inr () \<and> validate_manifest_sizes ser version cfg = Inr ()"
  by (auto simp: validate_def)

section \<open>Manifests of a validated configuration\<close>

lemma collect_ok: "(\<exists>ys. collect f xs = Inr ys) \<longleftrightarrow> (\<forall>x \<in> set xs. \<exists>y. f x = Inr y)"
  by (induction xs) auto

lemma collect_set: "collect f xs = Inr ys \<Longrightarrow> y \<in> set ys \<Longrightarrow> \<exists>x \<in> set xs. f x = Inr y"
  by (induction xs arbitrary: ys) auto

lemma view_pages_any:
  assumes "view_pages cfg k v = Inr ps" "n < 2 ^ 32"
  shows "\<exists>qs. view_pages cfg n v = Inr qs"
  using assms guest_pages_small [OF assms(2)] by (auto simp: view_pages_def Let_def split: view_layout.splits if_splits)

lemma compile_pages_for_ok:
  "(\<exists>qs. compile_pages_for cfg ids n out = Inr qs) \<longleftrightarrow>
     ids \<noteq> [] \<and> (\<forall>i \<in> set ids. \<exists>v ps. cf_views cfg i = Some v \<and> view_pages cfg n v = Inr ps)"
proof -
  let ?f = "\<lambda>i. and_then (ok_or (UnknownView i) (cf_views cfg i)) (view_pages cfg n)"
  have "(\<exists>qs. compile_pages_for cfg ids n out = Inr qs) \<longleftrightarrow> ids \<noteq> [] \<and> (\<exists>qs. collect ?f ids = Inr qs)"
    by (simp add: compile_pages_for_def)
  also have "\<dots> \<longleftrightarrow> ids \<noteq> [] \<and> (\<forall>i \<in> set ids. \<exists>ps. ?f i = Inr ps)" by (simp only: collect_ok)
  finally show ?thesis by simp blast
qed

lemma compile_pages_for_any:
  assumes "compile_pages_for cfg ids k out = Inr ps" "n < 2 ^ 32"
  shows "\<exists>qs. compile_pages_for cfg ids n out = Inr qs"
proof -
  have "\<exists>qs. compile_pages_for cfg ids k out = Inr qs" using assms(1) by blast
  then show ?thesis unfolding compile_pages_for_ok using view_pages_any [OF _ assms(2)] by meson
qed

lemma resolve_indices_bound:
  assumes "resolve_indices ids kind look = Inr indices" "\<And>i n. look i = Some n \<Longrightarrow> n < m"
  shows "\<forall>i \<in> set indices. unat i < m"
  using assms by (auto simp: resolve_indices_def resolve_index_def try_word_Some dest!: collect_set)

lemma page_indices_bound:
  assumes "view_pages cfg n v = Inr ps" "p \<in> set ps"
  shows "(\<forall>i \<in> set (page_filesystems p). unat i < length (src_filesystems (cf_sources cfg)))
    \<and> (\<forall>i \<in> set (page_smart p). unat i < length (src_smart_devices (cf_sources cfg)))"
proof (cases "vw_layout v")
  case (LStorage fs_ids smart_ids left)
  then obtain fss smart where r: "resolve_indices fs_ids ''filesystem'' (filesystem_index cfg) = Inr fss"
      "resolve_indices smart_ids ''SMART device'' (smart_index cfg) = Inr smart"
      "p \<in> set (storage_pages (DisplayLabel (vw_title v)) left fss smart)"
    using assms by (auto simp: view_pages_def Let_def)
  have "set (page_filesystems p) \<subseteq> set fss" "set (page_smart p) \<subseteq> set smart"
    using r(3) storage_pages_sets by blast+
  then show ?thesis
    using resolve_indices_bound [OF r(1), of "length (src_filesystems (cf_sources cfg))"]
      resolve_indices_bound [OF r(2), of "length (src_smart_devices (cf_sources cfg))"]
    by (auto simp: filesystem_index_def smart_index_def dest: position_Some)
next
  case (LGuests paginate offset limit)
  then show ?thesis
    using assms by (auto simp: view_pages_def Let_def guest_pages_def page_filesystems_def page_smart_def
        display_view_new_def dest!: collect_set split: if_splits)
qed (use assms in \<open>auto simp: view_pages_def Let_def page_filesystems_def page_smart_def display_view_new_def\<close>)

lemma compile_pages_for_bound:
  assumes "compile_pages_for cfg ids n out = Inr ps" "p \<in> set ps"
  shows "(\<forall>i \<in> set (page_filesystems p). unat i < length (src_filesystems (cf_sources cfg)))
    \<and> (\<forall>i \<in> set (page_smart p). unat i < length (src_smart_devices (cf_sources cfg)))"
proof -
  obtain pss where "collect (\<lambda>i. and_then (ok_or (UnknownView i) (cf_views cfg i)) (view_pages cfg n)) ids = Inr pss"
      "ps = concat pss"
    using assms(1) by (auto simp: compile_pages_for_def split: if_splits)
  with assms(2) obtain qs v where "view_pages cfg n v = Inr qs" "p \<in> set qs"
    by (auto dest!: collect_set)
  then show ?thesis by (rule page_indices_bound)
qed

lemma display_config_Inr:
  "display_config version cfg n = Inr d \<longleftrightarrow> (\<exists>hold delay pages.
     try_word (as_millis (sh_hold_time (cf_shutdown cfg))) = Some hold
     \<and> try_word (as_millis (sh_animation_delay (cf_shutdown cfg))) = Some delay
     \<and> compile_pages cfg n = Inr pages \<and> 0 < hold \<and> delay < hold \<and> pages \<noteq> []
     \<and> d = \<lparr>dc_hold_ms = hold, dc_delay_ms = delay, dc_daemon_version = SoftwareVersion version,
        dc_labels = map (\<lambda>f. DisplayLabel (fc_label f)) (src_filesystems (cf_sources cfg)), dc_pages = pages\<rparr>)"
  by (auto simp: display_config_def Let_def display_config_new_def word_gt_0 not_le split: if_splits)

lemma display_config_any:
  assumes "display_config version cfg k = Inr d" "n < 2 ^ 32"
  shows "\<exists>d'. display_config version' cfg n = Inr d'"
proof -
  from assms(1) obtain pages0 where "compile_pages cfg k = Inr pages0" by (auto simp: display_config_Inr)
  then obtain pages where p: "compile_pages cfg n = Inr pages"
    using compile_pages_for_any [OF _ assms(2)] unfolding compile_pages_def by blast
  then have "pages \<noteq> []" unfolding compile_pages_def by (rule compile_pages_for_nonempty)
  with assms(1) p show ?thesis by (auto simp: display_config_Inr)
qed

lemma network_config_any:
  assumes "network_config cfg k = Inr w" "n < 2 ^ 32"
  shows "\<exists>w'. network_config cfg n = Inr w'"
  using assms compile_pages_for_any [OF _ assms(2), of cfg _ k]
  by (auto simp: network_config_def split: option.splits)

section \<open>Properties\<close>

text \<open>(C14) A configuration that passed validation compiles for every number of guests below
  \<open>2 ^ 32\<close>: both manifests are built, the display has a page, its shutdown animation starts
  before the hold time ends, and every storage page refers to configured filesystems and SMART
  devices only.\<close>

theorem validated_config_compiles:
  assumes "validate ser version cfg = Inr ()" "n < 2 ^ 32"
  shows "\<exists>d w. display_config version cfg n = Inr d \<and> network_config cfg n = Inr w
    \<and> dc_pages d \<noteq> [] \<and> dc_delay_ms d < dc_hold_ms d
    \<and> (\<forall>p \<in> set (dc_pages d).
         (\<forall>i \<in> set (page_filesystems p). unat i < length (src_filesystems (cf_sources cfg)))
         \<and> (\<forall>i \<in> set (page_smart p). unat i < length (src_smart_devices (cf_sources cfg))))"
proof -
  from assms(1) have "validate_manifest_sizes ser version cfg = Inr ()" by (simp add: validate_iff)
  then obtain d0 w0 where d0: "display_config version cfg 0 = Inr d0" and w0: "network_config cfg 0 = Inr w0"
    by (auto simp: validate_manifest_sizes_def)
  from d0 obtain pages0 where "compile_pages cfg 0 = Inr pages0" by (auto simp: display_config_Inr)
  then obtain pages where p: "compile_pages cfg n = Inr pages"
    using compile_pages_for_any [OF _ assms(2)] unfolding compile_pages_def by blast
  then have "pages \<noteq> []" unfolding compile_pages_def by (rule compile_pages_for_nonempty)
  with d0 p obtain d where d: "display_config version cfg n = Inr d" "dc_pages d = pages" "dc_delay_ms d < dc_hold_ms d"
    by (auto simp: display_config_Inr)
  obtain w where "network_config cfg n = Inr w" using network_config_any [OF w0 assms(2)] by blast
  then show ?thesis
    using d \<open>pages \<noteq> []\<close> compile_pages_for_bound [OF p [unfolded compile_pages_def]] by blast
qed

text \<open>A small configuration: one filesystem, one rule, an overview page and a guest view.\<close>

definition sample_config :: "unit config" where
  "sample_config = \<lparr>cf_version = 2, cf_host = \<lparr>cfg_update_interval = 1000000000\<rparr>,
     cf_usb = \<lparr>usb_device = ''/dev/ttyACM0'', usb_reconnect_interval = 1000000000\<rparr>,
     cf_shutdown = \<lparr>sh_enabled = True, sh_hold_time = 3000000000, sh_animation_delay = 200000000\<rparr>,
     cf_sources = \<lparr>src_filesystems = [\<lparr>fc_id = ''root'', fc_path = ''/'', fc_label = ''ROOT''\<rparr>],
       src_smart_devices = [], src_ups = \<lparr>uf_endpoint = None, uf_failures_before_unavailable = 2\<rparr>,
       src_internet = \<lparr>in_target = ''1.1.1.1'', in_interval = 30000000000, in_timeout = 4000000000,
         in_settle_delay = 3000000000, in_retry_delay = 5000000000, in_failures_before_failed = 2\<rparr>,
       src_task_history_limit = 50\<rparr>,
     cf_health = \<lparr>hf_default_severity = SevHealthy, hf_default_message = ''HEALTHY'',
       hf_rules = [\<lparr>rl_id = ''root_full'', rl_severity = SevCritical,
         rl_when = All [Predicate \<lparr>pr_measurement = SelFilesystem ''root'' UsedPercentField, pr_equals = None,
           pr_in = None, pr_at_least = Some (Fin 90), pr_greater_than = None, pr_missing_or_greater_than = None\<rparr>],
         rl_message = ''{filesystem.root.label} FULL {value}%''\<rparr>]\<rparr>,
     cf_views = [''overview'' \<mapsto> \<lparr>vw_title = ''OVERVIEW'', vw_layout = LOverview\<rparr>,
       ''guests'' \<mapsto> \<lparr>vw_title = ''GUESTS'', vw_layout = LGuests True 0 4\<rparr>],
     cf_outputs = \<lparr>ou_lcd_views = [''overview'', ''guests''], ou_http = None, ou_ntfy = None\<rparr>\<rparr>"

lemma sample_config_valid: "validate (\<lambda>m n. Some [0]) ''1.0'' sample_config = Inr ()"
proof -
  have "validate_timing sample_config = Inr ()"
    by (simp add: validate_timing_def sample_config_def)
  moreover have "validate_sources (cf_sources sample_config) = Inr ()"
    by (simp add: validate_sources_def sample_config_def validate_ids_def valid_id_def max_rule_id_len_def
        is_alnum_def validate_filesystem_def starts_with_def)
  moreover have "validate_health (src_filesystems (cf_sources sample_config)) (cf_health sample_config) = Inr ()"
    by (simp add: validate_health_def sample_config_def validate_ids_def valid_id_def max_rule_id_len_def
        is_alnum_def validate_each validate_predicate_def comparisons_def)
  moreover have "validate_outputs sample_config = Inr ()"
    by (simp add: validate_outputs_def sample_config_def)
  moreover have "validate_manifest_sizes (\<lambda>m n. Some [0]) ''1.0'' sample_config = Inr ()"
    by (simp add: validate_manifest_sizes_def sample_config_def display_config_def as_millis_def try_word_def
        compile_pages_def compile_pages_for_def view_pages_def guest_pages_def div_ceil_def upt_rec
        display_config_new_def fits_frame_def encode_def max_host_frame_len_def network_config_def)
  ultimately show ?thesis by (simp add: validate_iff)
qed

theorem validated_config_compiles_witness:
  "\<exists>d w. display_config ''1.0'' sample_config 9 = Inr d \<and> network_config sample_config 9 = Inr w
    \<and> dc_pages d \<noteq> [] \<and> dc_delay_ms d < dc_hold_ms d
    \<and> (\<forall>p \<in> set (dc_pages d).
         (\<forall>i \<in> set (page_filesystems p). unat i < length (src_filesystems (cf_sources sample_config)))
         \<and> (\<forall>i \<in> set (page_smart p). unat i < length (src_smart_devices (cf_sources sample_config))))"
  by (rule validated_config_compiles [OF sample_config_valid]) simp

text \<open>(C40) Whatever else it says, a configuration whose HTTP output is disabled and lists no views
  is accepted by the check of the outputs and yet never passes validation, because the network
  manifest compiles the views of a disabled output too.\<close>

theorem disabled_http_needs_views:
  assumes "ou_http (cf_outputs cfg) = Some http" "\<not> ho_enabled http" "ho_views http = []"
  shows "(\<forall>views. validate_http views http = Inr () \<longleftrightarrow> ho_hostname http \<noteq> []
      \<and> list_all (\<lambda>c. is_alnum c \<or> c = CHR ''-'') (ho_hostname http) \<and> ho_port http \<noteq> 0)
    \<and> network_config cfg n = Inl (ViewsEmpty ''HTTP'') \<and> validate ser version cfg \<noteq> Inr ()"
proof -
  have n: "network_config cfg k = Inl (ViewsEmpty ''HTTP'')" for k
    using assms by (simp add: network_config_def compile_pages_for_def)
  have "validate_manifest_sizes ser version cfg \<noteq> Inr ()"
    unfolding validate_manifest_sizes_def and_then_eq_Inr n by simp
  then show ?thesis using n assms(2,3) by (auto simp: validate_iff validate_http_def)
qed

theorem disabled_http_needs_views_witness:
  "let http = \<lparr>ho_enabled = False, ho_hostname = ''servatory'', ho_port = 80, ho_views = []\<rparr>;
       cfg = sample_config\<lparr>cf_outputs := \<lparr>ou_lcd_views = [''overview''], ou_http = Some http, ou_ntfy = None\<rparr>\<rparr> in
   (\<forall>views. validate_http views http = Inr () \<longleftrightarrow> ho_hostname http \<noteq> []
      \<and> list_all (\<lambda>c. is_alnum c \<or> c = CHR ''-'') (ho_hostname http) \<and> ho_port http \<noteq> 0)
    \<and> network_config cfg 3 = Inl (ViewsEmpty ''HTTP'') \<and> validate (\<lambda>m n. Some [0]) ''1.0'' cfg \<noteq> Inr ()"
  unfolding Let_def by (rule disabled_http_needs_views) simp_all

end
