(* ===== verification/Health_Rules.thy ===== *)
theory Health_Rules
  imports Validate
begin

text \<open>
  The health rules (\<open>host/src/config.rs\<close>): measurements read from a snapshot, conditions over
  them, the messages with their placeholders, and \<open>Config::evaluate_health\<close>, which reports the
  most severe incident. \<open>None\<close> is the panic of \<open>expect("validated health rule ID")\<close>.
\<close>

section \<open>Measurements of a snapshot\<close>

datatype metric = MBool bool | MNumber f64 | MText str | MMissing

fun ups_status_name :: "ups_status \<Rightarrow> str" where
  "ups_status_name NotConfigured = ''not_configured''"
| "ups_status_name UpsUnknown = ''unknown''"
| "ups_status_name Online = ''online''"
| "ups_status_name OnBattery = ''on_battery''"
| "ups_status_name LowBattery = ''low_battery''"
| "ups_status_name Charging = ''charging''"
| "ups_status_name Bypass = ''bypass''"
| "ups_status_name OutputOff = ''output_off''"
| "ups_status_name ReplaceBattery = ''replace_battery''"
| "ups_status_name Unavailable = ''unavailable''"

fun smart_status_name :: "smart_status \<Rightarrow> str" where
  "smart_status_name SmartHealthy = ''healthy''"
| "smart_status_name SmartWarning = ''warning''"
| "smart_status_name SmartFailed = ''failed''"
| "smart_status_name Sleeping = ''sleeping''"
| "smart_status_name SmartUnknown = ''unknown''"

fun internet_status_name :: "internet_status \<Rightarrow> str" where
  "internet_status_name Checking = ''checking''"
| "internet_status_name Reachable = ''reachable''"
| "internet_status_name Missed = ''missed''"
| "internet_status_name NetFailed = ''failed''"

fun backup_status_name :: "backup_job_status \<Rightarrow> str" where
  "backup_status_name BackupUnknown = ''unknown''"
| "backup_status_name NoJob = ''no_job''"
| "backup_status_name BackupHealthy = ''healthy''"
| "backup_status_name BackupRunning = ''running''"
| "backup_status_name BackupFailed = ''failed''"
| "backup_status_name BackupStale = ''stale''"

definition memory_percent :: "health_snapshot \<Rightarrow> u8" where
  "memory_percent s = (if hs_mem_total s = 0 then 0
     else unwrap_or 100 (try_word (unat (hs_mem_used s) * 100 div unat (hs_mem_total s))))"

definition metric :: "filesystem_config list \<Rightarrow> health_snapshot \<Rightarrow> metric_selector \<Rightarrow> metric" where
  "metric fss s sel = (case sel of
     SelUpsStatus \<Rightarrow> MText (ups_status_name (ups_status (hs_ups s)))
   | SelUpsStale \<Rightarrow> MBool (ups_stale (hs_ups s))
   | SelSmartStatus \<Rightarrow> MMissing
   | SelNetworkUp \<Rightarrow> MBool (hs_network_up s)
   | SelInternetStatus \<Rightarrow> MText (internet_status_name (hs_internet s))
   | SelBackupStatus \<Rightarrow> MText (backup_status_name (hs_backup s))
   | SelBackupAge \<Rightarrow> (case hs_backup_age s of None \<Rightarrow> MMissing | Some v \<Rightarrow> MNumber (f64_of_nat (unat v)))
   | SelCpuPercent \<Rightarrow> MNumber (f64_of_nat (unat (hs_cpu s)))
   | SelMemoryPercent \<Rightarrow> MNumber (f64_of_nat (unat (memory_percent s)))
   | SelIoPressurePercent \<Rightarrow> MNumber (f64_of_nat (unat (hs_io_pressure s)))
   | SelFilesystem i field \<Rightarrow>
       (case position (\<lambda>f. fc_id f = i) fss of None \<Rightarrow> MMissing
        | Some index \<Rightarrow> (case get_nth (hs_filesystems s) index of None \<Rightarrow> MMissing
          | Some usage \<Rightarrow> (case field of
              MountedField \<Rightarrow> MBool (fs_mounted usage)
            | UsedPercentField \<Rightarrow> MNumber (f64_of_nat (unat (fs_used_percent usage)))))))"

section \<open>Conditions\<close>

definition metric_equals :: "'v yaml_api \<Rightarrow> metric \<Rightarrow> 'v yaml \<Rightarrow> bool" where
  "metric_equals Y m expected = (case m of
     MBool v \<Rightarrow> ya_bool Y expected = Some v
   | MNumber v \<Rightarrow> is_some_and (\<lambda>x. f64_eq x v) (ya_f64 Y expected)
   | MText v \<Rightarrow> ya_str Y expected = Some v
   | MMissing \<Rightarrow> ya_null Y expected)"

text \<open>\<open>Duration::as_secs_f64\<close>: the seconds as a double plus the nanoseconds divided by \<open>10 ^ 9\<close>,
  each operation rounded.\<close>

definition as_secs_f64 :: "time \<Rightarrow> f64" where
  "as_secs_f64 t = (case (f64_of_nat (t div 1000000000), to_f64 (of_nat (t mod 1000000000) / 1000000000)) of
     (Fin s, Fin n) \<Rightarrow> to_f64 (s + n) | _ \<Rightarrow> NaN)"

definition number_satisfies :: "(f64 \<Rightarrow> bool) \<Rightarrow> metric \<Rightarrow> bool" where
  "number_satisfies P m = (case m of MNumber v \<Rightarrow> P v | _ \<Rightarrow> False)"

definition matches_predicate :: "'v yaml_api \<Rightarrow> metric \<Rightarrow> 'v predicate \<Rightarrow> bool" where
  "matches_predicate Y m p = (case pr_equals p of Some expected \<Rightarrow> metric_equals Y m expected
   | None \<Rightarrow> (case pr_in p of Some expected \<Rightarrow> list_ex (metric_equals Y m) expected
   | None \<Rightarrow> (case pr_at_least p of Some limit \<Rightarrow> number_satisfies (\<lambda>v. f64_le limit v) m
   | None \<Rightarrow> (case pr_greater_than p of Some limit \<Rightarrow> number_satisfies (\<lambda>v. f64_lt limit v) m
   | None \<Rightarrow> (case pr_missing_or_greater_than p of
       Some limit \<Rightarrow> m = MMissing \<or> number_satisfies (\<lambda>v. f64_lt (as_secs_f64 limit) v) m
     | None \<Rightarrow> False)))))"

definition matches_selector ::
  "'v yaml_api \<Rightarrow> filesystem_config list \<Rightarrow> health_snapshot \<Rightarrow> 'v predicate \<Rightarrow> bool" where
  "matches_selector Y fss s p = (case pr_measurement p of
     SelSmartStatus \<Rightarrow> list_ex (\<lambda>d. matches_predicate Y (MText (smart_status_name (sd_status d))) p) (hs_smart s)
   | sel \<Rightarrow> matches_predicate Y (metric fss s sel) p)"

fun matches_condition ::
  "'v yaml_api \<Rightarrow> filesystem_config list \<Rightarrow> health_snapshot \<Rightarrow> 'v condition \<Rightarrow> bool" where
  "matches_condition Y fss s (All cs) = list_all (matches_condition Y fss s) cs"
| "matches_condition Y fss s (Any cs) = list_ex (matches_condition Y fss s) cs"
| "matches_condition Y fss s (Predicate p) = matches_selector Y fss s p"

section \<open>Messages\<close>

fun metrics_for_value :: "filesystem_config list \<Rightarrow> health_snapshot \<Rightarrow> 'v condition \<Rightarrow> f64 option" where
  "metrics_for_value fss s (Predicate p) =
     (case metric fss s (pr_measurement p) of MNumber v \<Rightarrow> Some v | _ \<Rightarrow> None)"
| "metrics_for_value fss s (All cs) = find_map (metrics_for_value fss s) cs"
| "metrics_for_value fss s (Any cs) = find_map (metrics_for_value fss s) cs"

definition label_placeholder :: "str \<Rightarrow> str" where
  "label_placeholder i = ''{filesystem.'' @ i @ ''.label}''"

definition replace_label :: "filesystem_config list \<Rightarrow> str \<Rightarrow> str" where
  "replace_label fss template = (case find_str ''filesystem.'' template of
     None \<Rightarrow> template
   | Some start \<Rightarrow> let rest = drop (start + 11) template in
       (case find_str ''.label}'' rest of
          None \<Rightarrow> template
        | Some e \<Rightarrow> (case List.find (\<lambda>f. fc_id f = take e rest) fss of
            None \<Rightarrow> template
          | Some f \<Rightarrow> replace_str (label_placeholder (take e rest)) (fc_label f) template)))"

definition render_message :: "filesystem_config list \<Rightarrow> health_snapshot \<Rightarrow> 'v health_rule \<Rightarrow> str" where
  "render_message fss s rule = (let message = replace_label fss (rl_message rule) in
     if contains_str ''{value}'' message then
       replace_str ''{value}'' (f64_fmt0 (unwrap_or (Fin 0) (metrics_for_value fss s (rl_when rule)))) message
     else message)"

section \<open>Evaluation\<close>

definition rule_incident ::
  "filesystem_config list \<Rightarrow> health_snapshot \<Rightarrow> 'v health_rule \<Rightarrow> incident option" where
  "rule_incident fss s rule = (case rule_id_new (rl_id rule) of
     Inl e \<Rightarrow> None
   | Inr i \<Rightarrow> Some (incident_new (Rule i) (severity_level (rl_severity rule)) (render_message fss s rule)))"

fun rule_incidents ::
  "'v yaml_api \<Rightarrow> filesystem_config list \<Rightarrow> health_snapshot \<Rightarrow> 'v health_rule list \<Rightarrow> incident list option" where
  "rule_incidents Y fss s [] = Some []"
| "rule_incidents Y fss s (rule # rules) =
     (if matches_condition Y fss s (rl_when rule) then
        do { i \<leftarrow> rule_incident fss s rule; is \<leftarrow> rule_incidents Y fss s rules; Some (i # is) }
      else rule_incidents Y fss s rules)"

definition more_severe :: "incident option \<Rightarrow> incident \<Rightarrow> incident option" where
  "more_severe primary i = (if is_none_or (\<lambda>current. priority (inc_level i) > priority (inc_level current)) primary
     then Some i else primary)"

definition primary_report :: "'v health_config \<Rightarrow> incident list \<Rightarrow> health_report" where
  "primary_report health is = (case foldl more_severe None is of
     None \<Rightarrow> report_new (severity_level (hf_default_severity health)) (hf_default_message health)
   | Some i \<Rightarrow> report_new (inc_level i) (inc_message i))"

definition evaluate_health ::
  "'v yaml_api \<Rightarrow> 'v config \<Rightarrow> health_snapshot \<Rightarrow> (health_report \<times> incident list) option" where
  "evaluate_health Y cfg s = map_option (\<lambda>is. (primary_report (cf_health cfg) is, is))
     (rule_incidents Y (src_filesystems (cf_sources cfg)) s (hf_rules (cf_health cfg)))"

section \<open>Incidents and the report\<close>

lemma rule_incidents_ids:
  "rule_incidents Y fss s rules = Some is \<Longrightarrow>
     list_all2 (\<lambda>r i. inc_id i = Rule (RuleId (rl_id r)) \<and> inc_level i = severity_level (rl_severity r)
         \<and> inc_message i = render_message fss s r)
       (filter (\<lambda>r. matches_condition Y fss s (rl_when r)) rules) is"
  by (induction rules arbitrary: "is")
    (auto simp: rule_incident_def incident_new_def bind_eq_Some_conv rule_id_new_iff split: sum.splits if_splits)

lemma rule_incidents_total:
  "\<forall>r \<in> set rules. valid_rule_id (rl_id r) \<Longrightarrow> \<exists>is. rule_incidents Y fss s rules = Some is"
proof (induction rules)
  case (Cons r rules)
  have "rule_id_new (rl_id r) = Inr (RuleId (rl_id r))" using Cons.prems by (simp add: rule_id_new_iff)
  then show ?case using Cons by (auto simp: rule_incident_def)
qed simp

text \<open>An incident that no earlier one reaches and no later one exceeds.\<close>

definition first_most_severe :: "incident list \<Rightarrow> incident \<Rightarrow> bool" where
  "first_most_severe is i = (\<exists>before after. is = before @ i # after
     \<and> (\<forall>j \<in> set before. inc_level j < inc_level i) \<and> (\<forall>j \<in> set after. inc_level j \<le> inc_level i))"

lemma foldl_more_severe: "is \<noteq> [] \<Longrightarrow> \<exists>i. foldl more_severe None is = Some i \<and> first_most_severe is i"
proof (induction "is" rule: rev_induct)
  case (snoc j "is")
  show ?case
  proof (cases "is = []")
    case True
    then show ?thesis by (auto simp: more_severe_def first_most_severe_def intro: exI [of _ "[]"])
  next
    case False
    then obtain i where i: "foldl more_severe None is = Some i" "first_most_severe is i" using snoc.IH by blast
    then obtain b a where s: "is = b @ i # a" "\<forall>k \<in> set b. inc_level k < inc_level i"
        "\<forall>k \<in> set a. inc_level k \<le> inc_level i"
      by (auto simp: first_most_severe_def)
    show ?thesis
    proof (cases "inc_level i < inc_level j")
      case True
      then have "foldl more_severe None (is @ [j]) = Some j"
        using i(1) by (simp add: more_severe_def less_health_level_def)
      moreover have "first_most_severe (is @ [j]) j"
        unfolding first_most_severe_def
        using s True by (intro exI [of _ "is"] exI [of _ "[]"]) (auto dest: order.strict_trans order.strict_trans1)
      ultimately show ?thesis by blast
    next
      case False
      then have "foldl more_severe None (is @ [j]) = Some i"
        using i(1) by (simp add: more_severe_def less_health_level_def)
      moreover have "first_most_severe (is @ [j]) i"
        unfolding first_most_severe_def
        using s False by (intro exI [of _ b] exI [of _ "a @ [j]"]) (auto simp: not_less)
      ultimately show ?thesis by blast
    qed
  qed
qed simp

section \<open>Comparisons on whole numbers\<close>

lemma f64_of_nat_small: "n < 2 ^ 53 \<Longrightarrow> f64_of_nat n = Fin (of_nat n)"
  by (simp add: f64_of_nat_def to_f64_of_nat)

lemma f64_of_u32: "f64_of_nat (unat (w :: u32)) = Fin (of_nat (unat w))"
  using unsigned_less [of w, where ?'a = nat] by (intro f64_of_nat_small) simp

lemma f64_of_u8: "f64_of_nat (unat (w :: u8)) = Fin (of_nat (unat w))"
  using unsigned_less [of w, where ?'a = nat] by (intro f64_of_nat_small) simp

lemma as_secs_f64_whole: "k < 2 ^ 53 \<Longrightarrow> as_secs_f64 (k * 1000000000) = Fin (of_nat k)"
  using to_f64_of_nat [of k] by (simp add: as_secs_f64_def f64_of_nat_small to_f64_def [of 0])

lemma of_nat_less_unsigned: "of_nat k < (unsigned (w :: u32) :: rat) \<longleftrightarrow> k < unat w"
  by (metis of_nat_less_iff of_nat_unat)

section \<open>Properties\<close>



text \<open>The report is the most severe incident's, the first of them when several are equally
  severe, and the configured default without incidents.\<close>

lemma report_is_first_most_severe:
  "case evaluate_health Y cfg s of
     None \<Rightarrow> True
   | Some (report, is) \<Rightarrow>
       (is = [] \<and> report = report_new (severity_level (hf_default_severity (cf_health cfg)))
          (hf_default_message (cf_health cfg)))
       \<or> (\<exists>i. first_most_severe is i \<and> report = report_new (inc_level i) (inc_message i))"
proof (cases "evaluate_health Y cfg s")
  case (Some r)
  then obtain "is" where r: "r = (primary_report (cf_health cfg) is, is)" by (auto simp: evaluate_health_def)
  show ?thesis
  proof (cases "is = []")
    case True
    with Some r show ?thesis by (simp add: primary_report_def)
  next
    case False
    then obtain i where i: "foldl more_severe None is = Some i" "first_most_severe is i"
      using foldl_more_severe by blast
    then show ?thesis
      using Some r by (simp add: primary_report_def) blast
  qed
qed simp

text \<open>The rule on the age of the last backup, with a limit of a whole number of seconds, holds
  exactly when no successful backup is known or the last one is older than the limit: the
  comparison in floating point loses nothing.\<close>

lemma backup_age_rule_exact:
  assumes "k < 2 ^ 53"
  shows "matches_condition Y fss s (Predicate \<lparr>pr_measurement = SelBackupAge, pr_equals = None, pr_in = None,
       pr_at_least = None, pr_greater_than = None, pr_missing_or_greater_than = Some (k * 1000000000)\<rparr>)
    \<longleftrightarrow> (case hs_backup_age s of None \<Rightarrow> True | Some age \<Rightarrow> k < unat age)"
  by (simp add: matches_selector_def matches_predicate_def metric_def number_satisfies_def f64_of_u32
      as_secs_f64_whole [OF assms] of_nat_less_unsigned split: option.splits)

lemma backup_age_rule_exact_example:
  "\<forall>Y fss s. matches_condition Y fss s (Predicate \<lparr>pr_measurement = SelBackupAge, pr_equals = None, pr_in = None,
       pr_at_least = None, pr_greater_than = None, pr_missing_or_greater_than = Some (108000 * 1000000000)\<rparr>)
    \<longleftrightarrow> (case hs_backup_age s of None \<Rightarrow> True | Some age \<Rightarrow> 108000 < unat age)"
  by (intro allI, rule backup_age_rule_exact) simp

end
