(* ===== verification/Probe.thy ===== *)
theory Probe
  imports Inventory Network_Link
begin

text \<open>
  The stateful parts of the collector (\<open>host/src/health.rs\<close>): the connectivity probe, whose
  pings run on threads of their own and report back later, the UPS collector with its failure
  count, and \<open>HealthCollector::collect\<close>, which puts one snapshot together from cached and
  fresh readings.
\<close>

section \<open>Connectivity probe\<close>

record probe_state =
  ps_status :: internet_status
  ps_failures :: u8
  ps_last_success :: "time option"
  ps_next_probe :: time
  ps_in_flight :: bool
  ps_last_link_up :: "bool option"
  ps_generation :: u32
  ps_grace_retry :: bool
  ps_interval :: time
  ps_settle_delay :: time
  ps_retry_delay :: time
  ps_failures_before_failed :: u8

definition probe_new :: "time \<Rightarrow> time \<Rightarrow> time \<Rightarrow> time \<Rightarrow> u8 \<Rightarrow> probe_state" where
  "probe_new now interval settle_delay retry_delay failures_before_failed =
     \<lparr>ps_status = Checking, ps_failures = 0, ps_last_success = None, ps_next_probe = now,
      ps_in_flight = False, ps_last_link_up = None, ps_generation = 0, ps_grace_retry = False,
      ps_interval = interval, ps_settle_delay = settle_delay, ps_retry_delay = retry_delay,
      ps_failures_before_failed = failures_before_failed\<rparr>"

definition note_link :: "time \<Rightarrow> bool \<Rightarrow> probe_state \<Rightarrow> probe_state" where
  "note_link now link_up s = (if ps_last_link_up s \<noteq> Some link_up then
       s\<lparr>ps_last_link_up := Some link_up,
         ps_next_probe := (if link_up then now + ps_settle_delay s else now),
         ps_status := Checking, ps_failures := 0, ps_generation := ps_generation s + 1,
         ps_grace_retry := link_up\<rparr>
     else s)"

definition prepare_probe :: "time \<Rightarrow> bool \<Rightarrow> probe_state \<Rightarrow> probe_state \<times> u32 option" where
  "prepare_probe now link_up s0 = (let s = note_link now link_up s0 in
     if ps_in_flight s \<or> now < ps_next_probe s then (s, None)
     else (s\<lparr>ps_in_flight := True, ps_next_probe := now + ps_interval s\<rparr>, Some (ps_generation s)))"

definition record_result :: "u32 \<Rightarrow> bool \<Rightarrow> time \<Rightarrow> probe_state \<Rightarrow> probe_state" where
  "record_result generation reachable now s0 = (let s = s0\<lparr>ps_in_flight := False\<rparr> in
     if ps_generation s \<noteq> generation then s
     else if reachable then
       s\<lparr>ps_status := Reachable, ps_failures := 0, ps_last_success := Some now, ps_grace_retry := False\<rparr>
     else if ps_grace_retry s then
       s\<lparr>ps_status := Checking, ps_grace_retry := False, ps_next_probe := now + ps_retry_delay s\<rparr>
     else (let failures = sat_add (ps_failures s) 1 in
       s\<lparr>ps_failures := failures,
         ps_status := (if failures < ps_failures_before_failed s then Missed else NetFailed)\<rparr>))"

text \<open>Events of the probe as the collector and the ping threads cause them.\<close>

datatype probe_event = Prepare time bool | Result u32 bool time

fun probe_event_step :: "probe_state \<Rightarrow> probe_event \<Rightarrow> probe_state" where
  "probe_event_step s (Prepare now link_up) = fst (prepare_probe now link_up s)"
| "probe_event_step s (Result generation reachable now) = record_result generation reachable now s"

definition secs :: "nat \<Rightarrow> time" where
  "secs n = n * 1000000000"

definition as_secs :: "time \<Rightarrow> nat" where
  "as_secs t = t div 1000000000"

text \<open>
  \<open>ConnectivityProbe::snapshot\<close>. A due probe is handed to a new thread (or recorded as failed
  when the thread cannot be spawned); \<open>landed\<close> are the results other threads record before the
  state is read again, \<open>later\<close> the time of that reading.
\<close>

definition probe_snapshot ::
  "time \<Rightarrow> bool \<Rightarrow> bool \<Rightarrow> (u32 \<times> bool \<times> time) list \<Rightarrow> time \<Rightarrow> probe_state
   \<Rightarrow> probe_state \<times> u32 option \<times> internet_status \<times> u32 option" where
  "probe_snapshot now link_up spawn_ok landed later s0 =
     (let (s1, request) = prepare_probe now link_up s0;
          s2 = (case request of Some g \<Rightarrow> if spawn_ok then s1 else record_result g False now s1 | None \<Rightarrow> s1);
          s3 = fold (\<lambda>(g, reachable, t) s. record_result g reachable t s) landed s2;
          age = map_option (\<lambda>success. clamp_word (as_secs (later - success))) (ps_last_success s3)
      in (s3, if spawn_ok then request else None, ps_status s3, age))"

section \<open>UPS collector\<close>

record ups_collector =
  uc_target :: "str option"
  uc_last_good :: "ups_snapshot option"
  uc_failures :: u8
  uc_failures_before_unavailable :: u8

definition ups_collector_new :: "str option \<Rightarrow> u8 \<Rightarrow> ups_collector" where
  "ups_collector_new target n = \<lparr>uc_target = target, uc_last_good = None, uc_failures = 0,
     uc_failures_before_unavailable = n\<rparr>"

definition query_upsc :: "'v host_env \<Rightarrow> str \<Rightarrow> ups_snapshot option" where
  "query_upsc env target = find_map (\<lambda>executable. do {
     out \<leftarrow> he_run env executable [target];
     (if co_success out then parse_upsc (utf8_lossy (co_stdout out)) else None) })
     [''/usr/bin/upsc'', ''/usr/sbin/upsc'']"

definition ups_unknown_stale :: ups_snapshot where
  "ups_unknown_stale = \<lparr>ups_status = UpsUnknown, ups_battery = None, ups_load = None,
     ups_runtime = None, ups_watts = None, ups_stale = True\<rparr>"

definition ups_collect :: "'v host_env \<Rightarrow> ups_collector \<Rightarrow> ups_collector \<times> ups_snapshot" where
  "ups_collect env u = (case uc_target u of
     None \<Rightarrow> (u, ups_not_configured)
   | Some target \<Rightarrow> (case query_upsc env target of
       Some snapshot \<Rightarrow> (u\<lparr>uc_failures := 0, uc_last_good := Some snapshot\<rparr>, snapshot)
     | None \<Rightarrow>
         let u1 = u\<lparr>uc_failures := sat_add (uc_failures u) 1\<rparr>;
             stale = (unwrap_or ups_unknown_stale (uc_last_good u1))\<lparr>ups_stale := True\<rparr>
         in (u1, if uc_failures u1 \<ge> uc_failures_before_unavailable u1
                 then stale\<lparr>ups_status := Unavailable\<rparr> else stale)))"

section \<open>The collector\<close>

record collector =
  hco_previous_cpu :: "cpu_times option"
  hco_probe :: probe_state
  hco_ups :: ups_collector
  hco_smart_devices :: "smart_device_config list"
  hco_filesystems :: "str list"
  hco_history_limit :: u16
  hco_host_name :: str
  hco_network :: network_snapshot
  hco_usage :: "filesystem_usage list"
  hco_backup :: "backup_job_status \<times> u32 option"
  hco_ups_snapshot :: ups_snapshot
  hco_smart :: "smart_device list"
  hco_next_network :: time
  hco_next_filesystem :: time
  hco_next_backup :: time
  hco_next_ups :: time
  hco_next_smart :: time

definition collector_new ::
  "'v host_env \<Rightarrow> time \<Rightarrow> str option \<Rightarrow> u8 \<Rightarrow> smart_device_config list \<Rightarrow> str list \<Rightarrow> probe_state \<Rightarrow> u16 \<Rightarrow> collector" where
  "collector_new env now target failures devices fss probe limit =
     \<lparr>hco_previous_cpu = None, hco_probe = probe, hco_ups = ups_collector_new target failures,
      hco_smart_devices = devices, hco_filesystems = fss, hco_history_limit = limit,
      hco_host_name = read_host_name env, hco_network = network_default,
      hco_usage = replicate (length fss) filesystem_missing, hco_backup = (BackupUnknown, None),
      hco_ups_snapshot = ups_not_configured, hco_smart = [], hco_next_network = now,
      hco_next_filesystem = now, hco_next_backup = now, hco_next_ups = now, hco_next_smart = now\<rparr>"

text \<open>The refreshes of \<open>collect\<close>, one per cached reading, each on its own interval.\<close>

definition refresh_cpu :: "'v host_env \<Rightarrow> collector \<Rightarrow> collector \<times> u8" where
  "refresh_cpu env c = (let current = read_cpu_times env in
     (c\<lparr>hco_previous_cpu := current\<rparr>, cpu_percent (hco_previous_cpu c) current))"

definition refresh_network :: "nat \<Rightarrow> 'v host_env \<Rightarrow> time \<Rightarrow> collector \<Rightarrow> collector option" where
  "refresh_network fuel env now c = (let (due, next_due) = refresh_due now (hco_next_network c) (secs 10) in
     if due then map_option (\<lambda>n. c\<lparr>hco_next_network := next_due, hco_network := n\<rparr>) (read_network fuel env)
     else Some c)"

definition refresh_filesystems :: "'v host_env \<Rightarrow> time \<Rightarrow> collector \<Rightarrow> collector" where
  "refresh_filesystems env now c = (let (due, next_due) = refresh_due now (hco_next_filesystem c) (secs 30) in
     if due then c\<lparr>hco_next_filesystem := next_due,
       hco_usage := map (read_filesystem_usage env) (hco_filesystems c)\<rparr> else c)"

definition refresh_backup :: "'v host_env \<Rightarrow> time \<Rightarrow> collector \<Rightarrow> collector" where
  "refresh_backup env now c = (let (due, next_due) = refresh_due now (hco_next_backup c) (secs 60) in
     if due then c\<lparr>hco_next_backup := next_due,
       hco_backup := read_backup_job_status env (hco_host_name c) (he_unix_secs env) (hco_history_limit c)\<rparr> else c)"

definition refresh_ups :: "'v host_env \<Rightarrow> time \<Rightarrow> collector \<Rightarrow> collector" where
  "refresh_ups env now c = (let (due, next_due) = refresh_due now (hco_next_ups c) (secs 10) in
     if due then (let (u, snap) = ups_collect env (hco_ups c) in
       c\<lparr>hco_next_ups := next_due, hco_ups := u, hco_ups_snapshot := snap\<rparr>) else c)"

definition refresh_smart :: "'v host_env \<Rightarrow> time \<Rightarrow> collector \<Rightarrow> collector" where
  "refresh_smart env now c = (let (due, next_due) = refresh_due now (hco_next_smart c) (secs 60) in
     if due then c\<lparr>hco_next_smart := next_due, hco_smart := read_smart env (hco_smart_devices c)\<rparr> else c)"

text \<open>
  One call at time \<open>now\<close>; \<open>probe\<close> is what the connectivity probe does for a link state. The part
  after the network refresh comes first.
\<close>

definition assemble_snapshot ::
  "'v host_env \<Rightarrow> time \<Rightarrow> (bool \<Rightarrow> probe_state \<Rightarrow> probe_state \<times> u32 option \<times> internet_status \<times> u32 option)
   \<Rightarrow> u8 \<Rightarrow> u32 \<times> u32 \<Rightarrow> collector \<Rightarrow> collector \<times> health_snapshot" where
  "assemble_snapshot env now probe cpu mem c2 =
     (let (ps, _, internet, internet_age) = probe (ns_up (hco_network c2)) (hco_probe c2);
          c3 = c2\<lparr>hco_probe := ps\<rparr>;
          c = refresh_smart env now (refresh_ups env now (refresh_backup env now (refresh_filesystems env now c3)))
      in (c, snapshot_new (hco_host_name c) (read_uptime env) cpu (fst mem) (snd mem) (read_io_pressure env)
            (read_load_average env) (hco_usage c) (fst (hco_backup c)) (snd (hco_backup c))
            (ns_up (hco_network c)) (ns_mbps (hco_network c)) (ns_interface (hco_network c))
            internet internet_age (ns_ipv4 (hco_network c)) (read_guests env (hco_host_name c))
            (hco_ups_snapshot c) (hco_smart c)))"

definition collect_snapshot ::
  "nat \<Rightarrow> 'v host_env \<Rightarrow> time \<Rightarrow> (bool \<Rightarrow> probe_state \<Rightarrow> probe_state \<times> u32 option \<times> internet_status \<times> u32 option)
   \<Rightarrow> collector \<Rightarrow> (collector \<times> health_snapshot) option" where
  "collect_snapshot fuel env now probe c0 = (let (c1, cpu) = refresh_cpu env c0; mem = read_memory env in
     map_option (assemble_snapshot env now probe cpu mem) (refresh_network fuel env now c1))"

section \<open>The reported state agrees with the failure count\<close>

definition probe_inv :: "probe_state \<Rightarrow> bool" where
  "probe_inv s = ((ps_status s \<in> {Checking, Reachable} \<longrightarrow> ps_failures s = 0)
     \<and> (ps_status s = Missed \<longrightarrow> 0 < ps_failures s \<and> ps_failures s < ps_failures_before_failed s)
     \<and> (ps_status s = NetFailed \<longrightarrow> 0 < ps_failures s \<and> ps_failures_before_failed s \<le> ps_failures s)
     \<and> (ps_status s = Reachable \<longrightarrow> ps_last_success s \<noteq> None)
     \<and> (ps_grace_retry s \<longrightarrow> ps_status s = Checking \<and> ps_last_link_up s = Some True))"

lemma probe_new_inv [inv_step]: "probe_inv (probe_new now i sd rd n)"
  by (simp add: probe_inv_def probe_new_def)

lemma note_link_inv [inv_step]: "probe_inv s \<Longrightarrow> probe_inv (note_link now up s)"
  by (auto simp: probe_inv_def note_link_def)

lemma prepare_probe_inv [inv_step]: "probe_inv s \<Longrightarrow> probe_inv (fst (prepare_probe now up s))"
  using note_link_inv [of s now up] by (auto simp: prepare_probe_def probe_inv_def Let_def)

lemma sat_add_one_pos: "0 < sat_add a (1 :: u8)"
  by (simp add: word_less_nat_alt unat_sat_add)

lemma record_result_inv [inv_step]: "probe_inv s \<Longrightarrow> probe_inv (record_result g r now s)"
  by (auto simp: probe_inv_def record_result_def Let_def sat_add_one_pos not_less)

lemma probe_event_step_inv [inv_step]: "probe_inv s \<Longrightarrow> probe_inv (probe_event_step s e)"
  by (cases e) (auto intro: inv_step)

lemma probe_run_inv [inv_step]: "probe_inv s \<Longrightarrow> probe_inv (foldl probe_event_step s es)"
  by (induction es arbitrary: s) (auto intro: inv_step)

text \<open>Generations: a result of another generation only ends the flight.\<close>

lemma record_result_stale: "ps_generation s \<noteq> g \<Longrightarrow> record_result g r t s = s\<lparr>ps_in_flight := False\<rparr>"
  by (simp add: record_result_def Let_def)

lemma prepare_same_link:
  "ps_last_link_up s = Some up \<Longrightarrow> ps_status (fst (prepare_probe t up s)) = ps_status s
     \<and> ps_generation (fst (prepare_probe t up s)) = ps_generation s
     \<and> ps_last_link_up (fst (prepare_probe t up s)) = Some up
     \<and> ps_failures (fst (prepare_probe t up s)) = ps_failures s"
  by (simp add: prepare_probe_def note_link_def Let_def)

text \<open>Events that say nothing new: the same link state, or results of another generation.\<close>

fun uninformative :: "bool \<Rightarrow> u32 \<Rightarrow> probe_event \<Rightarrow> bool" where
  "uninformative up g (Prepare t up') = (up' = up)"
| "uninformative up g (Result g' r t) = (g' \<noteq> g)"

lemma uninformative_run:
  assumes "ps_last_link_up s = Some up" "list_all (uninformative up (ps_generation s)) es"
  shows "ps_status (foldl probe_event_step s es) = ps_status s
    \<and> ps_failures (foldl probe_event_step s es) = ps_failures s"
  using assms
proof (induction es arbitrary: s)
  case (Cons e es)
  show ?case
  proof (cases e)
    case (Prepare t up')
    with Cons.prems have "up' = up" by simp
    with Prepare Cons.prems Cons.IH [of "fst (prepare_probe t up s)"] show ?thesis
      by (simp add: prepare_same_link)
  next
    case (Result g' r t)
    with Cons.prems have "ps_generation s \<noteq> g'" by auto
    with Result Cons.prems Cons.IH [of "s\<lparr>ps_in_flight := False\<rparr>"] show ?thesis
      by (simp add: record_result_stale)
  qed
qed simp

text \<open>Failures of the current generation, one after the other.\<close>

definition fail_run :: "nat \<Rightarrow> time \<Rightarrow> probe_state \<Rightarrow> probe_state" where
  "fail_run k now s = ((record_result (ps_generation s) False now) ^^ k) s"

lemma fail_run_failures:
  assumes "\<not> ps_grace_retry s" "ps_failures s = 0"
  shows "unat (ps_failures (fail_run k now s)) = min k 255 \<and> \<not> ps_grace_retry (fail_run k now s)
    \<and> ps_generation (fail_run k now s) = ps_generation s
    \<and> ps_failures_before_failed (fail_run k now s) = ps_failures_before_failed s"
proof (induction k)
  case 0
  with assms show ?case by (simp add: fail_run_def)
next
  case (Suc k)
  then show ?case
    by (simp add: fail_run_def record_result_def Let_def unat_sat_add)
qed

lemma fail_run_status:
  assumes "\<not> ps_grace_retry s" "ps_failures s = 0" "0 < k"
  shows "ps_status (fail_run k now s) = (if k < unat (ps_failures_before_failed s) then Missed else NetFailed)"
proof -
  obtain j where j: "k = Suc j" using assms(3) by (cases k) auto
  let ?s = "fail_run j now s"
  have f: "unat (sat_add (ps_failures ?s) 1) = min k 255" "\<not> ps_grace_retry ?s"
      "ps_generation ?s = ps_generation s" "ps_failures_before_failed ?s = ps_failures_before_failed s"
    using fail_run_failures [OF assms(1,2), of j now] by (simp_all add: unat_sat_add j)
  have "fail_run k now s = record_result (ps_generation s) False now ?s"
    by (simp add: fail_run_def j)
  then have "ps_status (fail_run k now s)
      = (if sat_add (ps_failures ?s) 1 < ps_failures_before_failed s then Missed else NetFailed)"
    using f(2-4) by (simp add: record_result_def Let_def)
  also have "sat_add (ps_failures ?s) 1 < ps_failures_before_failed s
      \<longleftrightarrow> min k 255 < unat (ps_failures_before_failed s)"
    by (simp add: word_less_nat_alt f(1))
  also have "\<dots> \<longleftrightarrow> k < unat (ps_failures_before_failed s)"
    using unsigned_less [of "ps_failures_before_failed s", where ?'a = nat] by auto
  finally show ?thesis .
qed

section \<open>The probe and its ping threads\<close>

text \<open>
  The probe together with the pings under way: \<open>pending\<close> are the generations of the requests
  handed to a thread that has not reported yet. A thread reports once, at any later time.
\<close>

inductive probe_system :: "probe_state \<Rightarrow> probe_state \<Rightarrow> u32 list \<Rightarrow> bool" for start where
  start: "probe_system start start []"
| ask: "probe_system start s pending \<Longrightarrow> prepare_probe now link_up s = (s', request) \<Longrightarrow>
    probe_system start s' (pending @ (case request of Some g \<Rightarrow> [g] | None \<Rightarrow> []))"
| land: "probe_system start s (before @ g # after) \<Longrightarrow>
    probe_system start (record_result g reachable now s) (before @ after)"

lemma probe_system_inv:
  assumes "probe_system start s pending" "probe_inv start" "\<not> ps_in_flight start"
  shows "probe_inv s \<and> length pending = (if ps_in_flight s then 1 else 0)"
  using assms
proof (induction rule: probe_system.induct)
  case (ask s pending now link_up s' request)
  then have "probe_inv s'" using prepare_probe_inv [of s now link_up] by simp
  moreover have "length pending = (if ps_in_flight (note_link now link_up s) then 1 else 0)"
    using ask by (simp add: note_link_def)
  ultimately show ?case
    using ask.hyps(2) by (auto simp: prepare_probe_def Let_def split: if_splits)
next
  case (land s before g "after" reachable now)
  then have "probe_inv (record_result g reachable now s)" by (intro inv_step) simp
  moreover have "\<not> ps_in_flight (record_result g reachable now s)" by (simp add: record_result_def Let_def)
  ultimately show ?case using land by (auto split: if_splits)
qed simp

section \<open>A UPS that stops answering\<close>

definition ups_run :: "'v host_env \<Rightarrow> nat \<Rightarrow> ups_collector \<Rightarrow> ups_collector" where
  "ups_run env k u = ((\<lambda>u. fst (ups_collect env u)) ^^ k) u"

lemma ups_run_failures:
  assumes "uc_target u = Some t" "query_upsc env t = None" "uc_failures u = 0"
  shows "uc_target (ups_run env k u) = Some t \<and> unat (uc_failures (ups_run env k u)) = min k 255
    \<and> uc_last_good (ups_run env k u) = uc_last_good u
    \<and> uc_failures_before_unavailable (ups_run env k u) = uc_failures_before_unavailable u"
proof (induction k)
  case 0
  with assms show ?case by (simp add: ups_run_def)
next
  case (Suc k)
  then show ?case using assms(2) by (simp add: ups_run_def ups_collect_def Let_def unat_sat_add)
qed

section \<open>What a snapshot can contain\<close>

lemma read_filesystem_usage_range [simp]: "fs_used_percent (read_filesystem_usage env path) \<le> 100"
  by (auto simp: read_filesystem_usage_def parse_filesystem_usage_def filesystem_missing_def Let_def bind_eq_Some_conv
      unwrap_or_def split: option.splits if_splits)

lemma read_guests_range: "list_all (\<lambda>g. g_cpu g \<le> 100) (read_guests env host)"
  by (auto simp: read_guests_def parse_guests_def list_all_iff set_filter_map parse_guest_def Let_def
      bind_eq_Some_conv split: option.splits if_splits)

definition collector_inv :: "collector \<Rightarrow> bool" where
  "collector_inv c = list_all (\<lambda>f. fs_used_percent f \<le> 100) (hco_usage c)"

lemma collector_new_inv [inv_step]: "collector_inv (collector_new env now target n devices fss probe limit)"
  by (simp add: collector_inv_def collector_new_def list_all_iff filesystem_missing_def)

lemma refresh_usage:
  "hco_usage (fst (refresh_cpu env c)) = hco_usage c"
  "refresh_network fuel env now c = Some c' \<Longrightarrow> hco_usage c' = hco_usage c"
  "hco_usage (refresh_backup env now c) = hco_usage c"
  "hco_usage (refresh_ups env now c) = hco_usage c"
  "hco_usage (refresh_smart env now c) = hco_usage c"
  by (auto simp: refresh_cpu_def refresh_network_def refresh_backup_def refresh_ups_def refresh_smart_def
      Let_def split: prod.splits if_splits)

lemma refresh_filesystems_inv [inv_step]: "collector_inv c \<Longrightarrow> collector_inv (refresh_filesystems env now c)"
  by (auto simp: collector_inv_def refresh_filesystems_def list_all_iff split: prod.splits)

lemma assemble_snapshot_range:
  assumes "collector_inv c"
  shows "collector_inv (fst (assemble_snapshot env now probe cpu mem c))
    \<and> snapshot_in_range (snd (assemble_snapshot env now probe cpu mem c))"
proof -
  obtain ps rq i ia where p: "probe (ns_up (hco_network c)) (hco_probe c) = (ps, rq, i, ia)"
    by (metis prod_cases4)
  have "collector_inv (c\<lparr>hco_probe := ps\<rparr>)" using assms by (simp add: collector_inv_def)
  then have "collector_inv (refresh_filesystems env now (c\<lparr>hco_probe := ps\<rparr>))"
    by (rule refresh_filesystems_inv)
  then have "collector_inv (refresh_smart env now (refresh_ups env now (refresh_backup env now
      (refresh_filesystems env now (c\<lparr>hco_probe := ps\<rparr>)))))"
    by (simp add: collector_inv_def refresh_usage)
  then show ?thesis
    using snapshot_new_range [OF _ read_guests_range]
    by (simp add: assemble_snapshot_def p Let_def collector_inv_def)
qed

lemma refresh_cpu_inv: "collector_inv c \<Longrightarrow> collector_inv (fst (refresh_cpu env c))"
  by (simp add: collector_inv_def refresh_usage)

lemma refresh_network_inv: "refresh_network fuel env now c = Some c' \<Longrightarrow> collector_inv c \<Longrightarrow> collector_inv c'"
  by (simp add: collector_inv_def refresh_usage)

lemma collect_snapshot_range:
  assumes "collector_inv c" "collect_snapshot fuel env now probe c = Some (c', s)"
  shows "collector_inv c' \<and> snapshot_in_range s"
proof -
  obtain c1 cpu where c1: "refresh_cpu env c = (c1, cpu)" by fastforce
  with assms(2) obtain c2 where c2: "refresh_network fuel env now c1 = Some c2"
      "assemble_snapshot env now probe cpu (read_memory env) c2 = (c', s)"
    by (auto simp: collect_snapshot_def Let_def)
  have "collector_inv c2" using refresh_network_inv [OF c2(1)] refresh_cpu_inv [OF assms(1), of env] c1 by simp
  then show ?thesis using assemble_snapshot_range c2(2) by (metis fst_conv snd_conv)
qed

lemma read_network_total:
  assumes "finite (interfaces env sysfs_net)"
  shows "read_network (Suc (card (interfaces env sysfs_net))) env \<noteq> None"
  using resolve_interface_total [OF assms, of "[]" "Suc (card (interfaces env sysfs_net))"]
  by (auto simp: read_network_def resolve_physical_interface_def simp del: resolve_interface.simps split: option.splits)

lemma collect_snapshot_total:
  assumes "finite (interfaces env sysfs_net)"
  shows "collect_snapshot (Suc (card (interfaces env sysfs_net))) env now probe c \<noteq> None"
  using read_network_total [OF assms]
  by (auto simp: collect_snapshot_def refresh_network_def Let_def simp del: resolve_interface.simps split: prod.splits)

section \<open>Properties\<close>

text \<open>(C19) At most one ping is under way, and the probe is marked in flight exactly then; the
  reported state always agrees with the failure count: \<open>Reachable\<close> and \<open>Checking\<close> with no
  failure counted, \<open>Missed\<close> below the configured threshold, \<open>Failed\<close> from it on; and the
  one grace retry after a link came up is only open while the state is \<open>Checking\<close>.\<close>

theorem probe_single_flight:
  assumes "probe_system (probe_new now interval settle retry threshold) s pending"
  shows "length pending = (if ps_in_flight s then 1 else 0)
    \<and> (case ps_status s of
         Checking \<Rightarrow> ps_failures s = 0
       | Reachable \<Rightarrow> ps_failures s = 0 \<and> ps_last_success s \<noteq> None
       | Missed \<Rightarrow> 0 < ps_failures s \<and> ps_failures s < ps_failures_before_failed s
       | NetFailed \<Rightarrow> 0 < ps_failures s \<and> ps_failures_before_failed s \<le> ps_failures s)
    \<and> (ps_grace_retry s \<longrightarrow> ps_status s = Checking \<and> ps_last_link_up s = Some True)"
  using probe_system_inv [OF assms probe_new_inv]
  by (auto simp: probe_inv_def probe_new_def split: internet_status.splits)

theorem probe_single_flight_witness:
  "\<exists>s. probe_system (probe_new 0 (secs 30) (secs 3) (secs 5) 2) s [1] \<and>
    length [1 :: u32] = (if ps_in_flight s then 1 else 0)
    \<and> (case ps_status s of
         Checking \<Rightarrow> ps_failures s = 0
       | Reachable \<Rightarrow> ps_failures s = 0 \<and> ps_last_success s \<noteq> None
       | Missed \<Rightarrow> 0 < ps_failures s \<and> ps_failures s < ps_failures_before_failed s
       | NetFailed \<Rightarrow> 0 < ps_failures s \<and> ps_failures_before_failed s \<le> ps_failures s)
    \<and> (ps_grace_retry s \<longrightarrow> ps_status s = Checking \<and> ps_last_link_up s = Some True)"
proof -
  let ?p = "probe_new 0 (secs 30) (secs 3) (secs 5) 2"
  let ?s = "fst (prepare_probe 0 False ?p)"
  have "prepare_probe 0 False ?p = (?s, Some 1)"
    by (simp add: prepare_probe_def note_link_def probe_new_def)
  from probe_system.ask [OF probe_system.start this] have "probe_system ?p ?s [1]" by simp
  from probe_single_flight [OF this] this show ?thesis by blast
qed

text \<open>(C17) After the link changed, no ping of the previous link decides the state: until a result of
  the new generation arrives the probe says \<open>Checking\<close> with no failure counted, whatever older
  pings report and however often the collector asks again.\<close>

theorem link_change_quarantine:
  assumes "ps_last_link_up s \<noteq> Some link_up"
    and "list_all (uninformative link_up (ps_generation s + 1)) events"
  shows "ps_status (foldl probe_event_step (fst (prepare_probe now link_up s)) events) = Checking
    \<and> ps_failures (foldl probe_event_step (fst (prepare_probe now link_up s)) events) = 0"
proof -
  let ?s = "fst (prepare_probe now link_up s)"
  have "ps_last_link_up ?s = Some link_up" "ps_generation ?s = ps_generation s + 1"
      "ps_status ?s = Checking" "ps_failures ?s = 0"
    using assms(1) by (simp_all add: prepare_probe_def note_link_def Let_def)
  then show ?thesis using uninformative_run [of ?s link_up events] assms(2) by simp
qed

theorem link_change_quarantine_witness:
  "ps_status (foldl probe_event_step (fst (prepare_probe 7 True (probe_new 0 (secs 30) (secs 3) (secs 5) 2)))
      [Result 0 False 8, Prepare 9 True, Result 0 True 9]) = Checking
    \<and> ps_failures (foldl probe_event_step (fst (prepare_probe 7 True (probe_new 0 (secs 30) (secs 3) (secs 5) 2)))
      [Result 0 False 8, Prepare 9 True, Result 0 True 9]) = 0"
  by (rule link_change_quarantine) (simp_all add: probe_new_def)

text \<open>Failed pings in a row: the first after a link came up only schedules a quick retry; the
  \<open>k\<close>-th after it makes the state \<open>Missed\<close> below the threshold and \<open>Failed\<close> from it on, also
  when the 8-bit count has saturated.\<close>

lemma failures_in_a_row:
  assumes "ps_failures s = 0" "0 < k"
  shows "(ps_grace_retry s \<longrightarrow>
       ps_status (fail_run 1 now s) = Checking \<and> ps_next_probe (fail_run 1 now s) = now + ps_retry_delay s)
    \<and> ps_status (fail_run (if ps_grace_retry s then Suc k else k) now s)
      = (if k < unat (ps_failures_before_failed s) then Missed else NetFailed)"
proof (cases "ps_grace_retry s")
  case False
  then show ?thesis using fail_run_status [OF _ assms] by simp
next
  case True
  let ?s = "fail_run 1 now s"
  have s: "?s = s\<lparr>ps_in_flight := False, ps_status := Checking, ps_grace_retry := False,
      ps_next_probe := now + ps_retry_delay s\<rparr>"
    using True by (simp add: fail_run_def record_result_def Let_def)
  have "fail_run (Suc k) now s = fail_run k now ?s"
    by (simp add: fail_run_def funpow_swap1 s) (simp add: fail_run_def record_result_def Let_def True funpow_swap1)
  then show ?thesis using fail_run_status [of ?s k now] assms True s by simp
qed

lemma failures_in_a_row_example:
  "let s = fst (prepare_probe 0 True (probe_new 0 (secs 30) (secs 3) (secs 5) 2)) in
     ps_failures s = 0 \<and> ps_grace_retry s
     \<and> ps_status (fail_run 1 7 s) = Checking \<and> ps_next_probe (fail_run 1 7 s) = 7 + secs 5
     \<and> ps_status (fail_run (Suc 1) 7 s) = Missed \<and> ps_status (fail_run (Suc 300) 7 s) = NetFailed"
proof -
  let ?s = "fst (prepare_probe 0 True (probe_new 0 (secs 30) (secs 3) (secs 5) 2))"
  have s: "ps_failures ?s = 0" "ps_grace_retry ?s" "ps_retry_delay ?s = secs 5" "ps_failures_before_failed ?s = 2"
    by (simp_all add: prepare_probe_def note_link_def probe_new_def Let_def)
  show ?thesis
    using failures_in_a_row [OF s(1), of 1 7] failures_in_a_row [OF s(1), of 300 7] s by (simp add: Let_def)
qed

text \<open>A UPS that stops answering: the \<open>k\<close>-th failed query in a row reports the last good values
  marked stale, and the state \<open>Unavailable\<close> exactly from the configured number of failures on.\<close>

lemma ups_outage:
  assumes "uc_target u = Some t" "query_upsc env t = None" "uc_failures u = 0"
  shows "snd (ups_collect env (ups_run env k u)) =
    (let stale = (unwrap_or ups_unknown_stale (uc_last_good u))\<lparr>ups_stale := True\<rparr>
     in if unat (uc_failures_before_unavailable u) \<le> Suc k then stale\<lparr>ups_status := Unavailable\<rparr> else stale)"
proof -
  let ?u = "ups_run env k u"
  note r = ups_run_failures [OF assms, of k]
  have "sat_add (uc_failures ?u) 1 \<ge> uc_failures_before_unavailable ?u
      \<longleftrightarrow> unat (uc_failures_before_unavailable u) \<le> min (Suc k) 255"
    using r by (simp add: word_le_nat_alt unat_sat_add min_def)
  also have "\<dots> \<longleftrightarrow> unat (uc_failures_before_unavailable u) \<le> Suc k"
    using unsigned_less [of "uc_failures_before_unavailable u", where ?'a = nat] by auto
  finally show ?thesis using r assms(2) by (simp add: ups_collect_def Let_def)
qed

lemma ups_outage_example:
  "snd (ups_collect looping_env (ups_run looping_env 2 (ups_collector_new (Some ''ups@localhost'') 3))) =
    (let stale = (unwrap_or ups_unknown_stale (uc_last_good (ups_collector_new (Some ''ups@localhost'') 3)))\<lparr>ups_stale := True\<rparr>
     in if unat (uc_failures_before_unavailable (ups_collector_new (Some ''ups@localhost'') 3)) \<le> Suc 2
        then stale\<lparr>ups_status := Unavailable\<rparr> else stale)"
  by (rule ups_outage [where t = "''ups@localhost''"]) (simp_all add: ups_collector_new_def query_upsc_def looping_env_def)


lemma looping_sysfs: "finite (interfaces looping_env sysfs_net)"
proof -
  have "interfaces looping_env sysfs_net \<subseteq> {''/s/br0'', ''/s/eth0''}"
    by (auto simp: interfaces_def looping_env_def path_join_def sysfs_net_def)
  then show ?thesis by (rule finite_subset) simp
qed


end
