(* ===== verification/Daemon.thy ===== *)
theory Daemon
  imports Host_Shutdown Health_Rules Probe
begin

text \<open>
  The main loop of the daemon (\<open>host/src/main.rs\<close>): opening the port, the handshake with a
  nonce, the manifests, the periodic snapshots and the device's messages. One turn of the loop
  is \<open>daemon_step\<close>; what the outside does in a turn (whether the port opens, the clock at each
  place it is read, the latest snapshot, the bytes read) is a \<open>tick\<close>. Log lines on stderr, and
  the flags that only keep them from repeating, are not modelled.
\<close>

section \<open>State\<close>

record daemon =
  dm_open :: bool
  dm_decoder :: frame_decoder
  dm_synchronized :: bool
  dm_handshake :: bool
  dm_manifest_pending :: bool
  dm_nonce :: handshake_nonce
  dm_next_update :: time
  dm_next_hello :: time
  dm_display :: display_config
  dm_network :: network_config
  dm_guest_pages :: nat
  dm_last_status :: "health_report option"
  dm_error :: bool \<comment> \<open>\<open>connection_error.is_some()\<close>\<close>

record 'v site =
  st_cfg :: "'v config"
  st_yaml :: "'v yaml_api"
  st_version :: str
  st_ser :: serializer
  st_de :: "u8 list \<Rightarrow> device_message option"
  st_cobs :: "u8 list \<Rightarrow> u8 list option"

datatype read_result = Bytes "u8 list" | TimedOut | ReadFailed

record 'v tick =
  tk_opens :: bool
  tk_nonce :: handshake_nonce
  tk_opened_at :: time
  tk_hello_at :: time
  tk_hello_sent_at :: time
  tk_update_at :: time
  tk_updated_at :: time
  tk_snapshot :: "health_snapshot option"
  tk_read :: read_result
  tk_input_at :: time
  tk_env :: "nat \<Rightarrow> 'v host_env"
  tk_fuel :: nat

datatype daemon_exit = ShutDown | ConfigFailed config_error | Panicked

type_synonym turn = "io \<Rightarrow> ((daemon_exit + daemon) \<times> io) option"

definition go_on :: "daemon \<Rightarrow> turn" where
  "go_on d = (\<lambda>io. Some (Inr d, io))"

definition leave :: "daemon_exit \<Rightarrow> turn" where
  "leave e = (\<lambda>io. Some (Inl e, io))"

definition and_do :: "turn \<Rightarrow> (daemon \<Rightarrow> turn) \<Rightarrow> turn" where
  "and_do m f = (\<lambda>io. case m io of None \<Rightarrow> None | Some (Inl e, io') \<Rightarrow> Some (Inl e, io') | Some (Inr d, io') \<Rightarrow> f d io')"

text \<open>A port operation whose failure becomes the connection error.\<close>

definition attempt :: "'a act \<Rightarrow> daemon \<Rightarrow> ('a \<Rightarrow> turn) \<Rightarrow> turn" where
  "attempt m d f = (\<lambda>io. case m io of None \<Rightarrow> None
     | Some (Inl _, io') \<Rightarrow> Some (Inr (d\<lparr>dm_error := True\<rparr>), io')
     | Some (Inr a, io') \<Rightarrow> f a io')"

section \<open>Helpers of the loop\<close>

definition guest_page_count :: "nat \<Rightarrow> nat" where
  "guest_page_count n = div_ceil (max n 1) 4"

text \<open>The time in nanoseconds as \<open>u128\<close>, folded, and mixed with the process id.\<close>

definition new_handshake_nonce :: "time option \<Rightarrow> u32 \<Rightarrow> handshake_nonce" where
  "new_handshake_nonce now pid = (let n = unwrap_or 0 now;
       low = of_nat (n mod 2 ^ 64) :: u64; high = unwrap_or 0 (try_word (n div 2 ^ 64))
     in HandshakeNonce (xor (xor low high) (push_bit 32 (ucast pid))))"

definition changed_health_status :: "health_report option \<Rightarrow> health_report \<Rightarrow> health_report option" where
  "changed_health_status previous current =
     (if is_none_or (\<lambda>p. hr_level p \<noteq> hr_level current \<or> hr_message p \<noteq> hr_message current) previous
      then Some current else None)"

definition log_health_status_change :: "health_report option \<Rightarrow> health_report \<Rightarrow> health_report option" where
  "log_health_status_change previous current =
     (if changed_health_status previous current = None then previous else Some current)"

text \<open>The local variables before the loop; the configuration errors end the program.\<close>

definition daemon_start :: "'v site \<Rightarrow> time \<Rightarrow> handshake_nonce \<Rightarrow> config_error + daemon" where
  "daemon_start site now nonce =
     and_then (display_config (st_version site) (st_cfg site) 0) (\<lambda>display.
     and_then (network_config (st_cfg site) 0) (\<lambda>network.
       Inr \<lparr>dm_open = False, dm_decoder = decoder_new max_device_frame_len, dm_synchronized = False,
         dm_handshake = False, dm_manifest_pending = True, dm_nonce = nonce, dm_next_update = now,
         dm_next_hello = now, dm_display = display, dm_network = network,
         dm_guest_pages = guest_page_count 0, dm_last_status = None, dm_error = False\<rparr>))"

section \<open>One turn of the loop\<close>

definition on_open :: "'v tick \<Rightarrow> daemon \<Rightarrow> daemon" where
  "on_open tick d = d\<lparr>dm_open := True, dm_decoder := decoder_new max_device_frame_len,
     dm_next_update := tk_opened_at tick, dm_manifest_pending := True, dm_handshake := False,
     dm_next_hello := tk_opened_at tick, dm_synchronized := False, dm_nonce := tk_nonce tick\<rparr>"

definition send_hello :: "'v site \<Rightarrow> 'v tick \<Rightarrow> daemon \<Rightarrow> turn" where
  "send_hello site tick d =
     (if \<not> dm_handshake d \<and> tk_hello_at tick \<ge> dm_next_hello d then
        attempt (write_host_message (st_ser site) (HostHello (SoftwareVersion (st_version site)) (dm_nonce d))) d
          (\<lambda>_. go_on (d\<lparr>dm_next_hello := tk_hello_sent_at tick + secs 1\<rparr>))
      else go_on d)"

definition send_manifests :: "'v site \<Rightarrow> daemon \<Rightarrow> turn" where
  "send_manifests site d =
     (if dm_handshake d \<and> dm_manifest_pending d then
        attempt (write_host_message (st_ser site) (DisplayConfigMsg (dm_display d))) d (\<lambda>_.
        attempt (write_host_message (st_ser site) (NetworkConfigMsg (dm_network d))) d (\<lambda>_.
          go_on (d\<lparr>dm_manifest_pending := False\<rparr>)))
      else go_on d)"

text \<open>The manifests follow the number of guest pages.\<close>

definition refresh_display :: "'v site \<Rightarrow> display_config \<Rightarrow> daemon \<Rightarrow> turn" where
  "refresh_display site next_display d =
     (if next_display \<noteq> dm_display d then
        attempt (write_host_message (st_ser site) (DisplayConfigMsg next_display)) d
          (\<lambda>_. go_on (d\<lparr>dm_display := next_display\<rparr>))
      else go_on d)"

definition refresh_network_manifest :: "'v site \<Rightarrow> network_config \<Rightarrow> daemon \<Rightarrow> turn" where
  "refresh_network_manifest site next_network d =
     (if \<not> dm_error d \<and> next_network \<noteq> dm_network d then
        attempt (write_host_message (st_ser site) (NetworkConfigMsg next_network)) d
          (\<lambda>_. go_on (d\<lparr>dm_network := next_network\<rparr>))
      else go_on d)"

definition refresh_manifests :: "'v site \<Rightarrow> nat \<Rightarrow> daemon \<Rightarrow> turn" where
  "refresh_manifests site guest_count d =
     (if guest_page_count guest_count \<noteq> dm_guest_pages d then
        (case (display_config (st_version site) (st_cfg site) guest_count) of
           Inl e \<Rightarrow> leave (ConfigFailed e)
         | Inr next_display \<Rightarrow> (case network_config (st_cfg site) guest_count of
             Inl e \<Rightarrow> leave (ConfigFailed e)
           | Inr next_network \<Rightarrow>
               and_do (refresh_display site next_display d) (\<lambda>d1.
               and_do (refresh_network_manifest site next_network d1) (\<lambda>d2.
                 go_on (if dm_error d2 then d2 else d2\<lparr>dm_guest_pages := guest_page_count guest_count\<rparr>)))))
      else go_on d)"

definition send_snapshot :: "'v site \<Rightarrow> 'v tick \<Rightarrow> health_snapshot \<Rightarrow> daemon \<Rightarrow> turn" where
  "send_snapshot site tick snapshot d =
     (case evaluate_health (st_yaml site) (st_cfg site) snapshot of
        None \<Rightarrow> leave Panicked
      | Some (report, incidents) \<Rightarrow>
          let d1 = d\<lparr>dm_last_status := log_health_status_change (dm_last_status d) report\<rparr> in
          if dm_error d1 then go_on d1
          else attempt (write_host_message (st_ser site) (HealthSnapshot (set_incidents report incidents snapshot))) d1
            (\<lambda>_. go_on (d1\<lparr>dm_next_update := tk_updated_at tick + cfg_update_interval (cf_host (st_cfg site))\<rparr>)))"

definition send_update :: "'v site \<Rightarrow> 'v tick \<Rightarrow> daemon \<Rightarrow> turn" where
  "send_update site tick d =
     (if dm_handshake d \<and> \<not> dm_error d \<and> tk_update_at tick \<ge> dm_next_update d then
        (case tk_snapshot tick of
           None \<Rightarrow> go_on d
         | Some snapshot \<Rightarrow> and_do (refresh_manifests site (length (hs_guests snapshot)) d) (send_snapshot site tick snapshot))
      else go_on d)"

text \<open>One decoded message of the device, or the error it came as.\<close>

definition handle_message :: "'v site \<Rightarrow> 'v tick \<Rightarrow> daemon \<Rightarrow> protocol_error + device_message \<Rightarrow> turn" where
  "handle_message site tick d msg = (case msg of
     Inr (DeviceHello version session) \<Rightarrow>
       if session = Some (dm_nonce d) then
         go_on (if dm_handshake d then d
           else d\<lparr>dm_handshake := True, dm_manifest_pending := True, dm_next_update := tk_input_at tick\<rparr>)
       else go_on (d\<lparr>dm_handshake := False, dm_next_hello := tk_input_at tick\<rparr>)
   | Inr message \<Rightarrow>
       if dm_handshake d then
         attempt (handle (st_ser site) (systemd_poweroff (tk_fuel tick) (st_ser site) (tk_env tick))
             (sh_enabled (cf_shutdown (st_cfg site))) message) d
           (\<lambda>stop. if stop then leave ShutDown else go_on d)
       else go_on d
   | Inl e \<Rightarrow> go_on d)"

fun feed_bytes :: "'v site \<Rightarrow> 'v tick \<Rightarrow> u8 list \<Rightarrow> daemon \<Rightarrow> turn" where
  "feed_bytes site tick [] d = go_on d"
| "feed_bytes site tick (b # bs) d =
     (if \<not> dm_synchronized d then
        feed_bytes site tick bs (if b = 0
          then d\<lparr>dm_synchronized := True, dm_decoder := decoder_new max_device_frame_len\<rparr> else d)
      else (case push max_device_frame_len (dm_decoder d) b of
          None \<Rightarrow> leave Panicked
        | Some (decoder, None) \<Rightarrow> feed_bytes site tick bs (d\<lparr>dm_decoder := decoder\<rparr>)
        | Some (decoder, Some frame) \<Rightarrow>
            and_do (handle_message site tick (d\<lparr>dm_decoder := decoder\<rparr>) (and_then frame (decode (st_de site) (st_cobs site))))
              (\<lambda>d'. if dm_error d' then go_on d' else feed_bytes site tick bs d')))"

definition read_input :: "'v site \<Rightarrow> 'v tick \<Rightarrow> daemon \<Rightarrow> turn" where
  "read_input site tick d =
     (if dm_error d then go_on d
      else case tk_read tick of
        Bytes bs \<Rightarrow> feed_bytes site tick bs d
      | TimedOut \<Rightarrow> go_on d
      | ReadFailed \<Rightarrow> go_on (d\<lparr>dm_error := True\<rparr>))"

definition drop_connection :: "daemon \<Rightarrow> daemon" where
  "drop_connection d = (if dm_error d
     then d\<lparr>dm_open := False, dm_decoder := decoder_new max_device_frame_len, dm_error := False\<rparr> else d)"

definition daemon_step :: "'v site \<Rightarrow> 'v tick \<Rightarrow> daemon \<Rightarrow> turn" where
  "daemon_step site tick d0 =
     (if \<not> dm_open d0 \<and> \<not> tk_opens tick then go_on d0
      else let d = (if dm_open d0 then d0 else on_open tick d0) in
        and_do (send_hello site tick d) (\<lambda>d.
        and_do (send_manifests site d) (\<lambda>d.
        and_do (send_update site tick d) (\<lambda>d.
        and_do (read_input site tick d) (\<lambda>d. go_on (drop_connection d))))))"

fun daemon_run :: "'v site \<Rightarrow> 'v tick list \<Rightarrow> daemon \<Rightarrow> turn" where
  "daemon_run site [] d = go_on d"
| "daemon_run site (t # ts) d = and_do (daemon_step site t d) (daemon_run site ts)"

section \<open>The bytes of the device are a sequence of messages\<close>

fun handle_messages :: "'v site \<Rightarrow> 'v tick \<Rightarrow> (protocol_error + device_message) list \<Rightarrow> daemon \<Rightarrow> turn" where
  "handle_messages site tick [] d = go_on d"
| "handle_messages site tick (m # ms) d = and_do (handle_message site tick d m)
     (\<lambda>d'. if dm_error d' then go_on d' else handle_messages site tick ms d')"

text \<open>A result up to the state of the decoder.\<close>

definition forget :: "((daemon_exit + daemon) \<times> io) option \<Rightarrow> ((daemon_exit + daemon) \<times> io) option" where
  "forget = map_option (map_prod (map_sum id (\<lambda>d. d\<lparr>dm_decoder := decoder_new 0\<rparr>)) id)"

definition with_decoder :: "frame_decoder \<Rightarrow> ((daemon_exit + daemon) \<times> io) option \<Rightarrow> ((daemon_exit + daemon) \<times> io) option" where
  "with_decoder x = map_option (map_prod (map_sum id (\<lambda>d. d\<lparr>dm_decoder := x\<rparr>)) id)"

lemma forget_same: "forget x = forget y \<Longrightarrow> y = Some (r, io) \<Longrightarrow> \<exists>r'. x = Some (r', io)"
  by (cases x) (auto simp: forget_def)

lemma handle_message_decoder:
  "handle_message site tick (d\<lparr>dm_decoder := x\<rparr>) m io = with_decoder x (handle_message site tick d m io)"
  by (auto simp: handle_message_def go_on_def attempt_def leave_def with_decoder_def
      split: sum.split device_message.split option.split prod.split)

lemma handle_messages_decoder:
  "forget (handle_messages site tick ms (d\<lparr>dm_decoder := x\<rparr>) io) = forget (handle_messages site tick ms d io)"
proof (induction ms arbitrary: d io)
  case (Cons m ms)
  show ?case
  proof (cases "handle_message site tick d m io")
    case (Some p)
    then show ?thesis
      using Cons.IH
      by (cases p; cases "fst p") (auto simp: and_do_def handle_message_decoder with_decoder_def forget_def go_on_def)
  qed (simp add: and_do_def handle_message_decoder with_decoder_def forget_def)
qed (simp add: go_on_def forget_def)

lemma handle_message_keeps:
  "handle_message site tick d m io = Some (Inr d', io') \<Longrightarrow>
     dm_synchronized d' = dm_synchronized d \<and> dm_decoder d' = dm_decoder d \<and> dm_nonce d' = dm_nonce d"
  by (auto simp: handle_message_def go_on_def attempt_def leave_def
      split: sum.splits device_message.splits option.splits if_splits prod.splits)

lemma feed_bytes_messages:
  assumes "dm_synchronized d" "push_all (push max_device_frame_len) (dm_decoder d) bs = Some (fin, outs)"
  shows "forget (feed_bytes site tick bs d io)
    = forget (handle_messages site tick (map (\<lambda>r. and_then r (decode (st_de site) (st_cobs site))) outs) d io)"
  using assms
proof (induction bs arbitrary: d io outs)
  case (Cons b bs)
  let ?decode = "\<lambda>r. and_then r (decode (st_de site) (st_cobs site))"
  obtain s out where p: "push max_device_frame_len (dm_decoder d) b = Some (s, out)"
    using Cons.prems(2) by (auto split: option.splits)
  obtain outs' where rest: "push_all (push max_device_frame_len) s bs = Some (fin, outs')"
      "outs = (case out of None \<Rightarrow> outs' | Some r \<Rightarrow> r # outs')"
    using Cons.prems(2) p by auto
  show ?case
  proof (cases out)
    case None
    have "forget (feed_bytes site tick bs (d\<lparr>dm_decoder := s\<rparr>) io)
        = forget (handle_messages site tick (map ?decode outs') (d\<lparr>dm_decoder := s\<rparr>) io)"
      using Cons.prems(1) rest(1) by (intro Cons.IH) simp_all
    then show ?thesis using Cons.prems(1) p None rest(2) by (simp add: handle_messages_decoder)
  next
    case (Some r)
    let ?d = "d\<lparr>dm_decoder := s\<rparr>"
    have left: "feed_bytes site tick (b # bs) d io = and_do (handle_message site tick ?d (?decode r))
        (\<lambda>d'. if dm_error d' then go_on d' else feed_bytes site tick bs d') io"
      using Cons.prems(1) p Some by simp
    have "forget (feed_bytes site tick (b # bs) d io)
        = forget (handle_messages site tick (map ?decode (r # outs')) ?d io)"
    proof (cases "handle_message site tick ?d (?decode r) io")
      case None
      then show ?thesis unfolding left by (simp add: and_do_def)
    next
      case h: (Some q)
      then obtain e io' where q: "q = (e, io')" by fastforce
      show ?thesis
      proof (cases e)
        case (Inl x)
        then show ?thesis unfolding left using h q by (simp add: and_do_def)
      next
        case (Inr d')
        have "dm_synchronized d' \<and> dm_decoder d' = s"
          using handle_message_keeps [of site tick ?d "?decode r" io d' io'] h q Inr Cons.prems(1) by simp
        then have "forget (feed_bytes site tick bs d' io') = forget (handle_messages site tick (map ?decode outs') d' io')"
          using rest(1) by (intro Cons.IH) simp_all
        then show ?thesis unfolding left using h q Inr by (simp add: and_do_def)
      qed
    qed
    then show ?thesis using rest(2) Some by (simp only: handle_messages_decoder option.case)
  qed
qed simp

lemma feed_bytes_skip:
  "\<not> dm_synchronized d \<Longrightarrow> 0 \<notin> set junk \<Longrightarrow>
     feed_bytes site tick (junk @ bs) d = feed_bytes site tick bs d"
  by (induction junk) auto

section \<open>Who may shut the host down\<close>

text \<open>Whether the session is acknowledged after some messages.\<close>

fun acknowledge :: "handshake_nonce \<Rightarrow> bool \<Rightarrow> protocol_error + device_message \<Rightarrow> bool" where
  "acknowledge nonce h (Inr (DeviceHello version session)) = (session = Some nonce)"
| "acknowledge nonce h m = h"

definition acknowledged :: "handshake_nonce \<Rightarrow> bool \<Rightarrow> (protocol_error + device_message) list \<Rightarrow> bool" where
  "acknowledged nonce h ms = foldl (acknowledge nonce) h ms"

lemma handle_message_quiet:
  assumes "handle_message site tick d m io = Some (r, io')" "io' \<noteq> io"
  shows "m = Inr ShutdownRequested \<and> dm_handshake d \<and> sh_enabled (cf_shutdown (st_cfg site))"
  using assms systemd.handle_ignores [of "st_ser site" "tk_fuel tick" "tk_env tick"
      "sh_enabled (cf_shutdown (st_cfg site))" _ io]
  by (auto simp: handle_message_def go_on_def attempt_def leave_def
      split: sum.splits device_message.splits option.splits if_splits prod.splits)

lemma handle_message_acknowledge:
  "handle_message site tick d m io = Some (Inr d', io') \<Longrightarrow>
     dm_handshake d' = acknowledge (dm_nonce d) (dm_handshake d) m"
  by (auto simp: handle_message_def go_on_def attempt_def leave_def
      split: sum.splits device_message.splits option.splits if_splits prod.splits)

lemma handle_messages_safe:
  assumes "handle_messages site tick ms d io = Some (r, io')" "io' \<noteq> io"
  shows "sh_enabled (cf_shutdown (st_cfg site)) \<and> (\<exists>before after. ms = before @ Inr ShutdownRequested # after
    \<and> acknowledged (dm_nonce d) (dm_handshake d) before)"
  using assms
proof (induction ms arbitrary: d io)
  case Nil
  then show ?case by (simp add: go_on_def)
next
  case (Cons m ms)
  obtain e io1 where h: "handle_message site tick d m io = Some (e, io1)"
    using Cons.prems(1) by (auto simp: and_do_def split: option.splits)
  show ?case
  proof (cases "io1 = io")
    case False
    then have "m = Inr ShutdownRequested \<and> dm_handshake d \<and> sh_enabled (cf_shutdown (st_cfg site))"
      using handle_message_quiet [OF h] by blast
    moreover have "acknowledged (dm_nonce d) (dm_handshake d) [] = dm_handshake d" by (simp add: acknowledged_def)
    ultimately show ?thesis by blast
  next
    case True
    then obtain d' where d': "e = Inr d'" "\<not> dm_error d'" "handle_messages site tick ms d' io = Some (r, io')"
      using Cons.prems h by (auto simp: and_do_def go_on_def split: sum.splits if_splits)
    obtain b a where ba: "sh_enabled (cf_shutdown (st_cfg site))" "ms = b @ Inr ShutdownRequested # a"
        "acknowledged (dm_nonce d') (dm_handshake d') b"
      using Cons.IH [OF d'(3) Cons.prems(2)] by blast
    have "acknowledged (dm_nonce d) (dm_handshake d) (m # b)"
      using ba(3) handle_message_acknowledge [OF h [unfolded d'(1)]] handle_message_keeps [OF h [unfolded d'(1)]]
      by (simp add: acknowledged_def)
    moreover have "m # ms = (m # b) @ Inr ShutdownRequested # a" using ba(2) by simp
    ultimately show ?thesis using ba(1) by blast
  qed
qed

lemma acknowledged_hello:
  "acknowledged nonce False ms \<Longrightarrow> \<exists>before version after. ms = before @ Inr (DeviceHello version (Some nonce)) # after
     \<and> (\<forall>v s. Inr (DeviceHello v s) \<in> set after \<longrightarrow> s = Some nonce)"
proof (induction ms rule: rev_induct)
  case Nil
  then show ?case by (simp add: acknowledged_def)
next
  case (snoc m ms)
  show ?case
  proof (cases "\<exists>v s. m = Inr (DeviceHello v s)")
    case True
    then obtain v where "m = Inr (DeviceHello v (Some nonce))" using snoc.prems by (auto simp: acknowledged_def)
    then have "ms @ [m] = ms @ Inr (DeviceHello v (Some nonce)) # []" by simp
    then show ?thesis by fastforce
  next
    case False
    then have "acknowledge nonce h m = h" for h by (cases "(nonce, h, m)" rule: acknowledge.cases) auto
    then have "acknowledged nonce False ms" using snoc.prems by (simp add: acknowledged_def)
    then obtain b v a where "ms = b @ Inr (DeviceHello v (Some nonce)) # a"
        "\<forall>v s. Inr (DeviceHello v s) \<in> set a \<longrightarrow> s = Some nonce"
      using snoc.IH by blast
    then have "ms @ [m] = b @ Inr (DeviceHello v (Some nonce)) # (a @ [m])
        \<and> (\<forall>v s. Inr (DeviceHello v s) \<in> set (a @ [m]) \<longrightarrow> s = Some nonce)"
      using False by auto
    then show ?thesis by blast
  qed
qed

section \<open>Neither a panic nor a configuration error\<close>

definition turn_safe :: "(daemon \<Rightarrow> bool) \<Rightarrow> turn \<Rightarrow> bool" where
  "turn_safe I m = (\<forall>io r io'. m io = Some (r, io') \<longrightarrow> (case r of Inl e \<Rightarrow> e = ShutDown | Inr d \<Rightarrow> I d))"

named_theorems turn_rule

lemma turn_safe_go_on [turn_rule]: "I d \<Longrightarrow> turn_safe I (go_on d)"
  by (simp add: turn_safe_def go_on_def)

lemma turn_safe_leave [turn_rule]: "turn_safe I (leave ShutDown)"
  by (simp add: turn_safe_def leave_def)

lemma turn_safe_result:
  "turn_safe I m \<Longrightarrow> m io = Some (r, io') \<Longrightarrow> case r of Inl e \<Rightarrow> e = ShutDown | Inr d \<Rightarrow> I d"
  unfolding turn_safe_def by blast

lemma turn_safeD:
  "turn_safe I m \<Longrightarrow> m io = Some (Inl e, io') \<Longrightarrow> e = ShutDown"
  "turn_safe I m \<Longrightarrow> m io = Some (Inr d, io') \<Longrightarrow> I d"
  unfolding turn_safe_def by fastforce+

lemma turn_safe_attempt [turn_rule]:
  assumes "I (d\<lparr>dm_error := True\<rparr>)" "\<And>a. turn_safe I (f a)"
  shows "turn_safe I (attempt m d f)"
  unfolding turn_safe_def
proof (intro allI impI)
  fix io r io'
  assume r: "attempt m d f io = Some (r, io')"
  then obtain q io1 where m: "m io = Some (q, io1)" by (auto simp: attempt_def split: option.splits)
  show "case r of Inl e \<Rightarrow> e = ShutDown | Inr d \<Rightarrow> I d"
  proof (cases q)
    case (Inl e)
    with r m have "r = Inr (d\<lparr>dm_error := True\<rparr>)" by (simp add: attempt_def)
    with assms(1) show ?thesis by simp
  next
    case (Inr a)
    with r m have "f a io1 = Some (r, io')" by (simp add: attempt_def)
    with assms(2) show ?thesis by (rule turn_safe_result)
  qed
qed

lemma turn_safe_and_do [turn_rule]:
  assumes "turn_safe J m" "\<And>d. J d \<Longrightarrow> turn_safe I (f d)"
  shows "turn_safe I (and_do m f)"
  unfolding turn_safe_def
proof (intro allI impI)
  fix io r io'
  assume r: "and_do m f io = Some (r, io')"
  then obtain q io1 where m: "m io = Some (q, io1)" by (auto simp: and_do_def split: option.splits)
  show "case r of Inl e \<Rightarrow> e = ShutDown | Inr d \<Rightarrow> I d"
  proof (cases q)
    case (Inl e)
    with r m have "r = Inl e" by (simp add: and_do_def)
    with turn_safeD(1) [OF assms(1)] m Inl show ?thesis by simp
  next
    case (Inr d)
    then have "turn_safe I (f d)" using assms(2) turn_safeD(2) [OF assms(1)] m by simp
    moreover have "f d io1 = Some (r, io')" using r m Inr by (simp add: and_do_def)
    ultimately show ?thesis by (rule turn_safe_result)
  qed
qed

definition daemon_ok :: "daemon \<Rightarrow> bool" where
  "daemon_ok d = decoder_ok max_device_frame_len (dm_decoder d)"

lemma daemon_ok_update [simp]:
  "daemon_ok (dm_error_update f d) = daemon_ok d" "daemon_ok (dm_next_hello_update f1 d) = daemon_ok d"
  "daemon_ok (dm_manifest_pending_update f2 d) = daemon_ok d" "daemon_ok (dm_display_update f3 d) = daemon_ok d"
  "daemon_ok (dm_network_update f4 d) = daemon_ok d" "daemon_ok (dm_guest_pages_update f5 d) = daemon_ok d"
  "daemon_ok (dm_last_status_update f6 d) = daemon_ok d" "daemon_ok (dm_next_update_update f7 d) = daemon_ok d"
  "daemon_ok (dm_handshake_update f8 d) = daemon_ok d" "daemon_ok (dm_synchronized_update f9 d) = daemon_ok d"
  "daemon_ok (dm_open_update f10 d) = daemon_ok d" "daemon_ok (dm_nonce_update f11 d) = daemon_ok d"
  by (simp_all add: daemon_ok_def)

lemma daemon_ok_new [simp]: "daemon_ok (d\<lparr>dm_decoder := decoder_new max_device_frame_len\<rparr>)"
  by (simp add: daemon_ok_def decoder_new_ok)

lemma handle_message_turn [turn_rule]: "daemon_ok d \<Longrightarrow> turn_safe daemon_ok (handle_message site tick d m)"
  unfolding handle_message_def
  by (auto intro!: turn_rule split: sum.split device_message.split)

lemma feed_bytes_turn [turn_rule]: "daemon_ok d \<Longrightarrow> turn_safe daemon_ok (feed_bytes site tick bs d)"
proof (induction bs arbitrary: d)
  case (Cons b bs)
  obtain s out where p: "push max_device_frame_len (dm_decoder d) b = Some (s, out)" "decoder_ok max_device_frame_len s"
    using push_ok Cons.prems unfolding daemon_ok_def by blast
  then have s: "daemon_ok (d\<lparr>dm_decoder := s\<rparr>)" by (simp add: daemon_ok_def)
  show ?case
    by (cases out) (auto simp: p(1) intro!: turn_safe_and_do [OF handle_message_turn] turn_rule Cons.IH Cons.prems s)
qed (simp add: turn_rule)

lemma refresh_manifests_turn:
  assumes "validate ser version (st_cfg site) = Inr ()" "n < 2 ^ 32" "daemon_ok d"
  shows "turn_safe daemon_ok (refresh_manifests site n d)"
proof -
  from assms(1) have "validate_manifest_sizes ser version (st_cfg site) = Inr ()" by (simp add: validate_iff)
  then obtain d0 w0 where "display_config version (st_cfg site) 0 = Inr d0" "network_config (st_cfg site) 0 = Inr w0"
    by (auto simp: validate_manifest_sizes_def)
  then obtain display w where dw: "display_config (st_version site) (st_cfg site) n = Inr display"
      "network_config (st_cfg site) n = Inr w"
    using display_config_any [OF _ assms(2)] network_config_any [OF _ assms(2)] by metis
  have r: "turn_safe daemon_ok (refresh_display site display d)"
    "\<And>d1. daemon_ok d1 \<Longrightarrow> turn_safe daemon_ok (refresh_network_manifest site w d1)"
    unfolding refresh_display_def refresh_network_manifest_def using assms(3) by (auto intro!: turn_rule)
  show ?thesis
    unfolding refresh_manifests_def dw sum.case
    using assms(3) by (auto intro!: turn_safe_and_do [where J = daemon_ok] r turn_safe_go_on)
qed

lemma send_snapshot_turn:
  assumes "validate ser version (st_cfg site) = Inr ()" "daemon_ok d"
  shows "turn_safe daemon_ok (send_snapshot site tick snapshot d)"
proof -
  have "\<forall>r \<in> set (hf_rules (cf_health (st_cfg site))). valid_rule_id (rl_id r)"
    using assms(1) by (auto simp: validate_iff validate_health_def validate_ids_iff valid_id_rule_id)
  then obtain report incidents where "evaluate_health (st_yaml site) (st_cfg site) snapshot = Some (report, incidents)"
    using rule_incidents_total by (fastforce simp: evaluate_health_def)
  then show ?thesis
    using assms(2) by (auto simp: send_snapshot_def Let_def intro!: turn_rule)
qed

lemma daemon_step_turn:
  assumes "validate ser version (st_cfg site) = Inr ()"
    and "\<And>s. tk_snapshot tick = Some s \<Longrightarrow> length (hs_guests s) < 2 ^ 32" and d: "daemon_ok d"
  shows "turn_safe daemon_ok (daemon_step site tick d)"
proof -
  have hello: "turn_safe daemon_ok (send_hello site tick d)" if "daemon_ok d" for d
    unfolding send_hello_def using that by (auto intro!: turn_rule)
  have manifests: "turn_safe daemon_ok (send_manifests site d)" if "daemon_ok d" for d
    unfolding send_manifests_def using that by (auto intro!: turn_rule)
  have update: "turn_safe daemon_ok (send_update site tick d)" if "daemon_ok d" for d
    unfolding send_update_def using that assms(2)
    by (auto intro!: turn_safe_and_do [where J = daemon_ok] refresh_manifests_turn [OF assms(1)]
        send_snapshot_turn [OF assms(1)] turn_safe_go_on split: option.split)
  have input: "turn_safe daemon_ok (read_input site tick d)" if "daemon_ok d" for d
    unfolding read_input_def using that by (auto intro!: feed_bytes_turn turn_safe_go_on split: read_result.split)
  have "daemon_ok (drop_connection d)" if "daemon_ok d" for d
    using that by (simp add: drop_connection_def daemon_ok_def decoder_new_ok)
  moreover have "daemon_ok (on_open tick d)" by (simp add: on_open_def daemon_ok_def decoder_new_ok)
  ultimately show ?thesis
    unfolding daemon_step_def Let_def using d
    by (auto intro!: turn_safe_and_do [where J = daemon_ok] hello manifests update input turn_safe_go_on)
qed

lemma daemon_run_turn:
  assumes "validate ser version (st_cfg site) = Inr ()"
    and "\<And>t s. t \<in> set ticks \<Longrightarrow> tk_snapshot t = Some s \<Longrightarrow> length (hs_guests s) < 2 ^ 32"
  shows "daemon_ok d \<Longrightarrow> turn_safe daemon_ok (daemon_run site ticks d)"
  using assms(2)
proof (induction ticks arbitrary: d)
  case (Cons t ticks)
  have "turn_safe daemon_ok (daemon_step site t d)"
    using Cons.prems by (intro daemon_step_turn [OF assms(1)]) auto
  then show ?case
    unfolding daemon_run.simps using Cons by (intro turn_safe_and_do [where J = daemon_ok]) auto
qed (simp add: turn_safe_go_on)

lemma daemon_start_ok: "daemon_start site now nonce = Inr d \<Longrightarrow> daemon_ok d"
  by (auto simp: daemon_start_def daemon_ok_def decoder_new_ok)

section \<open>Manifests depend on the number of guest pages only\<close>

lemma view_pages_count:
  "guest_page_count n = guest_page_count m \<Longrightarrow> view_pages cfg n = view_pages cfg m"
  by (rule ext) (simp add: view_pages_def guest_pages_def guest_page_count_def Let_def split: view_layout.split)

lemma compile_pages_for_count:
  "guest_page_count n = guest_page_count m \<Longrightarrow> compile_pages_for cfg ids n out = compile_pages_for cfg ids m out"
  by (simp add: compile_pages_for_def view_pages_count [of n m])

lemma manifests_count:
  assumes "guest_page_count n = guest_page_count m"
  shows "display_config version cfg n = display_config version cfg m" "network_config cfg n = network_config cfg m"
  by (simp_all add: display_config_def compile_pages_def network_config_def compile_pages_for_count [OF assms] split: option.split)

lemma attempt_Inr:
  "attempt m d f io = Some (Inr d', io') \<Longrightarrow> \<not> dm_error d' \<Longrightarrow> \<exists>a io1. m io = Some (Inr a, io1) \<and> f a io1 = Some (Inr d', io')"
  by (auto simp: attempt_def split: option.splits sum.splits)

lemma refresh_display_result:
  assumes "refresh_display site next_display d io = Some (Inr d', io')" "\<not> dm_error d'"
  shows "dm_display d' = next_display \<and> dm_network d' = dm_network d \<and> dm_guest_pages d' = dm_guest_pages d"
  using assms by (auto simp: refresh_display_def go_on_def dest!: attempt_Inr split: if_splits)

lemma refresh_network_result:
  assumes "refresh_network_manifest site next_network d io = Some (Inr d', io')" "\<not> dm_error d'"
  shows "dm_network d' = next_network \<and> dm_display d' = dm_display d \<and> dm_guest_pages d' = dm_guest_pages d"
  using assms by (auto simp: refresh_network_manifest_def go_on_def dest!: attempt_Inr split: if_splits)

lemma refresh_network_error: "dm_error d \<Longrightarrow> refresh_network_manifest site w d = go_on d"
  by (simp add: refresh_network_manifest_def)

text \<open>The manifests the device was given are those for some number of guests with the recorded
  number of pages.\<close>

definition manifests_current :: "'v site \<Rightarrow> daemon \<Rightarrow> bool" where
  "manifests_current site d = (\<exists>n. guest_page_count n = dm_guest_pages d
     \<and> display_config (st_version site) (st_cfg site) n = Inr (dm_display d)
     \<and> network_config (st_cfg site) n = Inr (dm_network d))"

lemma manifests_current_count:
  "manifests_current site d \<Longrightarrow> guest_page_count n = dm_guest_pages d \<Longrightarrow>
     display_config (st_version site) (st_cfg site) n = Inr (dm_display d) \<and> network_config (st_cfg site) n = Inr (dm_network d)"
  unfolding manifests_current_def using manifests_count by metis

lemma refresh_manifests_result:
  assumes "refresh_manifests site n d io = Some (Inr d', io')" "\<not> dm_error d'" "manifests_current site d"
  shows "display_config (st_version site) (st_cfg site) n = Inr (dm_display d')
    \<and> network_config (st_cfg site) n = Inr (dm_network d') \<and> dm_guest_pages d' = guest_page_count n"
proof (cases "guest_page_count n = dm_guest_pages d")
  case True
  then have "d' = d" using assms(1) by (simp add: refresh_manifests_def go_on_def)
  then show ?thesis using manifests_current_count [OF assms(3) True] True by simp
next
  case False
  from assms(1) False obtain display w where dw:
      "display_config (st_version site) (st_cfg site) n = Inr display" "network_config (st_cfg site) n = Inr w"
    by (auto simp: refresh_manifests_def leave_def split: sum.splits)
  from assms(1) False dw obtain d1 io1 d2 io2 where s:
      "refresh_display site display d io = Some (Inr d1, io1)"
      "refresh_network_manifest site w d1 io1 = Some (Inr d2, io2)"
      "d' = (if dm_error d2 then d2 else d2\<lparr>dm_guest_pages := guest_page_count n\<rparr>)"
    by (auto simp: refresh_manifests_def and_do_def go_on_def split: option.splits sum.splits)
  have e2: "\<not> dm_error d2" using s(3) assms(2) by (auto split: if_splits)
  then have "\<not> dm_error d1" using s(2) by (auto simp: refresh_network_error go_on_def)
  then show ?thesis
    using refresh_display_result [OF s(1)] refresh_network_result [OF s(2) e2] s(3) e2 dw by simp
qed

section \<open>The log only grows\<close>

definition turn_grows :: "turn \<Rightarrow> bool" where
  "turn_grows m = (\<forall>io r io'. m io = Some (r, io') \<longrightarrow> (\<exists>new. io_log io' = io_log io @ new))"

lemma turn_grows_basic: "turn_grows (go_on d)" "turn_grows (leave e)"
  by (simp_all add: turn_grows_def go_on_def leave_def)

lemma turn_grows_and_do: "turn_grows m \<Longrightarrow> (\<And>d. turn_grows (f d)) \<Longrightarrow> turn_grows (and_do m f)"
  unfolding turn_grows_def and_do_def by (fastforce split: option.splits sum.splits)

lemma turn_grows_attempt:
  assumes "emits P m" "\<And>a. turn_grows (f a)"
  shows "turn_grows (attempt m d f)"
  unfolding turn_grows_def
proof (intro allI impI)
  fix io r io'
  assume r: "attempt m d f io = Some (r, io')"
  then obtain q io1 where m: "m io = Some (q, io1)" by (auto simp: attempt_def split: option.splits)
  obtain new where new: "io_log io1 = io_log io @ new" by (rule emitsD [OF assms(1) m])
  show "\<exists>new. io_log io' = io_log io @ new"
  proof (cases q)
    case (Inl e)
    with r m new show ?thesis by (simp add: attempt_def)
  next
    case (Inr a)
    then have "f a io1 = Some (r, io')" using r m by (simp add: attempt_def)
    then show ?thesis using assms(2) new unfolding turn_grows_def by fastforce
  qed
qed

lemma emits_any_message: "emits (\<lambda>ev. True) (write_host_message ser m)"
  by (rule emits_write_message) simp

lemmas turn_grows_rules = turn_grows_basic turn_grows_and_do turn_grows_attempt [OF emits_any_message]

lemma send_update_grows: "turn_grows (send_update site tick d)"
proof -
  have "turn_grows (refresh_manifests site n d)" for n d
    unfolding refresh_manifests_def refresh_display_def refresh_network_manifest_def
    by (auto intro!: turn_grows_rules split: sum.split)
  moreover have "turn_grows (send_snapshot site tick s d)" for s d
    unfolding send_snapshot_def Let_def by (auto intro!: turn_grows_rules split: option.split)
  ultimately show ?thesis
    unfolding send_update_def by (auto intro!: turn_grows_rules split: option.split)
qed

text \<open>A message that is written, or not.\<close>

lemma attempt_write:
  assumes "attempt (write_host_message ser m) d f io = Some (r, io')"
  obtains "r = Inr (d\<lparr>dm_error := True\<rparr>)" "io_log io' = io_log io"
    | frame io1 where "encode ser m max_host_frame_len = Inr frame" "io_log io1 = io_log io @ [Wrote frame]"
      "f () io1 = Some (r, io')"
proof -
  obtain q io1 where w: "write_host_message ser m io = Some (q, io1)"
    using assms by (auto simp: attempt_def split: option.splits)
  have "(\<exists>e. q = Inl e \<and> io_log io1 = io_log io) \<or> q = Inr () \<and> (\<exists>frame. encode ser m max_host_frame_len = Inr frame
      \<and> io_log io1 = io_log io @ [Wrote frame])"
    using w by (auto simp: write_host_message_def throw_def dest!: port_op_result split: sum.splits)
  then show thesis
  proof (elim disjE exE conjE)
    fix e assume q: "q = Inl e" "io_log io1 = io_log io"
    then have "r = Inr (d\<lparr>dm_error := True\<rparr>)" "io' = io1" using assms w by (simp_all add: attempt_def)
    with q that(1) show thesis by simp
  next
    fix frame assume q: "q = Inr ()" "encode ser m max_host_frame_len = Inr frame" "io_log io1 = io_log io @ [Wrote frame]"
    then have "f () io1 = Some (r, io')" using assms w by (simp add: attempt_def)
    with q that(2) show thesis by blast
  qed
qed

section \<open>Properties\<close>

text \<open>The messages in the bytes that follow a delimiter: the complete segments between zero bytes,
  each classified and decoded.\<close>

definition device_messages :: "'v site \<Rightarrow> u8 list \<Rightarrow> (protocol_error + device_message) list" where
  "device_messages site bs = map (\<lambda>seg. and_then (classify max_device_frame_len seg) (decode (st_de site) (st_cobs site)))
     (fst (segments [] bs))"

lemma feed_bytes_refines:
  assumes "\<not> dm_synchronized d" "0 \<notin> set junk"
  shows "forget (feed_bytes site tick (junk @ 0 # bs) d io)
    = forget (handle_messages site tick (device_messages site bs) (d\<lparr>dm_synchronized := True\<rparr>) io)"
proof -
  let ?d = "d\<lparr>dm_synchronized := True, dm_decoder := decoder_new max_device_frame_len\<rparr>"
  obtain fin where p: "push_all (push max_device_frame_len) (decoder_new max_device_frame_len) bs
      = Some (fin, map (classify max_device_frame_len) (fst (segments [] bs)))"
    using fd.run_frames [OF decoder_new_ok] by blast
  have "feed_bytes site tick (junk @ 0 # bs) d io = feed_bytes site tick bs ?d io"
    using assms by (simp add: feed_bytes_skip)
  moreover have "forget (feed_bytes site tick bs ?d io) = forget (handle_messages site tick (device_messages site bs) ?d io)"
    using p feed_bytes_messages [of ?d bs fin "map (classify max_device_frame_len) (fst (segments [] bs))" site tick io] by (simp add: device_messages_def comp_def)
  ultimately show ?thesis using handle_messages_decoder by simp
qed

text \<open>(C10) The daemon's byte loop implements message handling: from a port opened in the middle of
  whatever the device was sending, it behaves as if it were given, one by one, the messages of the
  complete segments after the first delimiter, up to the buffer of the decoder.\<close>

theorem daemon_input_refines_messages:
  assumes "\<not> dm_synchronized d" "0 \<notin> set junk"
  shows "forget (feed_bytes site tick (junk @ 0 # bs) d io)
    = forget (handle_messages site tick (device_messages site bs) (d\<lparr>dm_synchronized := True\<rparr>) io)"
  by (rule feed_bytes_refines [OF assms])

definition sample_site :: "unit site" where
  "sample_site = \<lparr>st_cfg = sample_config, st_yaml = \<lparr>ya_str = (\<lambda>_. None), ya_bool = (\<lambda>_. None),
       ya_u64 = (\<lambda>_. None), ya_f64 = (\<lambda>_. None), ya_null = (\<lambda>_. False), ya_sequence = (\<lambda>_. None),
       ya_field = (\<lambda>_ _. None)\<rparr>, st_version = ''1.0'', st_ser = (\<lambda>m n. Some [0]),
     st_de = (\<lambda>p. if p = [1, 0] then Some ShutdownRequested
       else if p = [2, 0] then Some (DeviceHello (SoftwareVersion ''1'') (Some (HandshakeNonce 7))) else None),
     st_cobs = (\<lambda>_. None)\<rparr>"

definition sample_tick :: "unit tick" where
  "sample_tick = \<lparr>tk_opens = True, tk_nonce = HandshakeNonce 7, tk_opened_at = 0, tk_hello_at = 0,
     tk_hello_sent_at = 0, tk_update_at = 0, tk_updated_at = 0, tk_snapshot = None, tk_read = TimedOut,
     tk_input_at = 0, tk_env = (\<lambda>k. poweroff_env), tk_fuel = 0\<rparr>"

definition sample_daemon :: daemon where
  "sample_daemon = \<lparr>dm_open = False, dm_decoder = decoder_new 0, dm_synchronized = False, dm_handshake = False,
     dm_manifest_pending = True, dm_nonce = HandshakeNonce 0, dm_next_update = 0, dm_next_hello = 0,
     dm_display = display_config_default, dm_network = \<lparr>net_http = http_config_new False [] 80 [],
       net_ntfy = ntfy_config_of None\<rparr>, dm_guest_pages = 1, dm_last_status = None, dm_error = False\<rparr>"

theorem daemon_input_refines_messages_witness:
  "forget (feed_bytes sample_site sample_tick ([3, 4] @ 0 # [1, 0]) sample_daemon \<lparr>io_log = [], io_faults = []\<rparr>)
    = forget (handle_messages sample_site sample_tick (device_messages sample_site [1, 0])
        (sample_daemon\<lparr>dm_synchronized := True\<rparr>) \<lparr>io_log = [], io_faults = []\<rparr>)"
  by (rule daemon_input_refines_messages) (simp_all add: sample_daemon_def)

text \<open>(C1) Whatever bytes a freshly opened port delivers: the daemon writes nothing in answer to them
  and runs no command, unless shutdowns are enabled and the bytes contain, after the first
  delimiter, a hello that acknowledges the nonce of this very connection and after it a shutdown
  request, with no hello in between that does not acknowledge it.\<close>

theorem shutdown_needs_fresh_handshake:
  assumes "feed_bytes site tick (junk @ 0 # bs) (on_open opening d) io = Some (r, io')" "0 \<notin> set junk" "io' \<noteq> io"
  shows "sh_enabled (cf_shutdown (st_cfg site))
    \<and> (\<exists>before version between after. device_messages site bs
         = before @ Inr (DeviceHello version (Some (tk_nonce opening))) # between @ Inr ShutdownRequested # after
       \<and> (\<forall>v s. Inr (DeviceHello v s) \<in> set between \<longrightarrow> s = Some (tk_nonce opening)))"
proof -
  let ?d = "(on_open opening d)\<lparr>dm_synchronized := True\<rparr>"
  have "\<not> dm_synchronized (on_open opening d)" by (simp add: on_open_def)
  from forget_same [OF feed_bytes_refines [OF this assms(2), symmetric] assms(1)]
  obtain r' where "handle_messages site tick (device_messages site bs) ?d io = Some (r', io')" by blast
  note s = handle_messages_safe [OF this assms(3)]
  have flags: "dm_nonce ?d = tk_nonce opening" "dm_handshake ?d = False" by (simp_all add: on_open_def)
  obtain b a where ba: "device_messages site bs = b @ Inr ShutdownRequested # a" "acknowledged (tk_nonce opening) False b"
    using s unfolding flags by blast
  obtain b1 v b2 where b: "b = b1 @ Inr (DeviceHello v (Some (tk_nonce opening))) # b2"
      "\<forall>v s. Inr (DeviceHello v s) \<in> set b2 \<longrightarrow> s = Some (tk_nonce opening)"
    using acknowledged_hello [OF ba(2)] by blast
  have "device_messages site bs = b1 @ Inr (DeviceHello v (Some (tk_nonce opening))) # b2 @ Inr ShutdownRequested # a"
    using ba(1) b(1) by simp
  with b(2) s show ?thesis by blast
qed

theorem shutdown_needs_fresh_handshake_witness:
  "\<exists>r io'. feed_bytes sample_site sample_tick ([3, 4] @ 0 # [0xa5, 0x5a, 10, 2, 0, 0xa5, 0x5a, 10, 1, 0])
       (on_open sample_tick sample_daemon) \<lparr>io_log = [], io_faults = []\<rparr> = Some (r, io') \<and> io' \<noteq> \<lparr>io_log = [], io_faults = []\<rparr>
    \<and> sh_enabled (cf_shutdown (st_cfg sample_site))
    \<and> (\<exists>before version between after. device_messages sample_site [0xa5, 0x5a, 10, 2, 0, 0xa5, 0x5a, 10, 1, 0]
         = before @ Inr (DeviceHello version (Some (tk_nonce sample_tick))) # between @ Inr ShutdownRequested # after
       \<and> (\<forall>v s. Inr (DeviceHello v s) \<in> set between \<longrightarrow> s = Some (tk_nonce sample_tick)))"
proof -
  let ?bs = "[0xa5, 0x5a, 10, 2, 0, 0xa5, 0x5a, 10, 1, 0] :: u8 list"
  let ?io = "\<lparr>io_log = [], io_faults = []\<rparr>"
  let ?d = "(on_open sample_tick sample_daemon)\<lparr>dm_synchronized := True\<rparr>"
  have ms: "device_messages sample_site ?bs
      = [Inr (DeviceHello (SoftwareVersion ''1'') (Some (HandshakeNonce 7))), Inr ShutdownRequested]"
    by (simp add: device_messages_def sample_site_def classify_def max_device_frame_len_def decode_def
        frame_magic_def protocol_version_def)
  have "\<exists>io'. handle_messages sample_site sample_tick (device_messages sample_site ?bs) ?d ?io = Some (Inl ShutDown, io')
      \<and> io' \<noteq> ?io"
    unfolding ms
    by (simp add: handle_message_def and_do_def attempt_def go_on_def leave_def on_open_def sample_tick_def
        sample_daemon_def sample_site_def sample_config_def shutdown_run_defs)
  then obtain io' where h: "handle_messages sample_site sample_tick (device_messages sample_site ?bs) ?d ?io
      = Some (Inl ShutDown, io')" "io' \<noteq> ?io" by blast
  have j: "0 \<notin> set ([3, 4] :: u8 list)" by simp
  have "\<not> dm_synchronized (on_open sample_tick sample_daemon)" by (simp add: on_open_def)
  from forget_same [OF feed_bytes_refines [OF this j] h(1)]
  obtain r where r: "feed_bytes sample_site sample_tick ([3, 4] @ 0 # ?bs) (on_open sample_tick sample_daemon) ?io = Some (r, io')"
    by blast
  from shutdown_needs_fresh_handshake [OF r j h(2)] r h(2) show ?thesis by blast
qed




text \<open>A snapshot with some number of guests.\<close>

definition guests_snapshot :: "nat \<Rightarrow> health_snapshot" where
  "guests_snapshot n = snapshot_new ''pve'' 0 0 0 0 0 0 [] NoJob None True 1000 ''eth0'' Reachable None
     [10, 0, 0, 1] (replicate n (guest_new 100 ''a'' Container GuestRunning 1 1 1)) ups_not_configured []"




end
