(* ===== verification/Provisioning.thy ===== *)
theory Provisioning
  imports Protocol
begin

text \<open>
  Wi-Fi provisioning of the firmware: the settings record in flash (\<open>firmware/src/provisioning.rs\<close>)
  and the form that enters them (\<open>parse_provisioning\<close>, \<open>form_decode\<close> and the store task of
  \<open>firmware/src/network.rs\<close>). The flash driver is a parameter, a record of its operations on an
  abstract device, and so is postcard.
\<close>

unbundle bit_operations_syntax

section \<open>Settings\<close>

record provisioning =
  pv_ssid :: str
  pv_password :: str
  pv_hostname :: str
  pv_topic :: str

record stored_settings =
  ss_provisioning :: provisioning
  ss_network :: "network_config option"

definition is_valid :: "provisioning \<Rightarrow> bool" where
  "is_valid p = (pv_ssid p \<noteq> [] \<and> length (pv_ssid p) \<le> 32 \<and> length (pv_password p) \<le> 63
     \<and> pv_hostname p \<noteq> [] \<and> length (pv_hostname p) \<le> 32
     \<and> list_all (\<lambda>c. is_alnum c \<or> c = CHR ''-'') (pv_hostname p)
     \<and> pv_topic p \<noteq> [] \<and> length (pv_topic p) \<le> 128
     \<and> list_all (\<lambda>c. is_alnum c \<or> c = CHR ''-'' \<or> c = CHR ''_'') (pv_topic p))"

section \<open>The record in flash\<close>

definition storage_magic :: "u8 list" where
  "storage_magic = [0x53, 0x56, 0x54, 0x59]"

definition storage_version :: u8 where
  "storage_version = 1"

definition max_record_len :: nat where
  "max_record_len = 2048"

definition checksum :: "u8 list \<Rightarrow> u32" where
  "checksum bytes = foldl (\<lambda>hash b. (hash XOR ucast b) * 16777619) 2166136261 bytes"

definition le16 :: "u16 \<Rightarrow> u8 list" where
  "le16 w = [ucast w, ucast (drop_bit 8 w)]"

definition from_le16 :: "u8 list \<Rightarrow> u16" where
  "from_le16 bs = ucast (bs ! 0) OR push_bit 8 (ucast (bs ! 1))"

definition le32 :: "u32 \<Rightarrow> u8 list" where
  "le32 w = [ucast w, ucast (drop_bit 8 w), ucast (drop_bit 16 w), ucast (drop_bit 24 w)]"

definition from_le32 :: "u8 list \<Rightarrow> u32" where
  "from_le32 bs = ucast (bs ! 0) OR push_bit 8 (ucast (bs ! 1)) OR push_bit 16 (ucast (bs ! 2)) OR push_bit 24 (ucast (bs ! 3))"

text \<open>\<open>usize::next_multiple_of(4)\<close>.\<close>

definition next_multiple_of_4 :: "nat \<Rightarrow> nat" where
  "next_multiple_of_4 n = div_ceil n 4 * 4"

record 's flash_api =
  fl_capacity :: nat
  fl_sector_size :: nat
  fl_read :: "'s \<Rightarrow> nat \<Rightarrow> nat \<Rightarrow> u8 list option" \<comment> \<open>offset and length\<close>
  fl_erase :: "'s \<Rightarrow> nat \<Rightarrow> nat \<Rightarrow> bool \<times> 's" \<comment> \<open>from, to; whether it succeeded\<close>
  fl_write :: "'s \<Rightarrow> nat \<Rightarrow> u8 list \<Rightarrow> bool \<times> 's"

record postcard_settings =
  pc_to :: "stored_settings \<Rightarrow> u8 list option"
  pc_from :: "u8 list \<Rightarrow> stored_settings option"

definition sector :: "'s flash_api \<Rightarrow> nat" where
  "sector F = fl_capacity F - fl_sector_size F"

definition settings_record :: "u8 list \<Rightarrow> u8 list" where
  "settings_record payload = storage_magic @ [storage_version, 0xff] @ le16 (of_nat (length payload))
     @ le32 (checksum payload) @ payload @ replicate (next_multiple_of_4 (length payload) - length payload) 0xff"

text \<open>Whether the record was saved, and the device afterwards: an erase or a write that failed may have
  changed it.\<close>

definition save :: "'s flash_api \<Rightarrow> postcard_settings \<Rightarrow> stored_settings \<Rightarrow> 's \<Rightarrow> bool \<times> 's" where
  "save F P v s = (if \<not> is_valid (ss_provisioning v) then (False, s) else
     case pc_to P v of
       None \<Rightarrow> (False, s)
     | Some payload \<Rightarrow> if length payload > max_record_len then (False, s)
         else (case fl_erase F s (sector F) (sector F + fl_sector_size F) of
             (False, s1) \<Rightarrow> (False, s1)
           | (True, s1) \<Rightarrow> fl_write F s1 (sector F) (settings_record payload)))"

definition save_provisioning :: "'s flash_api \<Rightarrow> postcard_settings \<Rightarrow> provisioning \<Rightarrow> 's \<Rightarrow> bool \<times> 's" where
  "save_provisioning F P p = save F P \<lparr>ss_provisioning = p, ss_network = None\<rparr>"

definition save_network :: "'s flash_api \<Rightarrow> postcard_settings \<Rightarrow> provisioning \<Rightarrow> network_config \<Rightarrow> 's \<Rightarrow> bool \<times> 's" where
  "save_network F P p n = save F P \<lparr>ss_provisioning = p, ss_network = Some n\<rparr>"

definition load_settings :: "'s flash_api \<Rightarrow> postcard_settings \<Rightarrow> 's \<Rightarrow> stored_settings option" where
  "load_settings F P s = do {
     header \<leftarrow> fl_read F s (sector F) 12;
     (if take 4 header \<noteq> storage_magic \<or> header ! 4 \<noteq> storage_version then None
      else (let len = unat (from_le16 (take 2 (drop 6 header))) in
        if len = 0 \<or> len > max_record_len then None
        else do {
          padded \<leftarrow> fl_read F s (sector F + 12) (next_multiple_of_4 len);
          (if checksum (take len padded) \<noteq> from_le32 (take 4 (drop 8 header)) then None
           else do {
             v \<leftarrow> pc_from P (take len padded);
             (if is_valid (ss_provisioning v) then Some v else None) }) })) }"

text \<open>One turn of the store task: the newer manifest or topic, then the whole record is written
  again; that a write failed is ignored.\<close>

datatype store_event = NewManifest network_config | NewTopic str

definition manifest_store_step ::
  "'s flash_api \<Rightarrow> postcard_settings \<Rightarrow> store_event \<Rightarrow> provisioning \<times> network_config option \<times> 's
   \<Rightarrow> provisioning \<times> network_config option \<times> 's" where
  "manifest_store_step F P event st = (let (p, n, s) = st;
       (p', n') = (case event of NewManifest m \<Rightarrow> (p, Some m) | NewTopic t \<Rightarrow> (p\<lparr>pv_topic := t\<rparr>, n));
       written = (case n' of Some m \<Rightarrow> save_network F P p' m s | None \<Rightarrow> save_provisioning F P p' s)
     in (p', n', snd written))"

section \<open>The form\<close>

function form_decode_bytes :: "string \<Rightarrow> string" where
  "form_decode_bytes [] = []"
| "form_decode_bytes (c # cs) =
     (if c = CHR ''+'' then CHR '' '' # form_decode_bytes cs
      else if c = CHR ''%'' \<and> 2 \<le> length cs then
        (case (hex_val (cs ! 0), hex_val (cs ! 1)) of
           (Some high, Some low) \<Rightarrow> char_of (16 * high + low) # form_decode_bytes (drop 2 cs)
         | _ \<Rightarrow> form_decode_bytes cs)
      else c # form_decode_bytes cs)"
  by pat_completeness auto
termination
  by (relation "measure length") auto

definition form_decode :: "str \<Rightarrow> str" where
  "form_decode v = unwrap_or [] (from_utf8 (form_decode_bytes v))"

definition form_value :: "str \<Rightarrow> str \<Rightarrow> str option" where
  "form_value body name = find_map (\<lambda>field. do {
     (key, v) \<leftarrow> split_once (CHR ''='') field;
     (if key = name then Some (form_decode v) else None) }) (split_char (CHR ''&'') body)"

definition parse_provisioning :: "str \<Rightarrow> provisioning option" where
  "parse_provisioning body = do {
     ssid \<leftarrow> form_value body ''ssid'';
     let password = unwrap_or [] (form_value body ''password'');
     hostname \<leftarrow> form_value body ''hostname'';
     topic \<leftarrow> form_value body ''ntfy_topic'';
     let p = \<lparr>pv_ssid = ssid, pv_password = password, pv_hostname = hostname, pv_topic = topic\<rparr>;
     (if is_valid p then Some p else None) }"

section \<open>Little-endian numbers\<close>

lemma from_le16_le16: "from_le16 (le16 w) = w"
  unfolding from_le16_def le16_def
  by (rule bit_word_eqI) (auto simp: bit_simps)

lemma from_le32_le32: "from_le32 (le32 w) = w"
proof (rule bit_word_eqI)
  fix n
  assume "n < LENGTH(32)"
  then consider "n < 8" | "8 \<le> n" "n < 16" | "16 \<le> n" "n < 24" | "24 \<le> n" "n < 32" by fastforce
  then show "bit (from_le32 (le32 w)) n = bit w n"
    by cases (auto simp: from_le32_def le32_def bit_simps)
qed

section \<open>Saving and loading\<close>

text \<open>
  What the drivers document: an erased sector holds what is then written at its start, and
  postcard's bytes are not empty and are read back as the value they came from.
\<close>

definition flash_ok :: "'s flash_api \<Rightarrow> bool" where
  "flash_ok F = (12 + next_multiple_of_4 max_record_len \<le> fl_sector_size F \<and>
     (\<forall>s a s1 bs s2. fl_erase F s a (a + fl_sector_size F) = (True, s1) \<longrightarrow> fl_write F s1 a bs = (True, s2) \<longrightarrow>
       length bs \<le> fl_sector_size F \<longrightarrow>
       (\<forall>k n. k + n \<le> length bs \<longrightarrow> fl_read F s2 (a + k) n = Some (take n (drop k bs)))))"

definition postcard_settings_ok :: "postcard_settings \<Rightarrow> bool" where
  "postcard_settings_ok P = (\<forall>v p. pc_to P v = Some p \<longrightarrow> p \<noteq> [] \<and> pc_from P p = Some v)"

lemma next_multiple_of_4_bounds: "n \<le> next_multiple_of_4 n" "n \<le> m \<Longrightarrow> next_multiple_of_4 n \<le> next_multiple_of_4 m"
  using div_ceil_covers [of 4 n] by (auto simp: next_multiple_of_4_def div_ceil_def div_le_mono)

lemma settings_record_parts:
  assumes "0 < length p" "length p \<le> max_record_len"
  defines "r \<equiv> settings_record p"
  shows "length r = 12 + next_multiple_of_4 (length p)" "take 4 r = storage_magic" "r ! 4 = storage_version"
    "unat (from_le16 (take 2 (drop 6 r))) = length p" "from_le32 (take 4 (drop 8 r)) = checksum p"
    "take (length p) (drop 12 r) = p"
proof -
  have l: "length p < 2 ^ LENGTH(16)" using assms(2) by (simp add: max_record_len_def)
  show "length r = 12 + next_multiple_of_4 (length p)"
    using next_multiple_of_4_bounds(1) [of "length p"]
    by (simp add: r_def settings_record_def storage_magic_def le16_def le32_def)
  show "take 4 r = storage_magic" "r ! 4 = storage_version" "take (length p) (drop 12 r) = p"
    by (simp_all add: r_def settings_record_def storage_magic_def le16_def le32_def)
  have "take 2 (drop 6 r) = le16 (of_nat (length p))" "take 4 (drop 8 r) = le32 (checksum p)"
    by (simp_all add: r_def settings_record_def storage_magic_def le16_def le32_def)
  then show "unat (from_le16 (take 2 (drop 6 r))) = length p" "from_le32 (take 4 (drop 8 r)) = checksum p"
    using unat_of_nat_small [OF l] by (simp_all only: from_le16_le16 from_le32_le32)
qed

section \<open>Encoding a form\<close>

text \<open>What a browser sends: letters and digits as they are, a space as \<open>+\<close>, other bytes as \<open>%XX\<close>.\<close>

definition hex_digit :: "nat \<Rightarrow> char" where
  "hex_digit d = (if d < 10 then char_of (48 + d) else char_of (55 + d))"

definition encode_byte :: "char \<Rightarrow> string" where
  "encode_byte c = (if is_alnum c then [c] else if c = CHR '' '' then ''+''
     else [CHR ''%'', hex_digit (of_char c div 16), hex_digit (of_char c mod 16)])"

definition form_encode :: "string \<Rightarrow> string" where
  "form_encode s = concat (map encode_byte s)"

lemma hex_val_digit: "d < 16 \<Longrightarrow> hex_val (hex_digit d) = Some d"
  by (auto simp: hex_val_def hex_digit_def Let_def)

lemma hex_digit_alnum: "d < 16 \<Longrightarrow> is_alnum (hex_digit d)"
  by (auto simp: is_alnum_def hex_digit_def Let_def)

lemma of_char_less: "(of_char c :: nat) < 256"
  by (simp add: of_char_def) 

lemma form_decode_encode_byte: "form_decode_bytes (encode_byte c @ s) = c # form_decode_bytes s"
proof -
  have b: "(of_char c :: nat) div 16 < 16" "(of_char c :: nat) mod 16 < 16"
    using of_char_less [of c] by (auto simp: div_less_iff_less_mult)
  have "char_of (16 * (of_char c div 16 :: nat) + of_char c mod 16) = c" by simp
  moreover have "\<not> is_alnum (CHR ''+'')" "\<not> is_alnum (CHR ''%'')" by (simp_all add: is_alnum_def)
  ultimately show ?thesis
    using b by (cases "is_alnum c"; cases "c = CHR '' ''") (simp_all add: encode_byte_def hex_val_digit, metis+)
qed

lemma form_decode_encode_bytes: "form_decode_bytes (form_encode s) = s"
  by (induction s) (simp_all add: form_encode_def form_decode_encode_byte)

lemma form_decode_encode: "utf8_valid s \<Longrightarrow> form_decode (form_encode s) = s"
  by (simp add: form_decode_def form_decode_encode_bytes from_utf8_def)

lemma split_char_once: "d \<notin> set a \<Longrightarrow> split_char d a = [a]"
  by (induction a) auto

lemma split_char_append: "d \<notin> set a \<Longrightarrow> split_char d (a @ d # b) = a # split_char d b"
  by (induction a) auto

lemma form_encode_chars: "d \<in> set (form_encode s) \<Longrightarrow> is_alnum d \<or> d = CHR ''+'' \<or> d = CHR ''%''"
proof -
  assume "d \<in> set (form_encode s)"
  then obtain c where "d \<in> set (encode_byte c)" by (auto simp: form_encode_def)
  moreover have "is_alnum (hex_digit (of_char c div 16))" "is_alnum (hex_digit (of_char c mod 16))"
    using of_char_less [of c] by (auto intro!: hex_digit_alnum simp: div_less_iff_less_mult)
  ultimately show ?thesis by (auto simp: encode_byte_def split: if_splits)
qed

lemma form_encode_plain: "CHR ''&'' \<notin> set (form_encode s)" "CHR ''='' \<notin> set (form_encode s)"
  using form_encode_chars [of _ s] by (auto simp: is_alnum_def dest!: form_encode_chars)

lemma alnum_utf8: "list_all (\<lambda>c. is_alnum c \<or> c = CHR ''-'' \<or> c = CHR ''_'') s \<Longrightarrow> utf8_valid s"
  by (rule utf8_valid_ascii) (auto simp: list_all_iff is_alnum_def is_ascii_def Let_def)

section \<open>Properties\<close>

lemma saved_loads:
  assumes "flash_ok F" "postcard_settings_ok P" "save F P v s = (True, s')"
  shows "load_settings F P s' = Some v"
proof -
  from assms(3) obtain p s1 where p: "is_valid (ss_provisioning v)" "pc_to P v = Some p"
      "length p \<le> max_record_len" "fl_erase F s (sector F) (sector F + fl_sector_size F) = (True, s1)"
      "fl_write F s1 (sector F) (settings_record p) = (True, s')"
    by (auto simp: save_def split: if_splits option.splits prod.splits bool.splits)
  then have pc: "p \<noteq> []" "pc_from P p = Some v" using assms(2) by (auto simp: postcard_settings_ok_def)
  let ?r = "settings_record p" and ?n = "next_multiple_of_4 (length p)"
  note parts = settings_record_parts [of p] p(3) pc(1)
  have len: "length ?r = 12 + ?n" using parts by simp
  have "?n \<le> next_multiple_of_4 max_record_len" using next_multiple_of_4_bounds(2) p(3) by blast
  then have "length ?r \<le> fl_sector_size F" using assms(1) len by (simp add: flash_ok_def)
  then have read: "k + n \<le> length ?r \<Longrightarrow> fl_read F s' (sector F + k) n = Some (take n (drop k ?r))" for k n
    using assms(1) p(4,5) unfolding flash_ok_def by blast
  have header: "fl_read F s' (sector F) 12 = Some (take 12 ?r)" using read [of 0 12] len by simp
  have payload: "fl_read F s' (sector F + 12) ?n = Some (drop 12 ?r)" using read [of 12 ?n] len by simp
  have h: "take 4 (take 12 ?r) = storage_magic" "take 12 ?r ! 4 = storage_version"
      "unat (from_le16 (take 2 (drop 6 (take 12 ?r)))) = length p"
      "from_le32 (take 4 (drop 8 (take 12 ?r))) = checksum p" "take (length p) (drop 12 ?r) = p"
    using parts by (simp_all add: drop_take min_def)
  show ?thesis
    using header payload h pc p(1,3) by (simp add: load_settings_def Let_def)
qed

text \<open>A flash that remembers the last write, and a serializer for one value.\<close>

definition sample_flash :: "(nat \<times> u8 list) flash_api" where
  "sample_flash = \<lparr>fl_capacity = 8192, fl_sector_size = 4096,
     fl_read = (\<lambda>s a n. if fst s \<le> a then Some (take n (drop (a - fst s) (snd s))) else None),
     fl_erase = (\<lambda>s a b. (True, a, [])), fl_write = (\<lambda>s a bs. (True, a, bs))\<rparr>"

definition sample_provisioning :: provisioning where
  "sample_provisioning = \<lparr>pv_ssid = ''My Net'', pv_password = ''a&b=%'', pv_hostname = ''stick-1'', pv_topic = ''t_1''\<rparr>"

definition sample_postcard :: postcard_settings where
  "sample_postcard = \<lparr>pc_to = (\<lambda>v. if v = \<lparr>ss_provisioning = sample_provisioning, ss_network = None\<rparr> then Some [7] else None),
     pc_from = (\<lambda>p. Some \<lparr>ss_provisioning = sample_provisioning, ss_network = None\<rparr>)\<rparr>"

lemma sample_provisioning_valid: "is_valid sample_provisioning"
  by (simp add: is_valid_def sample_provisioning_def is_alnum_def)

lemma sample_flash_ok: "flash_ok sample_flash"
  by (simp add: flash_ok_def sample_flash_def next_multiple_of_4_def div_ceil_def max_record_len_def)

lemma sample_settings_postcard_ok: "postcard_settings_ok sample_postcard"
  by (auto simp: postcard_settings_ok_def sample_postcard_def split: if_splits)

section \<open>The form a browser sends\<close>

definition setup_body :: "provisioning \<Rightarrow> string" where
  "setup_body p = ''ssid='' @ form_encode (pv_ssid p) @ ''&password='' @ form_encode (pv_password p)
     @ ''&hostname='' @ form_encode (pv_hostname p) @ ''&ntfy_topic='' @ form_encode (pv_topic p)"

text \<open>Parsing the body sent for a valid entry in UTF-8 gives back that entry, whatever separators and
  percent signs the network name and the password contain.\<close>

lemma parse_setup_body:
  assumes "is_valid p" "utf8_valid (pv_ssid p)" "utf8_valid (pv_password p)"
  shows "parse_provisioning (setup_body p) = Some p"
proof -
  let ?fields = "[''ssid='' @ form_encode (pv_ssid p), ''password='' @ form_encode (pv_password p),
      ''hostname='' @ form_encode (pv_hostname p), ''ntfy_topic='' @ form_encode (pv_topic p)]"
  have fields: "split_char (CHR ''&'') (setup_body p) = ?fields"
    using split_char_append [of "CHR ''&''" "''ssid='' @ form_encode (pv_ssid p)"]
      split_char_append [of "CHR ''&''" "''password='' @ form_encode (pv_password p)"]
      split_char_append [of "CHR ''&''" "''hostname='' @ form_encode (pv_hostname p)"]
      split_char_once [of "CHR ''&''" "''ntfy_topic='' @ form_encode (pv_topic p)"]
    by (simp add: form_encode_plain setup_body_def)
  have topic: "list_all (\<lambda>c. is_alnum c \<or> c = CHR ''-'' \<or> c = CHR ''_'') (pv_hostname p)"
      "list_all (\<lambda>c. is_alnum c \<or> c = CHR ''-'' \<or> c = CHR ''_'') (pv_topic p)"
    using assms(1) by (auto simp: is_valid_def list_all_iff)
  have decoded: "form_decode (form_encode (pv_ssid p)) = pv_ssid p" "form_decode (form_encode (pv_password p)) = pv_password p"
      "form_decode (form_encode (pv_hostname p)) = pv_hostname p" "form_decode (form_encode (pv_topic p)) = pv_topic p"
    using assms(2,3) alnum_utf8 [OF topic(1)] alnum_utf8 [OF topic(2)] by (simp_all add: form_decode_encode)
  show ?thesis
    unfolding parse_provisioning_def form_value_def fields
    using assms(1) decoded by (simp add: Let_def is_valid_def)
qed

end
