(* ===== verification/Net_State.thy ===== *)
theory Net_State
  imports Provisioning
begin

text \<open>
  What the network tasks of the firmware share (\<open>firmware/src/network.rs\<close>): the state behind its
  mutex, the port the display shows, the channels of capacity one towards the tasks that store the
  manifest and the topic, and the updates that fill them; also the incidents the device sees, its
  own included. The channel type is embassy's, a record of its operations here. Times are
  microseconds since start.
\<close>

section \<open>Times\<close>

definition sec_us :: "nat \<Rightarrow> time" where
  "sec_us n = n * 1000000"

definition milli_us :: "nat \<Rightarrow> time" where
  "milli_us n = n * 1000"

text \<open>\<open>Duration::as_secs\<close> and \<open>as_millis\<close>.\<close>

definition us_secs :: "time \<Rightarrow> nat" where
  "us_secs d = d div 1000000"

definition us_millis :: "time \<Rightarrow> nat" where
  "us_millis d = d div 1000"

lemma us_secs_ge: "n \<le> us_secs d \<longleftrightarrow> sec_us n \<le> d"
  by (simp add: us_secs_def sec_us_def less_eq_div_iff_mult_less_eq)

definition host_stale_after :: time where
  "host_stale_after = sec_us 15"

section \<open>The shared state\<close>

record shared_state =
  sh_snapshot :: "health_snapshot option"
  sh_manifest :: "network_config option"
  sh_labels :: "display_label list"
  sh_last_update :: "time option"
  sh_station_ipv4 :: "u8 list option"
  sh_topic :: "str option"
  sh_daemon_version :: "software_version option"

definition shared_new :: shared_state where
  "shared_new = \<lparr>sh_snapshot = None, sh_manifest = None, sh_labels = [], sh_last_update = None,
     sh_station_ipv4 = None, sh_topic = None, sh_daemon_version = None\<rparr>"

text \<open>A channel: \<open>try_send\<close> gives the message back when the channel is full.\<close>

record ('c, 'a) channel_api =
  ch_try_send :: "'c \<Rightarrow> 'a \<Rightarrow> 'a + 'c"
  ch_try_receive :: "'c \<Rightarrow> ('a \<times> 'c) option"

text \<open>\<open>update_manifest\<close> and the topic endpoint put the newest message into a full channel.\<close>

definition send_latest :: "('c, 'a) channel_api \<Rightarrow> 'a \<Rightarrow> 'c \<Rightarrow> 'c" where
  "send_latest C m c = (case ch_try_send C c m of
     Inr c' \<Rightarrow> c'
   | Inl m' \<Rightarrow> let c1 = (case ch_try_receive C c of Some (_, c') \<Rightarrow> c' | None \<Rightarrow> c) in
       (case ch_try_send C c1 m' of Inr c' \<Rightarrow> c' | Inl _ \<Rightarrow> c1))"

text \<open>What is documented of a channel of capacity one.\<close>

definition channel_ok :: "('c, 'a) channel_api \<Rightarrow> ('c \<Rightarrow> 'a option) \<Rightarrow> bool" where
  "channel_ok C held = ((\<forall>c m. held c = None \<longrightarrow> (\<exists>c'. ch_try_send C c m = Inr c' \<and> held c' = Some m))
     \<and> (\<forall>c m x. held c = Some x \<longrightarrow> ch_try_send C c m = Inl m)
     \<and> (\<forall>c x. held c = Some x \<longrightarrow> (\<exists>c'. ch_try_receive C c = Some (x, c') \<and> held c' = None))
     \<and> (\<forall>c. held c = None \<longrightarrow> ch_try_receive C c = None))"

lemma send_latest_holds: "channel_ok C held \<Longrightarrow> held (send_latest C m c) = Some m"
proof -
  assume C: "channel_ok C held"
  show ?thesis
  proof (cases "held c")
    case None
    then obtain c' where "ch_try_send C c m = Inr c'" "held c' = Some m"
      using C unfolding channel_ok_def by blast
    then show ?thesis by (simp add: send_latest_def)
  next
    case (Some x)
    then have full: "ch_try_send C c m = Inl m" using C unfolding channel_ok_def by blast
    obtain c' where c': "ch_try_receive C c = Some (x, c')" "held c' = None"
      using C Some unfolding channel_ok_def by blast
    then obtain c'' where "ch_try_send C c' m = Inr c''" "held c'' = Some m"
      using C unfolding channel_ok_def by blast
    then show ?thesis using full c' by (simp add: send_latest_def)
  qed
qed

text \<open>The statics of the module: the state, the port shown, the address shown, the channels.\<close>

record ('m, 't) net_statics =
  ns_state :: shared_state
  ns_port :: "u16 option"
  ns_station :: "u8 list option"
  ns_manifests :: 'm
  ns_topics :: 't

definition set_web_server :: "bool \<Rightarrow> u16 \<Rightarrow> ('m, 't) net_statics \<Rightarrow> ('m, 't) net_statics" where
  "set_web_server enabled port n = n\<lparr>ns_port := (if enabled then Some port else None)\<rparr>"

definition update_daemon_version :: "software_version \<Rightarrow> ('m, 't) net_statics \<Rightarrow> ('m, 't) net_statics" where
  "update_daemon_version v n = n\<lparr>ns_state := (ns_state n)\<lparr>sh_daemon_version := Some v\<rparr>\<rparr>"

definition update_snapshot :: "health_snapshot \<Rightarrow> time \<Rightarrow> ('m, 't) net_statics \<Rightarrow> ('m, 't) net_statics" where
  "update_snapshot s now n = n\<lparr>ns_state := (ns_state n)\<lparr>sh_snapshot := Some s, sh_last_update := Some now\<rparr>\<rparr>"

definition update_filesystem_labels :: "display_label list \<Rightarrow> ('m, 't) net_statics \<Rightarrow> ('m, 't) net_statics" where
  "update_filesystem_labels ls n = n\<lparr>ns_state := (ns_state n)\<lparr>sh_labels := ls\<rparr>\<rparr>"

definition update_manifest ::
  "('m, network_config) channel_api \<Rightarrow> network_config \<Rightarrow> ('m, 't) net_statics \<Rightarrow> ('m, 't) net_statics" where
  "update_manifest C m n = (let n1 = set_web_server (hc_enabled (net_http m)) (hc_port (net_http m)) n in
     if sh_manifest (ns_state n1) = Some m then n1
     else n1\<lparr>ns_state := (ns_state n1)\<lparr>sh_manifest := Some m\<rparr>, ns_manifests := send_latest C m (ns_manifests n1)\<rparr>)"

text \<open>\<open>start\<close>, up to the spawned tasks: what the flash holds unless provisioning is forced. The
  branch tells whether the station or the provisioning tasks run, the latter with a random topic.\<close>

definition hex_lower :: "nat \<Rightarrow> char" where
  "hex_lower d = char_of (if d < 10 then 48 + d else 87 + d)"

text \<open>The format \<open>{:08x}\<close> of a \<open>u32\<close>.\<close>

definition hex8 :: "u32 \<Rightarrow> str" where
  "hex8 w = map (\<lambda>i. hex_lower (unat w div 16 ^ i mod 16)) (rev [0..<8])"

definition random_ntfy_topic :: "u32 \<Rightarrow> u32 \<Rightarrow> u32 \<Rightarrow> u32 \<Rightarrow> str" where
  "random_ntfy_topic a b c d = ''servatory-'' @ hex8 a @ hex8 b @ hex8 c @ hex8 d"

definition start :: "bool \<Rightarrow> stored_settings option \<Rightarrow> ('m, 't) net_statics \<Rightarrow> bool \<times> ('m, 't) net_statics" where
  "start force_provisioning loaded n = (case (if force_provisioning then None else loaded) of
     Some settings \<Rightarrow>
       let n1 = (case ss_network settings of
           Some m \<Rightarrow> set_web_server (hc_enabled (net_http m)) (hc_port (net_http m)) n | None \<Rightarrow> n)
       in (True, n1\<lparr>ns_state := (ns_state n1)\<lparr>sh_manifest := ss_network settings,
             sh_topic := Some (pv_topic (ss_provisioning settings))\<rparr>\<rparr>)
   | None \<Rightarrow> (False, n))"

text \<open>\<open>address_tracker\<close>: the stack's address comes up (or is up without one) and goes down.\<close>

datatype address_event = ConfigUp "u8 list option" | ConfigDown

fun address_tracker :: "address_event \<Rightarrow> ('m, 't) net_statics \<Rightarrow> ('m, 't) net_statics" where
  "address_tracker (ConfigUp a) n = n\<lparr>ns_state := (ns_state n)\<lparr>sh_station_ipv4 := a\<rparr>, ns_station := a\<rparr>"
| "address_tracker ConfigDown n = n\<lparr>ns_state := (ns_state n)\<lparr>sh_station_ipv4 := None\<rparr>, ns_station := None\<rparr>"

text \<open>What one turn of \<open>http_server\<close> does: wait a second, or serve on the manifest's port.\<close>

definition http_listen :: "shared_state \<Rightarrow> u16 option" where
  "http_listen s = (case sh_manifest s of
     Some m \<Rightarrow> if hc_enabled (net_http m) then Some (hc_port (net_http m)) else None | None \<Rightarrow> None)"

section \<open>Incidents the device sees\<close>

definition snapshot_age :: "shared_state \<Rightarrow> time \<Rightarrow> time option" where
  "snapshot_age s now = map_option (\<lambda>updated. now - updated) (sh_last_update s)"

definition host_offline_incident :: incident where
  "host_offline_incident = incident_new (Stick HostOffline) Critical ''HOST CONNECTION LOST''"

definition active_incidents :: "shared_state \<Rightarrow> time \<Rightarrow> incident list" where
  "active_incidents s now = (let incidents = (case sh_snapshot s of Some h \<Rightarrow> hs_incidents h | None \<Rightarrow> []) in
     if is_none_or (\<lambda>age. age \<ge> host_stale_after) (snapshot_age s now) then host_offline_incident # incidents
     else incidents)"

definition notifiable_incidents :: "shared_state \<Rightarrow> time \<Rightarrow> incident list" where
  "notifiable_incidents s now =
     filter (\<lambda>i. sh_snapshot s \<noteq> None \<or> inc_id i \<noteq> Stick HostOffline) (active_incidents s now)"

section \<open>The topic stays valid, the newest manifest is stored\<close>

lemma hex_lower_class: "d < 16 \<Longrightarrow> is_alnum (hex_lower d)"
  by (auto simp: is_alnum_def hex_lower_def Let_def)

lemma hex8_class: "length (hex8 w) = 8" "list_all is_alnum (hex8 w)"
  by (simp_all add: hex8_def list_all_iff hex_lower_class)

text \<open>A generated topic never makes the stored settings invalid.\<close>

lemma random_topic_valid: "is_valid p \<Longrightarrow> is_valid (p\<lparr>pv_topic := random_ntfy_topic a b c d\<rparr>)"
proof -
  have "list_all (\<lambda>c. is_alnum c \<or> c = CHR ''-'' \<or> c = CHR ''_'') (hex8 w)" for w
    using hex8_class(2) by (auto simp: list_all_iff)
  then show "is_valid p \<Longrightarrow> ?thesis"
    by (simp add: is_valid_def random_ntfy_topic_def hex8_class is_alnum_def)
qed

lemma update_manifest_stored:
  "channel_ok C held \<Longrightarrow> sh_manifest (ns_state n) \<noteq> Some m
   \<Longrightarrow> held (ns_manifests (update_manifest C m n)) = Some m"
  by (simp add: update_manifest_def set_web_server_def Let_def send_latest_holds)

lemma http_follows_manifest:
  "http_listen (ns_state (update_manifest C m n)) = ns_port (update_manifest C m n)"
  by (auto simp: update_manifest_def set_web_server_def http_listen_def Let_def)

end
