(* ===== verification/Stick.thy ===== *)
theory Stick
  imports Framing Net_State
begin

text \<open>
  The main loop of the firmware (\<open>firmware/src/main.rs\<close>): the transmit queue, the button, the
  messages of the host, the link timeout, the shutdown gesture and the shutdown screens. One
  iteration is a function of what it reads: the clock, the USB activity flag, the received bytes,
  the button pin and how many bytes the USB peripheral takes. Drawing is its output. The queue type
  (\<open>heapless::Deque\<close>) is a record of its operations. Times are microseconds.
\<close>

section \<open>Constants\<close>

definition display_height :: u16 where "display_height = 135"
definition debounce :: time where "debounce = milli_us 30"
definition link_timeout :: time where "link_timeout = sec_us 15"
definition hello_interval :: time where "hello_interval = sec_us 1"
definition double_click_window :: time where "double_click_window = milli_us 200"
definition usb_activity_timeout :: time where "usb_activity_timeout = milli_us 250"
definition shutdown_spinner_interval :: time where "shutdown_spinner_interval = milli_us 250"
definition shutdown_report_timeout :: time where "shutdown_report_timeout = sec_us 3"
definition shutdown_usb_lost_confirm :: time where "shutdown_usb_lost_confirm = sec_us 2"

section \<open>States\<close>

datatype daemon_state = Waiting | Connected | Stale | Incompatible | PoweringOff

datatype button_action = NextScreen | ShutdownAction

datatype shutdown_display =
    Accepted
  | GuestsLeft u16 u16 \<comment> \<open>total, remaining\<close>
  | GuestsStopped
  | HostPoweroff u8 u16 \<comment> \<open>spinner, remaining\<close>
  | ReportingLost u16
  | ConnectionLost u16
  | ShutdownError shutdown_failure u16

fun shutdown_remaining :: "shutdown_display \<Rightarrow> u16" where
  "shutdown_remaining (GuestsLeft guests remaining) = remaining"
| "shutdown_remaining (HostPoweroff spinner remaining) = remaining"
| "shutdown_remaining (ReportingLost remaining) = remaining"
| "shutdown_remaining (ConnectionLost remaining) = remaining"
| "shutdown_remaining (ShutdownError reason remaining) = remaining"
| "shutdown_remaining Accepted = 0"
| "shutdown_remaining GuestsStopped = 0"

section \<open>The transmit queue\<close>

record ('q, 'a) deque_api =
  dq_empty :: 'q
  dq_push_back :: "'q \<Rightarrow> 'a \<Rightarrow> 'a + 'q" \<comment> \<open>a full queue gives the element back\<close>
  dq_pop_front :: "'q \<Rightarrow> ('a \<times> 'q) option"

record 'q usb_tx =
  tx_queue :: 'q
  tx_frame :: "u8 list"
  tx_len :: nat
  tx_cursor :: nat

definition usb_tx_new :: "('q, device_message) deque_api \<Rightarrow> 'q usb_tx" where
  "usb_tx_new D = \<lparr>tx_queue = dq_empty D, tx_frame = replicate max_device_frame_len 0, tx_len = 0, tx_cursor = 0\<rparr>"

definition enqueue :: "('q, device_message) deque_api \<Rightarrow> device_message \<Rightarrow> 'q usb_tx \<Rightarrow> 'q usb_tx" where
  "enqueue D m tx = (case dq_push_back D (tx_queue tx) m of
     Inr q \<Rightarrow> tx\<lparr>tx_queue := q\<rparr>
   | Inl m' \<Rightarrow> if m = ShutdownRequested then
       (let q1 = (case dq_pop_front D (tx_queue tx) of Some (_, q) \<Rightarrow> q | None \<Rightarrow> tx_queue tx) in
        (case dq_push_back D q1 m' of Inr q \<Rightarrow> tx\<lparr>tx_queue := q\<rparr> | Inl _ \<Rightarrow> tx\<lparr>tx_queue := q1\<rparr>))
     else tx)"

text \<open>\<open>poll\<close>: the bytes the peripheral takes, at most \<open>room\<close>.\<close>

definition poll_write :: "nat \<Rightarrow> 'q usb_tx \<Rightarrow> 'q usb_tx \<times> u8 list" where
  "poll_write room tx = (let n = min room (tx_len tx - tx_cursor tx); written = take n (drop (tx_cursor tx) (tx_frame tx)) in
     if tx_cursor tx + n < tx_len tx then (tx\<lparr>tx_cursor := tx_cursor tx + n\<rparr>, written)
     else (tx\<lparr>tx_len := 0, tx_cursor := 0\<rparr>, written))"

definition poll ::
  "('q, device_message) deque_api \<Rightarrow> (device_message \<Rightarrow> nat \<Rightarrow> u8 list option) \<Rightarrow> nat \<Rightarrow> 'q usb_tx \<Rightarrow> 'q usb_tx \<times> u8 list" where
  "poll D ser room tx =
     (if tx_cursor tx = tx_len tx then
        (case dq_pop_front D (tx_queue tx) of
           None \<Rightarrow> (tx, [])
         | Some (m, q) \<Rightarrow>
             (case encode ser m max_device_frame_len of
                Inl _ \<Rightarrow> (tx\<lparr>tx_queue := q\<rparr>, [])
              | Inr frame \<Rightarrow> poll_write room (tx\<lparr>tx_queue := q,
                    tx_frame := frame @ drop (length frame) (tx_frame tx), tx_len := length frame, tx_cursor := 0\<rparr>)))
      else poll_write room tx)"

definition device_hello :: "str \<Rightarrow> handshake_nonce option \<Rightarrow> device_message" where
  "device_hello version acknowledged = DeviceHello (SoftwareVersion version) acknowledged"

section \<open>The button\<close>

record button =
  bt_raw_pressed :: bool
  bt_raw_changed_at :: time
  bt_stable_pressed :: bool
  bt_pressed_at :: "time option"
  bt_long_press_sent :: bool

definition button_new :: "time \<Rightarrow> button" where
  "button_new now = \<lparr>bt_raw_pressed = False, bt_raw_changed_at = now, bt_stable_pressed = False,
     bt_pressed_at = None, bt_long_press_sent = False\<rparr>"

text \<open>The debouncing, with the action of a short press that has ended, and the long press.\<close>

definition button_settle :: "time \<Rightarrow> button \<Rightarrow> button \<times> button_action option" where
  "button_settle now b =
     (if bt_stable_pressed b \<noteq> bt_raw_pressed b \<and> now - bt_raw_changed_at b \<ge> debounce then
        (let b1 = b\<lparr>bt_stable_pressed := bt_raw_pressed b\<rparr> in
         if bt_raw_pressed b then (b1\<lparr>bt_pressed_at := Some now, bt_long_press_sent := False\<rparr>, None)
         else (b1\<lparr>bt_pressed_at := None\<rparr>, if bt_long_press_sent b then None else Some NextScreen))
      else (b, None))"

definition button_long :: "time \<Rightarrow> time \<Rightarrow> button \<Rightarrow> button \<times> button_action option" where
  "button_long now long_press b =
     (if bt_stable_pressed b \<and> \<not> bt_long_press_sent b \<and> is_some_and (\<lambda>started. now - started \<ge> long_press) (bt_pressed_at b)
      then (b\<lparr>bt_long_press_sent := True\<rparr>, Some ShutdownAction) else (b, None))"

definition button_update :: "bool \<Rightarrow> time \<Rightarrow> time \<Rightarrow> button \<Rightarrow> button \<times> button_action option" where
  "button_update pressed now long_press b =
     (if pressed \<noteq> bt_raw_pressed b then (b\<lparr>bt_raw_pressed := pressed, bt_raw_changed_at := now\<rparr>, None)
      else (case button_settle now b of
          (b1, Some action) \<Rightarrow> (b1, Some action)
        | (b1, None) \<Rightarrow> button_long now long_press b1))"

definition held_for :: "time \<Rightarrow> button \<Rightarrow> time option" where
  "held_for now b = (if bt_stable_pressed b \<and> \<not> bt_long_press_sent b
     then map_option (\<lambda>started. now - started) (bt_pressed_at b) else None)"

text \<open>\<open>u64\<close> milliseconds; the height that \<open>u16::try_from\<close> converts is at most 135.\<close>

definition shutdown_progress_height :: "time \<Rightarrow> time \<Rightarrow> time \<Rightarrow> u16" where
  "shutdown_progress_height held animation_delay hold_time = (let
       elapsed = us_millis held - us_millis animation_delay;
       animation_duration = max (us_millis hold_time - us_millis animation_delay) 1;
       height = min (elapsed * unat display_height) (2 ^ 64 - 1) div animation_duration
     in unwrap_or display_height (try_word (min height (unat display_height))))"

section \<open>The main loop\<close>

record ('q, 'm, 't) stick =
  sk_daemon :: daemon_state
  sk_usb_connected :: bool
  sk_last_usb_activity :: "time option"
  sk_last_update :: "time option"
  sk_snapshot :: "health_snapshot option"
  sk_page :: nat
  sk_config :: display_config
  sk_animating :: bool
  sk_animation_height :: u16
  sk_shutdown :: shutdown_display
  sk_last_spinner :: time
  sk_usb_lost_since :: "time option"
  sk_last_hello :: "time option"
  sk_last_click :: "time option"
  sk_session :: "handshake_nonce option"
  sk_about :: bool
  sk_button :: button
  sk_tx :: "'q usb_tx"
  sk_decoder :: frame_decoder
  sk_net :: "('m, 't) net_statics"
  sk_render :: bool \<comment> \<open>\<open>render_pending\<close> of the iteration\<close>

text \<open>The crates and the build the loop depends on.\<close>

record ('q, 'm) board =
  bd_deque :: "('q, device_message) deque_api"
  bd_ser :: "device_message \<Rightarrow> nat \<Rightarrow> u8 list option"
  bd_de :: "u8 list \<Rightarrow> host_message option"
  bd_cobs :: "u8 list \<Rightarrow> u8 list option"
  bd_manifests :: "('m, network_config) channel_api"
  bd_version :: str

definition stick_new :: "('q, 'm) board \<Rightarrow> time \<Rightarrow> ('m, 't) net_statics \<Rightarrow> ('q, 'm, 't) stick" where
  "stick_new B now net = \<lparr>sk_daemon = Waiting, sk_usb_connected = False, sk_last_usb_activity = None,
     sk_last_update = None, sk_snapshot = None, sk_page = 0, sk_config = display_config_default,
     sk_animating = False, sk_animation_height = 0, sk_shutdown = Accepted, sk_last_spinner = now,
     sk_usb_lost_since = None, sk_last_hello = None, sk_last_click = None, sk_session = None, sk_about = False,
     sk_button = button_new now,
     sk_tx = enqueue (bd_deque B) (device_hello (bd_version B) None) (usb_tx_new (bd_deque B)),
     sk_decoder = decoder_new max_host_frame_len, sk_net = net, sk_render = False\<rparr>"

definition send :: "('q, 'm) board \<Rightarrow> device_message \<Rightarrow> ('q, 'm, 't) stick \<Rightarrow> ('q, 'm, 't) stick" where
  "send B m sk = sk\<lparr>sk_tx := enqueue (bd_deque B) m (sk_tx sk)\<rparr>"

definition hello_step :: "('q, 'm) board \<Rightarrow> time \<Rightarrow> ('q, 'm, 't) stick \<Rightarrow> ('q, 'm, 't) stick" where
  "hello_step B now sk =
     (if sk_daemon sk \<noteq> Connected \<and> sk_daemon sk \<noteq> PoweringOff
         \<and> is_none_or (\<lambda>sent. now - sent \<ge> hello_interval) (sk_last_hello sk)
      then (send B (device_hello (bd_version B) (sk_session sk)) sk)\<lparr>sk_last_hello := Some now\<rparr> else sk)"

text \<open>\<open>poll_usb_connection\<close> with the interrupt flag read, and the redraw it may ask for.\<close>

definition poll_usb_connection :: "bool \<Rightarrow> time \<Rightarrow> time option \<Rightarrow> bool \<times> time option" where
  "poll_usb_connection sof now last_activity = (let activity = (if sof then Some now else last_activity) in
     (is_some_and (\<lambda>a. now - a < usb_activity_timeout) activity, activity))"

definition usb_step :: "bool \<Rightarrow> time \<Rightarrow> ('q, 'm, 't) stick \<Rightarrow> ('q, 'm, 't) stick" where
  "usb_step sof now sk = (let (connected, activity) = poll_usb_connection sof now (sk_last_usb_activity sk) in
     sk\<lparr>sk_usb_connected := connected, sk_last_usb_activity := activity,
        sk_render := sk_render sk \<or> (connected \<noteq> sk_usb_connected sk \<and> sk_daemon sk = Waiting \<and> \<not> sk_animating sk)\<rparr>)"

definition page_modulus :: "display_config \<Rightarrow> nat" where
  "page_modulus config = max (length (dc_pages config)) 1"

text \<open>The message arms that need a session.\<close>

fun handle_session_message ::
  "('q, 'm) board \<Rightarrow> time \<Rightarrow> host_message \<Rightarrow> ('q, 'm, 't) stick \<Rightarrow> ('q, 'm, 't) stick" where
  "handle_session_message B now (HealthSnapshot s) sk =
     sk\<lparr>sk_last_update := Some now, sk_net := update_snapshot s now (sk_net sk), sk_snapshot := Some s,
        sk_daemon := Connected, sk_render := True\<rparr>"
| "handle_session_message B now ShutdownAccepted sk =
     sk\<lparr>sk_last_update := Some now, sk_usb_lost_since := None, sk_daemon := PoweringOff, sk_shutdown := Accepted, sk_render := True\<rparr>"
| "handle_session_message B now (ShutdownProgress phase guests remaining) sk =
     (case phase of
        PreparingGuests \<Rightarrow> sk\<lparr>sk_shutdown := Accepted\<rparr>
      | StoppingGuests \<Rightarrow> sk\<lparr>sk_shutdown := GuestsLeft guests remaining\<rparr>
      | PhaseGuestsStopped \<Rightarrow> sk\<lparr>sk_shutdown := GuestsStopped\<rparr>
      | PhasePoweringOff \<Rightarrow> sk\<lparr>sk_shutdown := HostPoweroff 0 remaining, sk_last_spinner := now\<rparr>)
     \<lparr>sk_last_update := Some now, sk_usb_lost_since := None, sk_daemon := PoweringOff, sk_render := True\<rparr>"
| "handle_session_message B now (ShutdownFailed reason remaining) sk =
     sk\<lparr>sk_daemon := PoweringOff, sk_shutdown := ShutdownError reason remaining, sk_render := True\<rparr>"
| "handle_session_message B now (DisplayConfigMsg config) sk =
     sk\<lparr>sk_net := update_filesystem_labels (dc_labels config) (sk_net sk), sk_config := config,
        sk_page := sk_page sk mod page_modulus config, sk_render := True\<rparr>"
| "handle_session_message B now (NetworkConfigMsg config) sk =
     sk\<lparr>sk_net := update_manifest (bd_manifests B) config (sk_net sk)\<rparr>"
| "handle_session_message B now (HostHello version session) sk = sk"

definition handle_host_message ::
  "('q, 'm) board \<Rightarrow> time \<Rightarrow> protocol_error + host_message \<Rightarrow> ('q, 'm, 't) stick \<Rightarrow> ('q, 'm, 't) stick" where
  "handle_host_message B now msg sk = (case msg of
     Inr (HostHello version session) \<Rightarrow>
       (send B (device_hello (bd_version B) (Some session))
          (sk\<lparr>sk_daemon := Waiting, sk_last_update := None, sk_session := Some session,
             sk_net := update_daemon_version version (sk_net sk),
             sk_config := (sk_config sk)\<lparr>dc_daemon_version := version\<rparr>\<rparr>))\<lparr>sk_render := True\<rparr>
   | Inr m \<Rightarrow> if sk_session sk = None then sk else handle_session_message B now m sk
   | Inl (UnsupportedVersion v) \<Rightarrow> sk\<lparr>sk_daemon := Incompatible, sk_render := True\<rparr>
   | Inl _ \<Rightarrow> sk)"

text \<open>The received bytes; \<open>None\<close> is a panic of the decoder.\<close>

fun read_usb :: "('q, 'm) board \<Rightarrow> time \<Rightarrow> u8 list \<Rightarrow> ('q, 'm, 't) stick \<Rightarrow> ('q, 'm, 't) stick option" where
  "read_usb B now [] sk = Some sk"
| "read_usb B now (b # bs) sk = (case push max_host_frame_len (sk_decoder sk) b of
     None \<Rightarrow> None
   | Some (d, Some (Inr frame)) \<Rightarrow>
       read_usb B now bs (handle_host_message B now (decode (bd_de B) (bd_cobs B) frame) (sk\<lparr>sk_decoder := d\<rparr>))
   | Some (d, _) \<Rightarrow> read_usb B now bs (sk\<lparr>sk_decoder := d\<rparr>))"

definition timeout_step :: "time \<Rightarrow> ('q, 'm, 't) stick \<Rightarrow> ('q, 'm, 't) stick" where
  "timeout_step now sk =
     (if sk_daemon sk = Connected \<and> is_some_and (\<lambda>updated. now - updated \<ge> link_timeout) (sk_last_update sk)
      then sk\<lparr>sk_daemon := Stale, sk_session := None, sk_render := True\<rparr> else sk)"

section \<open>The button in the loop\<close>

datatype draw =
    DrawProgress u16 u16 bool \<comment> \<open>previous height, height, clear\<close>
  | DrawScreen bool daemon_state nat "health_snapshot option" display_config shutdown_display bool

definition next_page :: "('q, 'm, 't) stick \<Rightarrow> nat" where
  "next_page sk = (sk_page sk + 1) mod page_modulus (sk_config sk)"

text \<open>A short press: it cancels a running shutdown animation, leaves or (by a double click) opens
  the about page, or turns the page.\<close>

definition short_press :: "time \<Rightarrow> ('q, 'm, 't) stick \<Rightarrow> ('q, 'm, 't) stick" where
  "short_press now sk =
     (if sk_animating sk then sk
      else if sk_about sk then sk\<lparr>sk_about := False, sk_last_click := None\<rparr>
      else if is_some_and (\<lambda>clicked. now - clicked \<le> double_click_window) (sk_last_click sk)
        then sk\<lparr>sk_about := True, sk_last_click := None\<rparr>
      else sk\<lparr>sk_page := next_page sk, sk_last_click := Some now\<rparr>)
     \<lparr>sk_animating := False, sk_animation_height := 0, sk_render := True\<rparr>"

definition long_press_done :: "('q, 'm) board \<Rightarrow> ('q, 'm, 't) stick \<Rightarrow> ('q, 'm, 't) stick \<times> draw list" where
  "long_press_done B sk = (let
       drawn = (if sk_daemon sk = Connected then [DrawProgress (sk_animation_height sk) display_height (\<not> sk_animating sk)] else []);
       sk1 = sk\<lparr>sk_last_click := None, sk_render := sk_render sk \<or> (sk_daemon sk \<noteq> Connected \<and> sk_animating sk),
         sk_animating := False, sk_animation_height := 0\<rparr>
     in (if sk_daemon sk1 = Connected then send B ShutdownRequested sk1 else sk1, drawn))"

definition shutdown_hold :: "display_config \<Rightarrow> time" where
  "shutdown_hold config = milli_us (unat (dc_hold_ms config))"

definition animation_delay :: "display_config \<Rightarrow> time" where
  "animation_delay config = milli_us (unat (dc_delay_ms config))"

definition button_step ::
  "('q, 'm) board \<Rightarrow> bool \<Rightarrow> time \<Rightarrow> ('q, 'm, 't) stick \<Rightarrow> ('q, 'm, 't) stick \<times> draw list" where
  "button_step B low now sk0 = (let
       hold = shutdown_hold (sk_config sk0); delay = animation_delay (sk_config sk0);
       (b, action) = button_update low now hold (sk_button sk0);
       sk = sk0\<lparr>sk_button := b\<rparr>
     in case action of
          Some NextScreen \<Rightarrow> (short_press now sk, [])
        | Some ShutdownAction \<Rightarrow> long_press_done B sk
        | None \<Rightarrow>
            if sk_daemon sk = Connected \<and> is_some_and (\<lambda>held. held \<ge> delay) (held_for now b) then
              (let height = shutdown_progress_height (the (held_for now b)) delay hold in
               (sk\<lparr>sk_animating := True, sk_animation_height := height\<rparr>,
                [DrawProgress (sk_animation_height sk) height (\<not> sk_animating sk)]))
            else if sk_animating sk then (sk\<lparr>sk_animating := False, sk_animation_height := 0, sk_render := True\<rparr>, [])
            else (sk, []))"

section \<open>The shutdown screens\<close>

fun is_error :: "shutdown_display \<Rightarrow> bool" where
  "is_error (ShutdownError r n) = True"
| "is_error _ = False"

fun is_connection_lost :: "shutdown_display \<Rightarrow> bool" where
  "is_connection_lost (ConnectionLost n) = True"
| "is_connection_lost _ = False"

fun is_reporting_lost :: "shutdown_display \<Rightarrow> bool" where
  "is_reporting_lost (ReportingLost n) = True"
| "is_reporting_lost _ = False"

definition usb_lost_step :: "time \<Rightarrow> ('q, 'm, 't) stick \<Rightarrow> ('q, 'm, 't) stick" where
  "usb_lost_step now sk =
     (if sk_daemon sk = PoweringOff \<and> \<not> is_error (sk_shutdown sk) \<and> \<not> is_connection_lost (sk_shutdown sk) then
        (if sk_usb_connected sk then sk\<lparr>sk_usb_lost_since := None\<rparr>
         else let lost_since = unwrap_or now (sk_usb_lost_since sk); sk1 = sk\<lparr>sk_usb_lost_since := Some lost_since\<rparr> in
           if now - lost_since \<ge> shutdown_usb_lost_confirm
           then sk1\<lparr>sk_shutdown := ConnectionLost (shutdown_remaining (sk_shutdown sk1)), sk_render := True\<rparr> else sk1)
      else if sk_daemon sk \<noteq> PoweringOff then sk\<lparr>sk_usb_lost_since := None\<rparr>
      else sk)"

definition report_lost_step :: "time \<Rightarrow> ('q, 'm, 't) stick \<Rightarrow> ('q, 'm, 't) stick" where
  "report_lost_step now sk =
     (if sk_daemon sk = PoweringOff \<and> \<not> is_reporting_lost (sk_shutdown sk) \<and> \<not> is_connection_lost (sk_shutdown sk)
         \<and> \<not> is_error (sk_shutdown sk)
         \<and> is_some_and (\<lambda>updated. now - updated \<ge> shutdown_report_timeout) (sk_last_update sk)
      then sk\<lparr>sk_shutdown := ReportingLost (shutdown_remaining (sk_shutdown sk)), sk_render := True\<rparr> else sk)"

definition spinner_step :: "time \<Rightarrow> ('q, 'm, 't) stick \<Rightarrow> ('q, 'm, 't) stick" where
  "spinner_step now sk =
     (if sk_daemon sk = PoweringOff \<and> now - sk_last_spinner sk \<ge> shutdown_spinner_interval then
        (case sk_shutdown sk of
           HostPoweroff spinner remaining \<Rightarrow>
             sk\<lparr>sk_shutdown := HostPoweroff ((spinner + 1) mod 4) remaining, sk_last_spinner := now, sk_render := True\<rparr>
         | _ \<Rightarrow> sk)
      else sk)"

section \<open>One iteration\<close>

record inputs =
  in_now :: time
  in_sof :: bool
  in_bytes :: "u8 list"
  in_low :: bool \<comment> \<open>the button pin\<close>
  in_room :: nat \<comment> \<open>bytes the USB peripheral takes\<close>

definition screen_of :: "('q, 'm, 't) stick \<Rightarrow> draw" where
  "screen_of sk = DrawScreen (sk_usb_connected sk) (sk_daemon sk) (sk_page sk) (sk_snapshot sk) (sk_config sk) (sk_shutdown sk) (sk_about sk)"

text \<open>An iteration up to the transmission, with the drawings, and the whole of it with the bytes
  sent; \<open>None\<close> is a panic.\<close>

definition stick_update ::
  "('q, 'm) board \<Rightarrow> inputs \<Rightarrow> ('q, 'm, 't) stick \<Rightarrow> (('q, 'm, 't) stick \<times> draw list) option" where
  "stick_update B i sk0 = (let now = in_now i in
     case read_usb B now (in_bytes i) (usb_step (in_sof i) now (hello_step B now (sk0\<lparr>sk_render := False\<rparr>))) of
       None \<Rightarrow> None
     | Some sk1 \<Rightarrow>
         (let (sk2, drawn) = button_step B (in_low i) now (timeout_step now sk1);
              sk3 = spinner_step now (report_lost_step now (usb_lost_step now sk2))
          in Some (sk3, drawn @ (if sk_render sk3 \<and> \<not> sk_animating sk3 then [screen_of sk3] else []))))"

definition stick_step ::
  "('q, 'm) board \<Rightarrow> inputs \<Rightarrow> ('q, 'm, 't) stick \<Rightarrow> (('q, 'm, 't) stick \<times> draw list \<times> u8 list) option" where
  "stick_step B i sk0 = (case stick_update B i sk0 of
     None \<Rightarrow> None
   | Some (sk3, drawn) \<Rightarrow> (let (tx, written) = poll (bd_deque B) (bd_ser B) (in_room i) (sk_tx sk3)
       in Some (sk3\<lparr>sk_tx := tx\<rparr>, drawn, written)))"

fun stick_run :: "('q, 'm) board \<Rightarrow> inputs list \<Rightarrow> ('q, 'm, 't) stick \<Rightarrow> ('q, 'm, 't) stick option" where
  "stick_run B [] sk = Some sk"
| "stick_run B (i # is) sk = (case stick_step B i sk of None \<Rightarrow> None | Some (sk', _, _) \<Rightarrow> stick_run B is sk')"

end
