(* ===== verification/Stick_Props.thy ===== *)
theory Stick_Props
  imports Stick
begin

text \<open>
  What the main loop of the firmware guarantees: what a long press is, an invariant of every
  reachable state, when a shutdown is requested, and that the shutdown screens do not hang.
\<close>

section \<open>The height of the progress bar\<close>

lemma progress_height_value:
  "unat (shutdown_progress_height held delay hold) =
     min (min ((us_millis held - us_millis delay) * 135) (2 ^ 64 - 1) div max (us_millis hold - us_millis delay) 1) 135"
  by (simp add: shutdown_progress_height_def display_height_def Let_def try_word_def unat_of_nat_small)

lemma progress_height_le: "shutdown_progress_height held delay hold \<le> display_height"
  unfolding word_le_nat_alt progress_height_value by (simp add: display_height_def)

text \<open>The progress bar: it never exceeds the display, is empty at the end of the animation
  delay, grows with the time the button is held, and is full exactly from the hold time on, for every
  pair of times a validated configuration can have.\<close>

lemma progress_bar:
  assumes "delay < hold"
  shows "(\<forall>held. shutdown_progress_height held (milli_us delay) (milli_us hold) \<le> display_height)
    \<and> shutdown_progress_height (milli_us delay) (milli_us delay) (milli_us hold) = 0
    \<and> mono (\<lambda>held. unat (shutdown_progress_height held (milli_us delay) (milli_us hold)))
    \<and> (\<forall>held < 2 ^ 56. shutdown_progress_height held (milli_us delay) (milli_us hold) = display_height \<longleftrightarrow> milli_us hold \<le> held)"
proof -
  let ?f = "\<lambda>held. shutdown_progress_height held (milli_us delay) (milli_us hold)"
  have ms: "us_millis (milli_us k) = k" "k \<le> us_millis x \<longleftrightarrow> milli_us k \<le> x" for k x
    by (simp_all add: us_millis_def milli_us_def less_eq_div_iff_mult_less_eq)
  have f: "unat (?f held) = min (min ((us_millis held - delay) * 135) (2 ^ 64 - 1) div (hold - delay)) 135" for held
    using max_absorb1 [of 1 "hold - delay"] assms by (simp only: progress_height_value ms)
  have "us_millis a \<le> us_millis b" if "a \<le> b" for a b using that by (simp add: us_millis_def div_le_mono)
  then have "mono (\<lambda>held. unat (?f held))"
    unfolding f by (intro monoI min.mono div_le_mono mult_le_mono1 diff_le_mono) simp_all
  moreover have "?f (milli_us delay) = 0"
    using f [of "milli_us delay"] by (simp add: ms unat_eq_zero)
  moreover have "?f held = display_height \<longleftrightarrow> milli_us hold \<le> held" if "held < 2 ^ 56" for held
  proof -
    have full: "min x 135 = 135 \<longleftrightarrow> 135 \<le> x" for x :: nat by (simp add: min_def)
    have "(us_millis held - delay) * 135 \<le> 2 ^ 64 - 1" using that by (simp add: us_millis_def)
    then have "?f held = display_height \<longleftrightarrow> 135 * (hold - delay) \<le> (us_millis held - delay) * 135"
      using assms full [of "(us_millis held - delay) * 135 div (hold - delay)"] less_eq_div_iff_mult_less_eq [of "hold - delay" 135]
      by (simp add: word_unat_eq_iff f display_height_def min_absorb1)
    also have "\<dots> \<longleftrightarrow> hold \<le> us_millis held" using assms by auto
    finally show ?thesis by (simp add: ms)
  qed
  ultimately show ?thesis using progress_height_le by blast
qed

lemma progress_bar_example:
  "(\<forall>held. shutdown_progress_height held (milli_us 200) (milli_us 3000) \<le> display_height)
    \<and> shutdown_progress_height (milli_us 3000) (milli_us 200) (milli_us 3000) = display_height"
  using progress_bar [of 200 3000] by (auto simp: milli_us_def)

section \<open>A long press\<close>

text \<open>The history of the pin, newest first. A press is held when, since it was recognised, no
  release was observed for as long as the debouncing time.\<close>

type_synonym pin_history = "(time \<times> bool) list"

definition releases_short :: "pin_history \<Rightarrow> bool" where
  "releases_short h = (\<forall>xs r ys. h = xs @ r @ ys \<longrightarrow> r \<noteq> [] \<longrightarrow> (\<forall>x \<in> set r. \<not> snd x)
     \<longrightarrow> fst (hd r) - fst (last r) < debounce)"

definition held_down :: "pin_history \<Rightarrow> time \<Rightarrow> bool" where
  "held_down h duration = (\<exists>t h1 h2. h = h1 @ (t, True) # h2 \<and> releases_short h1 \<and> h \<noteq> []
     \<and> fst (hd h) - t \<ge> duration)"

definition button_inv :: "pin_history \<Rightarrow> button \<Rightarrow> bool" where
  "button_inv h b = (bt_raw_pressed b = (h \<noteq> [] \<and> snd (hd h))
     \<and> (h \<noteq> [] \<longrightarrow> bt_raw_changed_at b \<le> fst (hd h))
     \<and> (\<not> bt_raw_pressed b \<longrightarrow> (\<forall>x \<in> set (takeWhile (\<lambda>x. \<not> snd x) h). bt_raw_changed_at b \<le> fst x))
     \<and> (bt_stable_pressed b \<longrightarrow> (\<exists>t h1 h2. bt_pressed_at b = Some t \<and> h = h1 @ (t, True) # h2 \<and> releases_short h1
         \<and> (\<not> bt_raw_pressed b \<longrightarrow> fst (hd h) - bt_raw_changed_at b < debounce))))"

lemma debounce_pos [simp]: "0 < debounce"
  by (simp add: debounce_def milli_us_def)

lemma releases_short_Nil [simp]: "releases_short []"
  by (simp add: releases_short_def)

text \<open>One more observation: the releases that end with it have to be short.\<close>

lemma releases_short_Cons:
  assumes "releases_short h"
    and "\<And>r ys. (now, p) # h = r @ ys \<Longrightarrow> r \<noteq> [] \<Longrightarrow> \<forall>x \<in> set r. \<not> snd x \<Longrightarrow> now - fst (last r) < debounce"
  shows "releases_short ((now, p) # h)"
  unfolding releases_short_def
proof (intro allI impI)
  fix xs r ys
  assume split: "(now, p) # h = xs @ r @ ys" "r \<noteq> []" "\<forall>x \<in> set r. \<not> snd x"
  show "fst (hd r) - fst (last r) < debounce"
  proof (cases xs)
    case Nil
    then have "hd r = (now, p)" using split by (cases r) auto
    then show ?thesis using assms(2) [of r ys] split Nil by simp
  next
    case (Cons x xs')
    then have "h = xs' @ r @ ys" using split(1) by simp
    then show ?thesis using assms(1) split unfolding releases_short_def by blast
  qed
qed

lemma releases_short_pressed: "releases_short h \<Longrightarrow> releases_short ((now, True) # h)"
  by (rule releases_short_Cons) (auto simp: Cons_eq_append_conv)

lemma button_new_inv [simp]: "button_inv [] (button_new now)"
  by (simp add: button_inv_def button_new_def)

lemma button_new_changed_at [simp]: "bt_raw_changed_at (button_new now) = now"
  by (simp add: button_new_def)

lemma button_inv_sent [simp]: "button_inv h (b\<lparr>bt_long_press_sent := s\<rparr>) = button_inv h b"
  by (simp add: button_inv_def)

lemma button_inv_change:
  assumes "button_inv h b" "p \<noteq> bt_raw_pressed b"
  shows "button_inv ((now, p) # h) (b\<lparr>bt_raw_pressed := p, bt_raw_changed_at := now\<rparr>)"
proof -
  have run: "takeWhile (\<lambda>x. \<not> snd x) h = []" if "\<not> p"
    using assms that by (cases h) (auto simp: button_inv_def)
  have "\<exists>t h1 h2. bt_pressed_at b = Some t \<and> (now, p) # h = h1 @ (t, True) # h2 \<and> releases_short h1"
    if "bt_stable_pressed b"
  proof -
    from assms(1) that obtain t h1 h2 where h: "bt_pressed_at b = Some t" "h = h1 @ (t, True) # h2" "releases_short h1"
      unfolding button_inv_def by blast
    have "releases_short ((now, p) # h1)"
    proof (rule releases_short_Cons [OF h(3)])
      fix r ys
      assume r: "(now, p) # h1 = r @ ys" "r \<noteq> []" "\<forall>x \<in> set r. \<not> snd x"
      then have p: "\<not> p" by (cases r) auto
      then have "h1 \<noteq> [] \<longrightarrow> snd (hd h1)" using assms h(2) by (cases h1) (auto simp: button_inv_def)
      then have "r = [(now, p)]" using r by (cases r; cases "tl r") (auto simp: Cons_eq_append_conv)
      then show "now - fst (last r) < debounce" by simp
    qed
    then show ?thesis using h(1,2) by (metis append_Cons)
  qed
  then show ?thesis using run by (auto simp: button_inv_def)
qed

lemma button_inv_settle:
  assumes inv: "button_inv h b" and p: "p = bt_raw_pressed b" and now: "bt_raw_changed_at b \<le> now"
  shows "button_inv ((now, p) # h) (fst (button_settle now b))"
proof (cases "bt_stable_pressed b \<noteq> bt_raw_pressed b \<and> now - bt_raw_changed_at b \<ge> debounce")
  case True
  show ?thesis
  proof (cases p)
    case pressed: True
    then have "\<exists>h1 h2. (now, True) # h = h1 @ (now, True) # h2 \<and> releases_short h1"
      by (intro exI [of _ "[]"] exI [of _ h]) simp
    then show ?thesis using True p now pressed by (simp add: button_inv_def button_settle_def Let_def)
  next
    case False
    then show ?thesis using True p now inv by (auto simp: button_inv_def button_settle_def Let_def)
  qed
next
  case False
  then have settle: "fst (button_settle now b) = b" by (auto simp: button_settle_def)
  have run: "\<forall>x \<in> set (takeWhile (\<lambda>x. \<not> snd x) ((now, p) # h)). bt_raw_changed_at b \<le> fst x" if "\<not> p"
    using inv p that now by (auto simp: button_inv_def)
  have "\<exists>t h1 h2. bt_pressed_at b = Some t \<and> (now, p) # h = h1 @ (t, True) # h2 \<and> releases_short h1
      \<and> (\<not> bt_raw_pressed b \<longrightarrow> now - bt_raw_changed_at b < debounce)" if stable: "bt_stable_pressed b"
  proof -
    from inv stable obtain t h1 h2 where h: "bt_pressed_at b = Some t" "h = h1 @ (t, True) # h2" "releases_short h1"
      unfolding button_inv_def by blast
    have short: "now - bt_raw_changed_at b < debounce" if "\<not> p" using False that stable p by simp
    have "releases_short ((now, p) # h1)"
    proof (rule releases_short_Cons [OF h(3)])
      fix r ys
      assume r: "(now, p) # h1 = r @ ys" "r \<noteq> []" "\<forall>x \<in> set r. \<not> snd x"
      then have "\<not> p" by (cases r) auto
      have "last r \<in> set (takeWhile (\<lambda>x. \<not> snd x) (r @ ys @ (t, True) # h2))"
        using r(2,3) by (simp add: takeWhile_append)
      moreover have "r @ ys @ (t, True) # h2 = (now, p) # h" using r(1) h(2) by simp
      ultimately have "bt_raw_changed_at b \<le> fst (last r)" using run [OF \<open>\<not> p\<close>] by metis
      then show "now - fst (last r) < debounce" using short [OF \<open>\<not> p\<close>] by simp
    qed
    then show ?thesis using h(1,2) short p by (metis append_Cons)
  qed
  then show ?thesis using inv p now run unfolding settle button_inv_def by simp
qed

lemma button_update_inv:
  assumes "button_inv h b" "bt_raw_changed_at b \<le> now"
  shows "button_inv ((now, p) # h) (fst (button_update p now long_press b))"
proof (cases "p = bt_raw_pressed b")
  case True
  have settled: "button_inv ((now, p) # h) (fst (button_settle now b))"
    by (rule button_inv_settle [OF assms(1) True assms(2)])
  then show ?thesis
    using True by (auto simp: button_update_def button_long_def split: prod.splits option.splits)
next
  case False
  then show ?thesis using button_inv_change [OF assms(1) False] by (simp add: button_update_def)
qed

lemma button_update_changed_at: "bt_raw_changed_at b \<le> now \<Longrightarrow> bt_raw_changed_at (fst (button_update p now long_press b)) \<le> now"
  by (auto simp: button_update_def button_settle_def button_long_def Let_def split: option.splits if_splits)

lemma long_press_held:
  assumes "button_inv h b" "bt_raw_changed_at b \<le> now" "button_update p now long_press b = (b', Some ShutdownAction)"
  shows "held_down ((now, p) # h) long_press"
proof -
  have inv: "button_inv ((now, p) # h) b'" using button_update_inv [OF assms(1,2), of p long_press] assms(3) by simp
  have "bt_stable_pressed b' \<and> is_some_and (\<lambda>started. now - started \<ge> long_press) (bt_pressed_at b')"
    using assms(3) by (auto simp: button_update_def button_settle_def button_long_def Let_def split: if_splits)
  then obtain t where "bt_stable_pressed b'" "bt_pressed_at b' = Some t" "now - t \<ge> long_press"
    by (cases "bt_pressed_at b'") auto
  moreover from this obtain h1 h2 where "(now, p) # h = h1 @ (t, True) # h2" "releases_short h1"
    using inv unfolding button_inv_def by (metis option.inject)
  ultimately show ?thesis unfolding held_down_def by (metis list.distinct(1) list.sel(1) fst_conv)
qed

section \<open>The invariant of the loop\<close>

fun spinner_ok :: "shutdown_display \<Rightarrow> bool" where
  "spinner_ok (HostPoweroff spinner remaining) = (spinner < 4)"
| "spinner_ok _ = True"

definition stick_inv :: "('q, 'm, 't) stick \<Rightarrow> bool" where
  "stick_inv sk = ((sk_daemon sk = Connected \<longrightarrow> sk_session sk \<noteq> None \<and> sk_last_update sk \<noteq> None)
     \<and> (sk_daemon sk = PoweringOff \<and> \<not> is_error (sk_shutdown sk) \<longrightarrow> sk_last_update sk \<noteq> None)
     \<and> sk_page sk < page_modulus (sk_config sk) \<and> sk_animation_height sk \<le> display_height
     \<and> spinner_ok (sk_shutdown sk) \<and> decoder_ok max_host_frame_len (sk_decoder sk))"

lemma page_modulus_pos [simp]: "0 < page_modulus config"
  by (simp add: page_modulus_def)

lemma page_modulus_version [simp]: "page_modulus (config\<lparr>dc_daemon_version := v\<rparr>) = page_modulus config"
  by (simp add: page_modulus_def)

lemma send_inv [simp]: "stick_inv (send B m sk) = stick_inv sk"
  by (simp add: stick_inv_def send_def)

lemma frame_inv [simp]:
  "stick_inv (sk\<lparr>sk_render := r\<rparr>) = stick_inv sk"
  "stick_inv (sk\<lparr>sk_last_hello := lh\<rparr>) = stick_inv sk"
  "stick_inv (sk\<lparr>sk_usb_connected := c\<rparr>) = stick_inv sk"
  "stick_inv (sk\<lparr>sk_last_usb_activity := ua\<rparr>) = stick_inv sk"
  "stick_inv (sk\<lparr>sk_net := n\<rparr>) = stick_inv sk"
  "stick_inv (sk\<lparr>sk_button := b\<rparr>) = stick_inv sk"
  "stick_inv (sk\<lparr>sk_tx := tx\<rparr>) = stick_inv sk"
  "stick_inv (sk\<lparr>sk_usb_lost_since := ls\<rparr>) = stick_inv sk"
  "stick_inv (sk\<lparr>sk_last_click := lc\<rparr>) = stick_inv sk"
  "stick_inv (sk\<lparr>sk_about := a\<rparr>) = stick_inv sk"
  "stick_inv (sk\<lparr>sk_animating := an\<rparr>) = stick_inv sk"
  by (simp_all add: stick_inv_def)

lemma hello_step_inv [inv_step]: "stick_inv sk \<Longrightarrow> stick_inv (hello_step B now sk)"
  by (simp add: hello_step_def)

lemma usb_step_inv [inv_step]: "stick_inv sk \<Longrightarrow> stick_inv (usb_step sof now sk)"
  by (simp add: usb_step_def poll_usb_connection_def Let_def)

lemma handle_session_message_inv [inv_step]:
  assumes "stick_inv sk" "sk_session sk \<noteq> None"
  shows "stick_inv (handle_session_message B now m sk)"
proof (cases m)
  case (ShutdownProgress phase g r)
  then show ?thesis using assms by (cases phase) (auto simp: stick_inv_def)
qed (use assms in \<open>auto simp: stick_inv_def\<close>)

lemma handle_host_message_session:
  "(\<And>v s. m \<noteq> HostHello v s) \<Longrightarrow> handle_host_message B now (Inr m) sk =
     (if sk_session sk = None then sk else handle_session_message B now m sk)"
  by (cases m) (auto simp: handle_host_message_def)

lemma handle_host_message_inv [inv_step]:
  assumes "stick_inv sk" shows "stick_inv (handle_host_message B now msg sk)"
proof (cases msg)
  case (Inl e)
  then show ?thesis using assms by (cases e) (auto simp: handle_host_message_def stick_inv_def)
next
  case (Inr m)
  show ?thesis
  proof (cases "\<exists>v s. m = HostHello v s")
    case True
    then show ?thesis using assms Inr by (auto simp: handle_host_message_def) (simp_all add: stick_inv_def)
  next
    case False
    then show ?thesis using assms Inr handle_host_message_session [of m B now sk] by (auto intro: inv_step)
  qed
qed

lemma read_usb_inv:
  "stick_inv sk \<Longrightarrow> \<exists>sk'. read_usb B now bs sk = Some sk' \<and> stick_inv sk'"
proof (induction bs arbitrary: sk)
  case (Cons b bs)
  have "decoder_ok max_host_frame_len (sk_decoder sk)" using Cons.prems by (simp add: stick_inv_def)
  then obtain d out where push: "push max_host_frame_len (sk_decoder sk) b = Some (d, out)" "decoder_ok max_host_frame_len d"
    using push_ok by blast
  have inv: "stick_inv (sk\<lparr>sk_decoder := d\<rparr>)" using Cons.prems push(2) by (simp add: stick_inv_def)
  show ?case
    using Cons.IH [OF inv] Cons.IH [OF handle_host_message_inv [OF inv]]
    by (auto simp: push(1) split: option.split sum.split)
qed simp

lemma timeout_step_inv [inv_step]: "stick_inv sk \<Longrightarrow> stick_inv (timeout_step now sk)"
  by (auto simp: timeout_step_def stick_inv_def)

lemma short_press_inv [inv_step]: "stick_inv sk \<Longrightarrow> stick_inv (short_press now sk)"
  by (auto simp: short_press_def stick_inv_def next_page_def)

lemma long_press_done_inv [inv_step]: "stick_inv sk \<Longrightarrow> stick_inv (fst (long_press_done B sk))"
  by (simp add: long_press_done_def Let_def) (simp add: stick_inv_def)

lemma button_step_inv [inv_step]: "stick_inv sk \<Longrightarrow> stick_inv (fst (button_step B low now sk))"
proof -
  assume inv: "stick_inv sk"
  obtain b action where b: "button_update low now (shutdown_hold (sk_config sk)) (sk_button sk) = (b, action)" by fastforce
  have height: "stick_inv (sk'\<lparr>sk_animation_height := shutdown_progress_height x y z\<rparr>)"
    "stick_inv (sk'\<lparr>sk_animation_height := 0\<rparr>)" if "stick_inv sk'" for sk' :: "('a, 'b, 'c) stick" and x y z
    using that by (simp_all add: stick_inv_def progress_height_le)
  show ?thesis
  proof (cases action)
    case None
    then show ?thesis using inv by (auto simp: button_step_def b Let_def intro!: height)
  next
    case (Some a)
    then show ?thesis using inv by (cases a) (simp_all add: button_step_def b Let_def inv_step)
  qed
qed

lemma usb_lost_step_inv [inv_step]: "stick_inv sk \<Longrightarrow> stick_inv (usb_lost_step now sk)"
  by (auto simp: usb_lost_step_def Let_def) (auto simp: stick_inv_def)

lemma report_lost_step_inv [inv_step]: "stick_inv sk \<Longrightarrow> stick_inv (report_lost_step now sk)"
  by (auto simp: report_lost_step_def) (auto simp: stick_inv_def)

lemma spinner_next: "spinner < 4 \<Longrightarrow> (spinner + 1) mod 4 < (4 :: u8)"
  by (simp add: word_mod_less_divisor)

lemma spinner_step_inv [inv_step]: "stick_inv sk \<Longrightarrow> stick_inv (spinner_step now sk)"
  by (auto simp: spinner_step_def stick_inv_def spinner_next split: shutdown_display.split)

lemma stick_update_inv: "stick_inv sk \<Longrightarrow> \<exists>sk' drawn. stick_update B i sk = Some (sk', drawn) \<and> stick_inv sk'"
proof -
  assume "stick_inv sk"
  then have "stick_inv (usb_step (in_sof i) (in_now i) (hello_step B (in_now i) (sk\<lparr>sk_render := False\<rparr>)))"
    by (simp add: inv_step)
  then obtain sk1 where sk1: "read_usb B (in_now i) (in_bytes i)
      (usb_step (in_sof i) (in_now i) (hello_step B (in_now i) (sk\<lparr>sk_render := False\<rparr>))) = Some sk1" "stick_inv sk1"
    using read_usb_inv by blast
  have "stick_inv (fst (button_step B (in_low i) (in_now i) (timeout_step (in_now i) sk1)))"
    using sk1(2) by (intro inv_step)
  then show ?thesis
    by (auto simp: stick_update_def sk1(1) Let_def case_prod_beta intro!: inv_step)
qed

lemma stick_step_inv: "stick_inv sk \<Longrightarrow> \<exists>sk' drawn written. stick_step B i sk = Some (sk', drawn, written) \<and> stick_inv sk'"
  using stick_update_inv [of sk B i] by (auto simp: stick_step_def case_prod_beta)

lemma stick_new_inv [simp]: "stick_inv (stick_new B now net)"
  by (simp add: stick_inv_def stick_new_def decoder_new_ok)

lemma stick_run_inv: "stick_inv sk \<Longrightarrow> \<exists>sk'. stick_run B is sk = Some sk' \<and> stick_inv sk'"
proof (induction "is" arbitrary: sk)
  case (Cons i "is")
  obtain sk1 drawn written where "stick_step B i sk = Some (sk1, drawn, written)" "stick_inv sk1"
    using stick_step_inv [OF Cons.prems] by blast
  then show ?case using Cons.IH by simp
qed simp

section \<open>When a shutdown is requested\<close>

text \<open>What is documented of a queue with a fixed capacity.\<close>

definition deque_ok :: "nat \<Rightarrow> ('q, 'a) deque_api \<Rightarrow> ('q \<Rightarrow> 'a list) \<Rightarrow> bool" where
  "deque_ok capacity D items = (items (dq_empty D) = []
     \<and> (\<forall>q x. length (items q) < capacity \<longrightarrow> (\<exists>q'. dq_push_back D q x = Inr q' \<and> items q' = items q @ [x]))
     \<and> (\<forall>q x. \<not> length (items q) < capacity \<longrightarrow> dq_push_back D q x = Inl x)
     \<and> (\<forall>q. items q = [] \<longrightarrow> dq_pop_front D q = None)
     \<and> (\<forall>q x xs. items q = x # xs \<longrightarrow> (\<exists>q'. dq_pop_front D q = Some (x, q') \<and> items q' = xs)))"

lemma deque_push: "deque_ok n D items \<Longrightarrow> dq_push_back D q x = Inr q' \<Longrightarrow> items q' = items q @ [x]"
  unfolding deque_ok_def by (metis Inr_inject Inl_Inr_False)

lemma deque_pop: "deque_ok n D items \<Longrightarrow> dq_pop_front D q = Some (x, q') \<Longrightarrow> items q = x # items q'"
  unfolding deque_ok_def by (metis list.exhaust option.distinct(1) option.inject prod.inject)

lemma enqueue_items:
  assumes "deque_ok n D items"
  shows "set (items (tx_queue (enqueue D m tx))) \<subseteq> insert m (set (items (tx_queue tx)))"
proof (cases "dq_push_back D (tx_queue tx) m")
  case (Inr q)
  then show ?thesis using deque_push [OF assms Inr] by (simp add: enqueue_def)
next
  case (Inl m')
  have m: "m' = m" using assms Inl unfolding deque_ok_def by (metis Inl_inject Inl_Inr_False)
  show ?thesis
  proof (cases "dq_pop_front D (tx_queue tx)")
    case None
    then show ?thesis using Inl m by (auto simp: enqueue_def)
  next
    case (Some xq)
    obtain x q where x: "xq = (x, q)" by fastforce
    note pop = deque_pop [OF assms Some [unfolded x]]
    show ?thesis
      using Inl m pop Some x deque_push [OF assms, of q m]
      by (auto simp: enqueue_def Let_def split: sum.split)
  qed
qed

lemma enqueue_length:
  assumes "deque_ok n D items" "length (items (tx_queue tx)) \<le> n"
  shows "length (items (tx_queue (enqueue D m tx))) \<le> n"
proof (cases "dq_push_back D (tx_queue tx) m")
  case (Inr q)
  have "length (items (tx_queue tx)) < n"
  proof (rule ccontr)
    assume "\<not> length (items (tx_queue tx)) < n"
    then have "dq_push_back D (tx_queue tx) m = Inl m" using assms(1) unfolding deque_ok_def by blast
    with Inr show False by simp
  qed
  then show ?thesis using deque_push [OF assms(1) Inr] Inr by (simp add: enqueue_def)
next
  case (Inl m')
  show ?thesis
  proof (cases "dq_pop_front D (tx_queue tx)")
    case None
    have "m' = m" using assms(1) Inl unfolding deque_ok_def by (metis Inl_inject Inl_Inr_False)
    then show ?thesis using Inl None assms(2) by (auto simp: enqueue_def)
  next
    case (Some xq)
    obtain x q where x: "xq = (x, q)" by fastforce
    note pop = deque_pop [OF assms(1) Some [unfolded x]]
    show ?thesis
      using Inl pop Some x assms(2) deque_push [OF assms(1), of q m'] by (auto simp: enqueue_def Let_def split: sum.split)
  qed
qed

text \<open>A request put into the queue is there, also when the queue was full.\<close>

lemma enqueue_request:
  assumes "deque_ok n D items" "0 < n" "length (items (tx_queue tx)) \<le> n"
  shows "ShutdownRequested \<in> set (items (tx_queue (enqueue D ShutdownRequested tx)))"
proof (cases "length (items (tx_queue tx)) < n")
  case True
  then obtain q' where "dq_push_back D (tx_queue tx) ShutdownRequested = Inr q'" "items q' = items (tx_queue tx) @ [ShutdownRequested]"
    using assms unfolding deque_ok_def by blast
  then show ?thesis by (simp add: enqueue_def)
next
  case False
  then have full: "dq_push_back D (tx_queue tx) ShutdownRequested = Inl ShutdownRequested"
    using assms unfolding deque_ok_def by blast
  from False assms(2) obtain x xs where xs: "items (tx_queue tx) = x # xs" by (cases "items (tx_queue tx)") auto
  from xs obtain q where q: "dq_pop_front D (tx_queue tx) = Some (x, q)" "items q = xs"
    using assms unfolding deque_ok_def by blast
  have "length xs < n" using xs assms(3) by simp
  then obtain q' where "dq_push_back D q ShutdownRequested = Inr q'" "items q' = xs @ [ShutdownRequested]"
    using q(2) assms unfolding deque_ok_def by blast
  then show ?thesis using full q by (simp add: enqueue_def)
qed

text \<open>The steps that neither touch the button nor queue a request.\<close>

definition quiet :: "nat \<Rightarrow> ('q \<Rightarrow> device_message list) \<Rightarrow> ('q, 'm, 't) stick \<Rightarrow> ('q, 'm, 't) stick \<Rightarrow> bool" where
  "quiet n items sk sk' = (sk_button sk' = sk_button sk
     \<and> (ShutdownRequested \<in> set (items (tx_queue (sk_tx sk'))) \<longrightarrow> ShutdownRequested \<in> set (items (tx_queue (sk_tx sk))))
     \<and> (length (items (tx_queue (sk_tx sk))) \<le> n \<longrightarrow> length (items (tx_queue (sk_tx sk'))) \<le> n))"

lemma quiet_trans: "quiet n items a b \<Longrightarrow> quiet n items b c \<Longrightarrow> quiet n items a c"
  by (simp add: quiet_def)

lemma quiet_refl [simp]: "quiet n items a a"
  by (simp add: quiet_def)

lemma quiet_same: "sk_button sk' = sk_button sk \<Longrightarrow> sk_tx sk' = sk_tx sk \<Longrightarrow> quiet n items sk sk'"
  by (simp add: quiet_def)

lemma quiet_hello:
  "deque_ok n (bd_deque B) items \<Longrightarrow> m \<noteq> ShutdownRequested \<Longrightarrow> sk_button sk' = sk_button sk \<Longrightarrow>
   sk_tx sk' = enqueue (bd_deque B) m (sk_tx sk) \<Longrightarrow> quiet n items sk sk'"
  using enqueue_items [of n "bd_deque B" items m "sk_tx sk"] enqueue_length [of n "bd_deque B" items "sk_tx sk" m]
  by (auto simp: quiet_def)

lemma quiet_hello_step: "deque_ok n (bd_deque B) items \<Longrightarrow> quiet n items sk (hello_step B now sk)"
  by (auto simp: hello_step_def send_def device_hello_def intro: quiet_hello)

lemma quiet_usb_step: "quiet n items sk (usb_step sof now sk)"
  by (rule quiet_same) (simp_all add: usb_step_def poll_usb_connection_def Let_def)

lemma quiet_message: "deque_ok n (bd_deque B) items \<Longrightarrow> quiet n items sk (handle_host_message B now msg sk)"
proof (cases msg)
  case (Inl e)
  then show ?thesis by (cases e) (simp_all add: handle_host_message_def quiet_same)
next
  case (Inr m)
  assume D: "deque_ok n (bd_deque B) items"
  show ?thesis
  proof (cases "\<exists>v s. m = HostHello v s")
    case True
    then show ?thesis using Inr by (auto simp: handle_host_message_def send_def device_hello_def intro!: quiet_hello [OF D])
  next
    case False
    have "sk_button (handle_session_message B now m sk) = sk_button sk \<and> sk_tx (handle_session_message B now m sk) = sk_tx sk"
      by (cases m) (auto split: shutdown_phase.split)
    then show ?thesis
      using False Inr handle_host_message_session [of m B now sk] by (auto intro: quiet_same)
  qed
qed

lemma quiet_read_usb: "deque_ok n (bd_deque B) items \<Longrightarrow> read_usb B now bs sk = Some sk' \<Longrightarrow> quiet n items sk sk'"
proof (induction bs arbitrary: sk)
  case (Cons b bs)
  obtain d out where push: "push max_host_frame_len (sk_decoder sk) b = Some (d, out)"
    using Cons.prems(2) by (auto split: option.splits)
  let ?sk = "sk\<lparr>sk_decoder := d\<rparr>"
  have d: "quiet n items sk ?sk" by (simp add: quiet_same)
  show ?case
  proof (cases "\<exists>frame. out = Some (Inr frame)")
    case True
    then obtain frame where out: "out = Some (Inr frame)" by blast
    then have "quiet n items (handle_host_message B now (decode (bd_de B) (bd_cobs B) frame) ?sk) sk'"
      using Cons.IH [OF Cons.prems(1)] Cons.prems(2) push by simp
    then show ?thesis using d quiet_message [OF Cons.prems(1)] quiet_trans by metis
  next
    case False
    then have "read_usb B now bs ?sk = Some sk'" using Cons.prems(2) push by (auto split: option.splits sum.splits)
    then show ?thesis using Cons.IH [OF Cons.prems(1)] d quiet_trans by metis
  qed
qed simp

lemma quiet_timeout_step: "quiet n items sk (timeout_step now sk)"
  by (simp add: timeout_step_def quiet_same)

text \<open>The steps after the button leave all but the shutdown screen as it was.\<close>

lemma screens_keep:
  "sk_button (spinner_step now (report_lost_step now (usb_lost_step now sk))) = sk_button sk"
  "sk_tx (spinner_step now (report_lost_step now (usb_lost_step now sk))) = sk_tx sk"
  "sk_daemon (spinner_step now (report_lost_step now (usb_lost_step now sk))) = sk_daemon sk"
  "sk_session (spinner_step now (report_lost_step now (usb_lost_step now sk))) = sk_session sk"
  "sk_last_update (spinner_step now (report_lost_step now (usb_lost_step now sk))) = sk_last_update sk"
  "sk_config (spinner_step now (report_lost_step now (usb_lost_step now sk))) = sk_config sk"
proof -
  have "sk_button (spinner_step now sk) = sk_button sk" "sk_tx (spinner_step now sk) = sk_tx sk"
    "sk_daemon (spinner_step now sk) = sk_daemon sk" "sk_session (spinner_step now sk) = sk_session sk"
    "sk_last_update (spinner_step now sk) = sk_last_update sk" "sk_config (spinner_step now sk) = sk_config sk"
    for sk :: "('a, 'b, 'c) stick"
    by (simp_all add: spinner_step_def split: shutdown_display.split)
  then show
    "sk_button (spinner_step now (report_lost_step now (usb_lost_step now sk))) = sk_button sk"
    "sk_tx (spinner_step now (report_lost_step now (usb_lost_step now sk))) = sk_tx sk"
    "sk_daemon (spinner_step now (report_lost_step now (usb_lost_step now sk))) = sk_daemon sk"
    "sk_session (spinner_step now (report_lost_step now (usb_lost_step now sk))) = sk_session sk"
    "sk_last_update (spinner_step now (report_lost_step now (usb_lost_step now sk))) = sk_last_update sk"
    "sk_config (spinner_step now (report_lost_step now (usb_lost_step now sk))) = sk_config sk"
    by (simp_all add: report_lost_step_def usb_lost_step_def Let_def)
qed

text \<open>The button step: what it does to the button, and when it queues a request.\<close>

lemma button_step_button:
  "sk_button (fst (button_step B low now sk)) = fst (button_update low now (shutdown_hold (sk_config sk)) (sk_button sk))"
proof -
  obtain b action where b: "button_update low now (shutdown_hold (sk_config sk)) (sk_button sk) = (b, action)" by fastforce
  show ?thesis
    by (cases action; cases "the action")
      (simp_all add: button_step_def b Let_def short_press_def long_press_done_def send_def split: option.split)
qed

lemma button_step_request:
  assumes "ShutdownRequested \<in> set (items (tx_queue (sk_tx (fst (button_step B low now sk)))))"
    and "ShutdownRequested \<notin> set (items (tx_queue (sk_tx sk)))"
  shows "snd (button_update low now (shutdown_hold (sk_config sk)) (sk_button sk)) = Some ShutdownAction
    \<and> sk_daemon sk = Connected \<and> sk_daemon (fst (button_step B low now sk)) = Connected
    \<and> sk_session (fst (button_step B low now sk)) = sk_session sk
    \<and> sk_last_update (fst (button_step B low now sk)) = sk_last_update sk
    \<and> sk_config (fst (button_step B low now sk)) = sk_config sk"
proof -
  obtain b action where b: "button_update low now (shutdown_hold (sk_config sk)) (sk_button sk) = (b, action)" by fastforce
  show ?thesis
  proof (cases "action = Some ShutdownAction")
    case True
    then show ?thesis
      using assms by (auto simp: button_step_def b Let_def long_press_done_def send_def split: if_splits)
  next
    case False
    then have "sk_tx (fst (button_step B low now sk)) = sk_tx sk"
      by (cases action; cases "the action") (auto simp: button_step_def b Let_def short_press_def split: option.split)
    then show ?thesis using assms by simp
  qed
qed

section \<open>Runs\<close>

lemma stick_update_parts:
  assumes "stick_update B i sk = Some (sk', drawn)"
  obtains sk1 where "read_usb B (in_now i) (in_bytes i)
      (usb_step (in_sof i) (in_now i) (hello_step B (in_now i) (sk\<lparr>sk_render := False\<rparr>))) = Some sk1"
    "sk' = spinner_step (in_now i) (report_lost_step (in_now i) (usb_lost_step (in_now i)
       (fst (button_step B (in_low i) (in_now i) (timeout_step (in_now i) sk1)))))"
  using assms by (auto simp: stick_update_def Let_def case_prod_beta split: option.splits)

lemma quiet_before_button:
  assumes "deque_ok n (bd_deque B) items"
    and "read_usb B now bs (usb_step sof now (hello_step B now (sk\<lparr>sk_render := False\<rparr>))) = Some sk1"
  shows "quiet n items sk (timeout_step now sk1)"
proof -
  have "quiet n items sk (sk\<lparr>sk_render := False\<rparr>)" by (simp add: quiet_same)
  then show ?thesis
    using quiet_hello_step [OF assms(1)] quiet_usb_step quiet_read_usb [OF assms] quiet_timeout_step quiet_trans by metis
qed

definition observed :: "inputs \<Rightarrow> time \<times> bool" where
  "observed i = (in_now i, in_low i)"

lemma stick_update_button:
  assumes "deque_ok n (bd_deque B) items" "stick_update B i sk = Some (sk', drawn)"
    and "button_inv h (sk_button sk)" "bt_raw_changed_at (sk_button sk) \<le> in_now i"
  shows "button_inv (observed i # h) (sk_button sk')" "bt_raw_changed_at (sk_button sk') \<le> in_now i"
proof -
  obtain sk1 where sk1: "read_usb B (in_now i) (in_bytes i)
      (usb_step (in_sof i) (in_now i) (hello_step B (in_now i) (sk\<lparr>sk_render := False\<rparr>))) = Some sk1"
    "sk' = spinner_step (in_now i) (report_lost_step (in_now i) (usb_lost_step (in_now i)
       (fst (button_step B (in_low i) (in_now i) (timeout_step (in_now i) sk1)))))"
    using stick_update_parts [OF assms(2)] .
  have "sk_button (timeout_step (in_now i) sk1) = sk_button sk"
    using quiet_before_button [OF assms(1) sk1(1)] by (simp add: quiet_def)
  then have "sk_button sk' = fst (button_update (in_low i) (in_now i)
      (shutdown_hold (sk_config (timeout_step (in_now i) sk1))) (sk_button sk))"
    by (simp add: sk1(2) screens_keep button_step_button)
  then show "button_inv (observed i # h) (sk_button sk')" "bt_raw_changed_at (sk_button sk') \<le> in_now i"
    using button_update_inv [OF assms(3,4)] button_update_changed_at [OF assms(4)] by (simp_all add: observed_def)
qed

lemma stick_step_update:
  "stick_step B i sk = Some (sk', drawn, written) \<Longrightarrow>
   \<exists>sk3. stick_update B i sk = Some (sk3, drawn) \<and> sk_button sk' = sk_button sk3 \<and> sk_daemon sk' = sk_daemon sk3
     \<and> sk_shutdown sk' = sk_shutdown sk3 \<and> sk_last_update sk' = sk_last_update sk3"
  by (auto simp: stick_step_def case_prod_beta split: option.splits)

lemma stick_run_button:
  assumes "deque_ok n (bd_deque B) items"
  shows "stick_run B is sk = Some sk' \<Longrightarrow> button_inv h (sk_button sk) \<Longrightarrow> bt_raw_changed_at (sk_button sk) \<le> t \<Longrightarrow>
     sorted (t # map in_now is) \<Longrightarrow>
     button_inv (rev (map observed is) @ h) (sk_button sk') \<and> bt_raw_changed_at (sk_button sk') \<le> last (t # map in_now is)"
proof (induction "is" arbitrary: sk h t)
  case (Cons i "is")
  obtain sk1 drawn written where step: "stick_step B i sk = Some (sk1, drawn, written)" "stick_run B is sk1 = Some sk'"
    using Cons.prems(1) by (auto split: option.splits)
  obtain sk3 where sk3: "stick_update B i sk = Some (sk3, drawn)" "sk_button sk1 = sk_button sk3"
    using stick_step_update [OF step(1)] by blast
  have "bt_raw_changed_at (sk_button sk) \<le> in_now i" using Cons.prems(3,4) by simp
  note button = stick_update_button [OF assms sk3(1) Cons.prems(2) this, folded sk3(2)]
  have "sorted (in_now i # map in_now is)" using Cons.prems(4) by simp
  from Cons.IH [OF step(2) button this] show ?case by simp
qed simp

section \<open>The byte loop handles messages\<close>

text \<open>What the frames the decoder returns mean, errors of the decoder left out as in the loop.\<close>

fun handle_frames ::
  "('q, 'm) board \<Rightarrow> time \<Rightarrow> (protocol_error + u8 list) list \<Rightarrow> ('q, 'm, 't) stick \<Rightarrow> ('q, 'm, 't) stick" where
  "handle_frames B now [] sk = sk"
| "handle_frames B now (Inl e # rs) sk = handle_frames B now rs sk"
| "handle_frames B now (Inr frame # rs) sk =
     handle_frames B now rs (handle_host_message B now (decode (bd_de B) (bd_cobs B) frame) sk)"

lemma handle_host_message_decoder:
  "handle_host_message B now msg (sk\<lparr>sk_decoder := d\<rparr>) = (handle_host_message B now msg sk)\<lparr>sk_decoder := d\<rparr>"
proof (cases msg)
  case (Inl e)
  then show ?thesis by (cases e) (simp_all add: handle_host_message_def)
next
  case (Inr m)
  show ?thesis
  proof (cases "\<exists>v s. m = HostHello v s")
    case True
    then show ?thesis using Inr by (auto simp: handle_host_message_def send_def)
  next
    case False
    have "handle_session_message B now m (sk\<lparr>sk_decoder := d\<rparr>) = (handle_session_message B now m sk)\<lparr>sk_decoder := d\<rparr>"
      by (cases m) (simp_all split: shutdown_phase.split)
    then show ?thesis
      using False Inr handle_host_message_session [of m B now sk] handle_host_message_session [of m B now "sk\<lparr>sk_decoder := d\<rparr>"]
      by auto
  qed
qed

lemma handle_frames_decoder:
  "handle_frames B now rs (sk\<lparr>sk_decoder := d\<rparr>) = (handle_frames B now rs sk)\<lparr>sk_decoder := d\<rparr>"
  by (induction B now rs sk rule: handle_frames.induct) (simp_all add: handle_host_message_decoder)

lemma read_usb_frames:
  "push_all (push max_host_frame_len) (sk_decoder sk) bs = Some (d, outs) \<Longrightarrow>
   read_usb B now bs sk = Some ((handle_frames B now outs sk)\<lparr>sk_decoder := d\<rparr>)"
proof (induction bs arbitrary: sk outs)
  case (Cons b bs)
  obtain d1 out where push: "push max_host_frame_len (sk_decoder sk) b = Some (d1, out)"
    using Cons.prems by (auto split: option.splits)
  obtain outs1 where rest: "push_all (push max_host_frame_len) d1 bs = Some (d, outs1)"
      "outs = (case out of None \<Rightarrow> outs1 | Some r \<Rightarrow> r # outs1)"
    using Cons.prems push by (auto split: option.splits)
  show ?case
  proof (cases "\<exists>frame. out = Some (Inr frame)")
    case True
    then obtain frame where out: "out = Some (Inr frame)" by blast
    let ?sk = "handle_host_message B now (decode (bd_de B) (bd_cobs B) frame) (sk\<lparr>sk_decoder := d1\<rparr>)"
    have "sk_decoder ?sk = d1" by (simp add: handle_host_message_decoder)
    then have "read_usb B now bs ?sk = Some ((handle_frames B now outs1 ?sk)\<lparr>sk_decoder := d\<rparr>)"
      using Cons.IH [of ?sk outs1] rest(1) by simp
    then show ?thesis using out push rest(2) by (simp add: handle_host_message_decoder handle_frames_decoder)
  next
    case False
    have "read_usb B now bs (sk\<lparr>sk_decoder := d1\<rparr>) = Some ((handle_frames B now outs1 (sk\<lparr>sk_decoder := d1\<rparr>))\<lparr>sk_decoder := d\<rparr>)"
      using Cons.IH [of "sk\<lparr>sk_decoder := d1\<rparr>" outs1] rest(1) by simp
    then show ?thesis
      using False push rest(2) by (cases out; cases "the out") (auto simp: handle_frames_decoder)
  qed
qed simp

text \<open>A board for concrete runs: a list as the queue, two frames that mean a challenge and a
  snapshot, a peripheral whose serializer always fails.\<close>

definition list_deque :: "(device_message list, device_message) deque_api" where
  "list_deque = \<lparr>dq_empty = [], dq_push_back = (\<lambda>q x. if length q < 8 then Inr (q @ [x]) else Inl x),
     dq_pop_front = (\<lambda>q. case q of [] \<Rightarrow> None | x # xs \<Rightarrow> Some (x, xs))\<rparr>"

definition sample_host_snapshot :: health_snapshot where
  "sample_host_snapshot = snapshot_new ''pve'' 0 0 0 0 0 0 [] NoJob None True 1000 ''eth0'' Reachable None [10, 0, 0, 2] []
     ups_not_configured []"

definition sample_board :: "(device_message list, unit) board" where
  "sample_board = \<lparr>bd_deque = list_deque, bd_ser = (\<lambda>_ _. None),
     bd_de = (\<lambda>p. if p = [1, 0] then Some (HostHello (SoftwareVersion ''1'') (HandshakeNonce 7))
       else if p = [2, 0] then Some (HealthSnapshot sample_host_snapshot)
       else if p = [3, 0] then Some ShutdownAccepted else None),
     bd_cobs = (\<lambda>_. None),
     bd_manifests = \<lparr>ch_try_send = (\<lambda>c m. Inr c), ch_try_receive = (\<lambda>c. None)\<rparr>, bd_version = ''1''\<rparr>"

definition sample_net :: "(unit, unit) net_statics" where
  "sample_net = \<lparr>ns_state = shared_new, ns_port = None, ns_station = None, ns_manifests = (), ns_topics = ()\<rparr>"

definition host_frame :: "u8 \<Rightarrow> u8 list" where
  "host_frame k = [0xa5, 0x5a, 10, k, 0]"

lemma list_deque_ok: "deque_ok 8 list_deque (\<lambda>q. q)"
  by (auto simp: deque_ok_def list_deque_def)

text \<open>Two of these frames at power-on.\<close>

lemma read_two_frames:
  assumes "sk_decoder sk = decoder_new max_host_frame_len" "a \<noteq> 0" "b \<noteq> 0"
  shows "\<exists>d. read_usb B now (host_frame a @ host_frame b) sk =
    Some ((handle_host_message B now (decode (bd_de B) (bd_cobs B) (host_frame b))
      (handle_host_message B now (decode (bd_de B) (bd_cobs B) (host_frame a)) sk))\<lparr>sk_decoder := d\<rparr>)"
proof -
  have "map (classify max_host_frame_len) (fst (segments [] (host_frame a @ host_frame b))) = [Inr (host_frame a), Inr (host_frame b)]"
    using assms(2,3) by (simp add: host_frame_def classify_def max_host_frame_len_def)
  then obtain d where "push_all (push max_host_frame_len) (decoder_new max_host_frame_len) (host_frame a @ host_frame b)
      = Some (d, [Inr (host_frame a), Inr (host_frame b)])"
    using fd.run_frames [OF decoder_new_ok, of max_host_frame_len "host_frame a @ host_frame b"] by auto
  then show ?thesis using read_usb_frames [of sk _ d _ B now] assms(1) by fastforce
qed

text \<open>An iteration of a connected stick in which the button does nothing yet.\<close>

lemma uneventful_step:
  assumes "read_usb B (in_now i) (in_bytes i)
      (usb_step (in_sof i) (in_now i) (hello_step B (in_now i) (sk\<lparr>sk_render := False\<rparr>))) = Some sk1"
    and "sk_daemon sk1 = Connected" "sk_last_update sk1 = Some u" "in_now i - u < link_timeout" "\<not> sk_animating sk1"
    and "button_update (in_low i) (in_now i) (shutdown_hold (sk_config sk1)) (sk_button sk1) = (b, None)"
    and "\<not> is_some_and (\<lambda>held. animation_delay (sk_config sk1) \<le> held) (held_for (in_now i) b)"
  shows "\<exists>sk' drawn written. stick_step B i sk = Some (sk', drawn, written)
    \<and> sk_daemon sk' = Connected \<and> sk_session sk' = sk_session sk1 \<and> sk_last_update sk' = Some u \<and> \<not> sk_animating sk'
    \<and> sk_button sk' = b \<and> sk_config sk' = sk_config sk1
    \<and> sk_tx sk' = fst (poll (bd_deque B) (bd_ser B) (in_room i) (sk_tx sk1))"
proof -
  have timeout: "timeout_step (in_now i) sk1 = sk1" using assms(3,4) by (simp add: timeout_step_def)
  have button: "fst (button_step B (in_low i) (in_now i) sk1) = sk1\<lparr>sk_button := b\<rparr>"
    using assms(5-7) by (simp add: button_step_def Let_def)
  have screens: "spinner_step now (report_lost_step now (usb_lost_step now s)) = s\<lparr>sk_usb_lost_since := None\<rparr>"
    if "sk_daemon s = Connected" for s :: "('a, 'b, 'c) stick" and now
    using that by (simp add: spinner_step_def report_lost_step_def usb_lost_step_def)
  show ?thesis
    using assms(2,3,5) by (simp add: stick_step_def stick_update_def assms(1) timeout button screens Let_def case_prod_beta)
qed

lemma poll_queue:
  assumes "deque_ok n D items"
  shows "set (items (tx_queue (fst (poll D ser room tx)))) \<subseteq> set (items (tx_queue tx))
    \<and> length (items (tx_queue (fst (poll D ser room tx)))) \<le> length (items (tx_queue tx))"
proof -
  have written: "tx_queue (fst (poll_write room tx)) = tx_queue tx" for tx :: "'a usb_tx"
    by (simp add: poll_write_def Let_def)
  show ?thesis
  proof (cases "dq_pop_front D (tx_queue tx)")
    case None
    then show ?thesis by (auto simp: poll_def written)
  next
    case (Some p)
    then show ?thesis
      using deque_pop [OF assms, of "tx_queue tx" "fst p" "snd p"]
      by (auto simp: poll_def written case_prod_beta split: sum.split)
  qed
qed

text \<open>The other direction: a long press on a connected stick puts its request into the queue.\<close>

lemma long_press_requests:
  assumes "deque_ok n (bd_deque B) items" "0 < n" "length (items (tx_queue (sk_tx sk))) \<le> n" "sk_daemon sk = Connected"
    and "button_update low now (shutdown_hold (sk_config sk)) (sk_button sk) = (b, Some ShutdownAction)"
  shows "ShutdownRequested \<in> set (items (tx_queue (sk_tx (fst (button_step B low now sk)))))"
  using enqueue_request [OF assms(1,2,3)] assms(4,5)
  by (simp add: button_step_def long_press_done_def send_def Let_def)

text \<open>A run: a challenge and a snapshot arrive while the button goes down, the press settles, and three
  seconds later it is a long press.\<close>

definition press :: "nat \<Rightarrow> u8 list \<Rightarrow> inputs" where
  "press ms bytes = \<lparr>in_now = milli_us ms, in_sof = False, in_bytes = bytes, in_low = True, in_room = 0\<rparr>"

lemma press_sel [simp]:
  "in_now (press ms bytes) = milli_us ms" "in_sof (press ms bytes) = False" "in_bytes (press ms bytes) = bytes"
  "in_low (press ms bytes) = True" "in_room (press ms bytes) = 0"
  by (simp_all add: press_def)

lemma decode_host_frame: "decode de cobs (host_frame k) = ok_or Deserialize (de [k, 0])"
  by (simp add: decode_def host_frame_def frame_magic_def protocol_version_def)

definition queue_calm :: "(device_message list, 'm, 't) stick \<Rightarrow> bool" where
  "queue_calm sk = (ShutdownRequested \<notin> set (tx_queue (sk_tx sk)) \<and> length (tx_queue (sk_tx sk)) \<le> 8)"

lemma queue_calm_quiet: "quiet 8 (\<lambda>q. q) sk sk' \<Longrightarrow> queue_calm sk \<Longrightarrow> queue_calm sk'"
  by (auto simp: quiet_def queue_calm_def)

lemma sample_deque_ok: "deque_ok 8 (bd_deque sample_board) (\<lambda>q. q)"
  using list_deque_ok by (simp add: sample_board_def)

text \<open>The first iteration, in which the challenge and the snapshot come, up to the button.\<close>

lemma connected_read:
  "\<exists>sk1. read_usb sample_board 0 (host_frame 1 @ host_frame 2)
       (usb_step False 0 (hello_step sample_board 0 ((stick_new sample_board 0 sample_net)\<lparr>sk_render := False\<rparr>))) = Some sk1
    \<and> sk_daemon sk1 = Connected \<and> sk_session sk1 = Some (HandshakeNonce 7) \<and> sk_last_update sk1 = Some 0
    \<and> \<not> sk_animating sk1 \<and> sk_button sk1 = button_new 0
    \<and> sk_config sk1 = display_config_default\<lparr>dc_daemon_version := SoftwareVersion ''1''\<rparr> \<and> queue_calm sk1"
proof -
  let ?new = "stick_new sample_board 0 sample_net"
  let ?sk0 = "usb_step False 0 (hello_step sample_board 0 (?new\<lparr>sk_render := False\<rparr>))"
  have start: "sk_decoder ?sk0 = decoder_new max_host_frame_len" "sk_button ?sk0 = button_new 0"
      "sk_config ?sk0 = display_config_default" "\<not> sk_animating ?sk0"
    by (simp_all add: usb_step_def hello_step_def send_def poll_usb_connection_def Let_def stick_new_def)
  from read_two_frames [OF start(1), of 1 2 sample_board 0] obtain d where d:
    "read_usb sample_board 0 (host_frame 1 @ host_frame 2) ?sk0 = Some ((handle_host_message sample_board 0
      (Inr (HealthSnapshot sample_host_snapshot)) (handle_host_message sample_board 0
      (Inr (HostHello (SoftwareVersion ''1'') (HandshakeNonce 7))) ?sk0))\<lparr>sk_decoder := d\<rparr>)" (is "_ = Some ?sk1")
    by (auto simp: decode_host_frame sample_board_def)
  have sk1: "sk_daemon ?sk1 = Connected" "sk_session ?sk1 = Some (HandshakeNonce 7)" "sk_last_update ?sk1 = Some 0"
      "\<not> sk_animating ?sk1" "sk_button ?sk1 = button_new 0"
      "sk_config ?sk1 = display_config_default\<lparr>dc_daemon_version := SoftwareVersion ''1''\<rparr>"
    by (simp_all add: handle_host_message_def send_def start(2-4))
  have calm: "queue_calm ?new"
    by (simp add: queue_calm_def stick_new_def sample_board_def list_deque_def enqueue_def usb_tx_new_def device_hello_def)
  have "quiet 8 (\<lambda>q. q) ?new (timeout_step 0 ?sk1)"
    by (rule quiet_before_button [OF sample_deque_ok d])
  moreover have "timeout_step 0 ?sk1 = ?sk1" using sk1(3) by (simp add: timeout_step_def link_timeout_def sec_us_def)
  ultimately have "queue_calm ?sk1" using queue_calm_quiet [OF _ calm] by metis
  with d sk1 show ?thesis by blast
qed

lemma connected_step:
  "\<exists>sk drawn written. stick_step sample_board (press 0 (host_frame 1 @ host_frame 2)) (stick_new sample_board 0 sample_net)
      = Some (sk, drawn, written)
    \<and> sk_daemon sk = Connected \<and> sk_session sk = Some (HandshakeNonce 7) \<and> sk_last_update sk = Some 0 \<and> \<not> sk_animating sk
    \<and> sk_button sk = (button_new 0)\<lparr>bt_raw_pressed := True\<rparr>
    \<and> sk_config sk = display_config_default\<lparr>dc_daemon_version := SoftwareVersion ''1''\<rparr> \<and> queue_calm sk"
proof -
  let ?i = "press 0 (host_frame 1 @ host_frame 2)"
  obtain sk1 where read: "read_usb sample_board 0 (host_frame 1 @ host_frame 2)
       (usb_step False 0 (hello_step sample_board 0 ((stick_new sample_board 0 sample_net)\<lparr>sk_render := False\<rparr>))) = Some sk1"
    and sk1: "sk_daemon sk1 = Connected" "sk_session sk1 = Some (HandshakeNonce 7)" "sk_last_update sk1 = Some 0"
      "\<not> sk_animating sk1" "sk_button sk1 = button_new 0"
      "sk_config sk1 = display_config_default\<lparr>dc_daemon_version := SoftwareVersion ''1''\<rparr>" "queue_calm sk1"
    using connected_read by blast
  have zero: "milli_us 0 = 0" by (simp add: milli_us_def)
  have button: "button_update True 0 hold (button_new 0) = ((button_new 0)\<lparr>bt_raw_pressed := True\<rparr>, None)" for hold
    by (simp add: button_update_def button_new_def)
  obtain sk drawn written where sk: "stick_step sample_board ?i (stick_new sample_board 0 sample_net) = Some (sk, drawn, written)"
      "sk_daemon sk = Connected" "sk_session sk = sk_session sk1" "sk_last_update sk = Some 0" "\<not> sk_animating sk"
      "sk_button sk = (button_new 0)\<lparr>bt_raw_pressed := True\<rparr>" "sk_config sk = sk_config sk1"
      "sk_tx sk = fst (poll (bd_deque sample_board) (bd_ser sample_board) 0 (sk_tx sk1))"
    using uneventful_step [of sample_board ?i "stick_new sample_board 0 sample_net" sk1 0 "(button_new 0)\<lparr>bt_raw_pressed := True\<rparr>"]
      read sk1(1,3,4,5) button zero
    by (auto simp: link_timeout_def sec_us_def held_for_def button_new_def [of 0])
  have "queue_calm sk"
    using sk1(7) poll_queue [OF sample_deque_ok, of "bd_ser sample_board" 0 "sk_tx sk1"] sk(8) by (auto simp: queue_calm_def)
  with sk sk1 show ?thesis by auto
qed

lemma connected_run:
  "\<exists>sk. stick_run sample_board [press 0 (host_frame 1 @ host_frame 2), press 30 []] (stick_new sample_board 0 sample_net) = Some sk
    \<and> sk_daemon sk = Connected \<and> sk_session sk = Some (HandshakeNonce 7) \<and> sk_last_update sk = Some 0 \<and> \<not> sk_animating sk
    \<and> sk_button sk = \<lparr>bt_raw_pressed = True, bt_raw_changed_at = 0, bt_stable_pressed = True,
         bt_pressed_at = Some (milli_us 30), bt_long_press_sent = False\<rparr>
    \<and> sk_config sk = display_config_default\<lparr>dc_daemon_version := SoftwareVersion ''1''\<rparr> \<and> queue_calm sk"
proof -
  let ?b = "\<lparr>bt_raw_pressed = True, bt_raw_changed_at = 0, bt_stable_pressed = True,
         bt_pressed_at = Some (milli_us 30), bt_long_press_sent = False\<rparr>"
  obtain sk drawn written where step: "stick_step sample_board (press 0 (host_frame 1 @ host_frame 2)) (stick_new sample_board 0 sample_net)
      = Some (sk, drawn, written)"
    and sk: "sk_daemon sk = Connected" "sk_session sk = Some (HandshakeNonce 7)" "sk_last_update sk = Some 0" "\<not> sk_animating sk"
      "sk_button sk = (button_new 0)\<lparr>bt_raw_pressed := True\<rparr>"
      "sk_config sk = display_config_default\<lparr>dc_daemon_version := SoftwareVersion ''1''\<rparr>" "queue_calm sk"
    using connected_step by blast
  let ?sk1 = "usb_step False (milli_us 30) (hello_step sample_board (milli_us 30) (sk\<lparr>sk_render := False\<rparr>))"
  have sk1: "sk_daemon ?sk1 = Connected" "sk_session ?sk1 = sk_session sk" "sk_last_update ?sk1 = Some 0" "\<not> sk_animating ?sk1"
      "sk_button ?sk1 = sk_button sk" "sk_config ?sk1 = sk_config sk" "sk_tx ?sk1 = sk_tx sk"
    by (simp_all add: usb_step_def poll_usb_connection_def Let_def hello_step_def sk)
  have button: "button_update True (milli_us 30) (shutdown_hold (sk_config sk)) (sk_button sk) = (?b, None)"
    by (simp add: sk button_update_def button_settle_def button_long_def button_new_def debounce_def milli_us_def Let_def
        shutdown_hold_def display_config_default_def)
  obtain sk' drawn' written' where sk': "stick_step sample_board (press 30 []) sk = Some (sk', drawn', written')"
      "sk_daemon sk' = Connected" "sk_session sk' = sk_session ?sk1" "sk_last_update sk' = Some 0" "\<not> sk_animating sk'"
      "sk_button sk' = ?b" "sk_config sk' = sk_config ?sk1"
      "sk_tx sk' = fst (poll (bd_deque sample_board) (bd_ser sample_board) 0 (sk_tx ?sk1))"
    using uneventful_step [of sample_board "press 30 []" sk ?sk1 0 ?b] sk1 button
    by (auto simp: link_timeout_def sec_us_def milli_us_def held_for_def animation_delay_def sk(6) display_config_default_def)
  have "queue_calm sk'"
    using sk(7) poll_queue [OF sample_deque_ok, of "bd_ser sample_board" 0 "sk_tx sk"] sk'(8) by (auto simp: queue_calm_def sk1)
  with sk' sk sk1 step show ?thesis by simp
qed

section \<open>Properties of the loop\<close>

text \<open>(C2) A shutdown is requested only on purpose and only of a live host: in every run from
  power-on, when an iteration puts a shutdown request into the queue, the link is connected under an
  acknowledged challenge, the last host message is less than fifteen seconds old, and the button was
  recognised as pressed at least the configured hold time before and has not been seen released for
  as long as the debouncing time since.\<close>

theorem shutdown_request_justified:
  assumes "deque_ok n (bd_deque B) items" "sorted (t # map in_now (is @ [i]))"
    and "stick_run B is (stick_new B t net) = Some sk" "stick_update B i sk = Some (sk', drawn)"
    and "ShutdownRequested \<in> set (items (tx_queue (sk_tx sk')))" "ShutdownRequested \<notin> set (items (tx_queue (sk_tx sk)))"
  shows "sk_daemon sk' = Connected \<and> sk_session sk' \<noteq> None
    \<and> (\<exists>u. sk_last_update sk' = Some u \<and> in_now i - u < link_timeout)
    \<and> held_down (rev (map observed (is @ [i]))) (shutdown_hold (sk_config sk'))"
proof -
  obtain sk1 where sk1: "read_usb B (in_now i) (in_bytes i)
      (usb_step (in_sof i) (in_now i) (hello_step B (in_now i) (sk\<lparr>sk_render := False\<rparr>))) = Some sk1"
    "sk' = spinner_step (in_now i) (report_lost_step (in_now i) (usb_lost_step (in_now i)
       (fst (button_step B (in_low i) (in_now i) (timeout_step (in_now i) sk1)))))"
    using stick_update_parts [OF assms(4)] .
  let ?sk2 = "timeout_step (in_now i) sk1"
  have quiet: "sk_button ?sk2 = sk_button sk" "ShutdownRequested \<notin> set (items (tx_queue (sk_tx ?sk2)))"
    using quiet_before_button [OF assms(1) sk1(1)] assms(6) by (auto simp: quiet_def)
  have "ShutdownRequested \<in> set (items (tx_queue (sk_tx (fst (button_step B (in_low i) (in_now i) ?sk2)))))"
    using assms(5) by (simp add: sk1(2) screens_keep)
  note request = button_step_request [OF this quiet(2)]
  have inv: "stick_inv sk" using stick_run_inv [of "stick_new B t net" B "is"] assms(3) by simp
  then have "stick_inv sk1"
    using read_usb_inv [of "usb_step (in_sof i) (in_now i) (hello_step B (in_now i) (sk\<lparr>sk_render := False\<rparr>))" B "in_now i" "in_bytes i"] sk1(1)
    by (simp add: inv_step)
  then have conn: "sk_session ?sk2 \<noteq> None" "\<exists>u. sk_last_update ?sk2 = Some u \<and> in_now i - u < link_timeout"
    using request by (auto simp: timeout_step_def stick_inv_def not_le split: if_splits)
  have "button_inv (rev (map observed is) @ []) (sk_button sk) \<and> bt_raw_changed_at (sk_button sk) \<le> last (t # map in_now is)"
    using assms(2) by (intro stick_run_button [OF assms(1,3)]) (simp_all add: stick_new_def sorted_append)
  moreover have "last (t # map in_now is) \<le> in_now i"
    using assms(2) by (cases "is" rule: rev_cases) (auto simp: sorted_append)
  ultimately have "button_inv (rev (map observed is)) (sk_button sk)" "bt_raw_changed_at (sk_button sk) \<le> in_now i" by auto
  then have "held_down (observed i # rev (map observed is)) (shutdown_hold (sk_config ?sk2))"
    using long_press_held [of "rev (map observed is)" "sk_button sk" "in_now i" "in_low i" "shutdown_hold (sk_config ?sk2)"] request quiet(1)
    by (cases "button_update (in_low i) (in_now i) (shutdown_hold (sk_config ?sk2)) (sk_button ?sk2)") (simp add: observed_def)
  then show ?thesis using request conn by (simp add: sk1(2) screens_keep)
qed

theorem shutdown_request_justified_witness:
  "\<exists>sk sk' drawn. stick_run sample_board [press 0 (host_frame 1 @ host_frame 2), press 30 []] (stick_new sample_board 0 sample_net) = Some sk
    \<and> stick_update sample_board (press 3030 []) sk = Some (sk', drawn)
    \<and> ShutdownRequested \<in> set (tx_queue (sk_tx sk')) \<and> sk_daemon sk' = Connected
    \<and> held_down (rev (map observed [press 0 (host_frame 1 @ host_frame 2), press 30 [], press 3030 []])) (milli_us 3000)"
proof -
  obtain sk where run: "stick_run sample_board [press 0 (host_frame 1 @ host_frame 2), press 30 []] (stick_new sample_board 0 sample_net) = Some sk"
    and sk: "sk_daemon sk = Connected" "sk_last_update sk = Some 0" "sk_button sk = \<lparr>bt_raw_pressed = True, bt_raw_changed_at = 0,
         bt_stable_pressed = True, bt_pressed_at = Some (milli_us 30), bt_long_press_sent = False\<rparr>"
      "sk_config sk = display_config_default\<lparr>dc_daemon_version := SoftwareVersion ''1''\<rparr>" "queue_calm sk"
    using connected_run by blast
  let ?now = "milli_us 3030"
  let ?sk1 = "usb_step False ?now (hello_step sample_board ?now (sk\<lparr>sk_render := False\<rparr>))"
  have sk1: "sk_daemon ?sk1 = Connected" "sk_button ?sk1 = sk_button sk" "sk_config ?sk1 = sk_config sk" "sk_tx ?sk1 = sk_tx sk"
      "timeout_step ?now ?sk1 = ?sk1"
    by (simp_all add: usb_step_def poll_usb_connection_def Let_def hello_step_def sk timeout_step_def link_timeout_def sec_us_def milli_us_def)
  have hold: "shutdown_hold (sk_config sk) = milli_us 3000" by (simp add: sk(4) shutdown_hold_def display_config_default_def)
  obtain b where button: "button_update True ?now (shutdown_hold (sk_config sk)) (sk_button sk) = (b, Some ShutdownAction)"
    by (simp add: hold sk(3) button_update_def button_settle_def button_long_def milli_us_def)
  let ?sk2 = "fst (button_step sample_board True ?now ?sk1)"
  have request: "ShutdownRequested \<in> set (tx_queue (sk_tx ?sk2))"
    using long_press_requests [OF sample_deque_ok, of ?sk1 True ?now b] sk(5) sk1 button by (simp add: queue_calm_def)
  then have config: "sk_config ?sk2 = sk_config sk"
    using button_step_request [of "\<lambda>q. q" sample_board True ?now ?sk1] sk(5) sk1 by (simp add: queue_calm_def)
  obtain sk' drawn where upd: "stick_update sample_board (press 3030 []) sk = Some (sk', drawn)"
      "sk' = spinner_step ?now (report_lost_step ?now (usb_lost_step ?now ?sk2))"
    by (simp add: stick_update_def Let_def sk1(5) case_prod_beta)
  have queued: "ShutdownRequested \<in> set (tx_queue (sk_tx sk'))" using request by (simp add: upd(2) screens_keep)
  have "sorted (0 # map in_now ([press 0 (host_frame 1 @ host_frame 2), press 30 []] @ [press 3030 []]))"
    by (simp add: milli_us_def)
  from shutdown_request_justified [OF sample_deque_ok this run upd(1) queued] sk(5)
  have "sk_daemon sk' = Connected \<and> held_down (rev (map observed [press 0 (host_frame 1 @ host_frame 2), press 30 [], press 3030 []]))
      (shutdown_hold (sk_config sk'))"
    by (simp add: queue_calm_def)
  moreover have "sk_config sk' = sk_config sk" using config by (simp add: upd(2) screens_keep)
  ultimately show ?thesis using run upd(1) queued hold by auto
qed

text \<open>(C24) The loop stays well formed: from power-on, whatever bytes arrive and whatever the button
  does, no iteration panics in the decoder, the page shown is one of the configured pages when there
  is one, the progress bar fits the display and the spinner has one of its four positions.\<close>

theorem loop_stays_well_formed:
  "\<exists>sk. stick_run B is (stick_new B t net) = Some sk
    \<and> sk_page sk < max (length (dc_pages (sk_config sk))) 1
    \<and> sk_animation_height sk \<le> display_height \<and> spinner_ok (sk_shutdown sk)"
proof -
  obtain sk where "stick_run B is (stick_new B t net) = Some sk" "stick_inv sk"
    using stick_run_inv [of "stick_new B t net"] by auto
  then show ?thesis by (auto simp: stick_inv_def page_modulus_def)
qed

lemma screens_report:
  fixes now :: time
  assumes "stick_inv sk" "sk_daemon sk = PoweringOff"
  defines "sk' \<equiv> spinner_step now (report_lost_step now (usb_lost_step now sk))"
  shows "is_error (sk_shutdown sk') \<or> is_connection_lost (sk_shutdown sk') \<or> is_reporting_lost (sk_shutdown sk')
    \<or> (\<exists>u. sk_last_update sk' = Some u \<and> now - u < shutdown_report_timeout)"
proof -
  let ?a = "usb_lost_step now sk"
  let ?b = "report_lost_step now ?a"
  have a: "stick_inv ?a" "sk_daemon ?a = PoweringOff"
    using assms(1,2) by (simp add: inv_step) (simp add: usb_lost_step_def assms(2) Let_def)
  have "is_error (sk_shutdown ?b) \<or> is_connection_lost (sk_shutdown ?b) \<or> is_reporting_lost (sk_shutdown ?b)
      \<or> (\<exists>u. sk_last_update ?b = Some u \<and> now - u < shutdown_report_timeout)"
    using a by (cases "sk_last_update ?a") (auto simp: report_lost_step_def stick_inv_def not_le)
  moreover have "sk_last_update sk' = sk_last_update ?b" "is_error (sk_shutdown sk') = is_error (sk_shutdown ?b)"
    "is_connection_lost (sk_shutdown sk') = is_connection_lost (sk_shutdown ?b)"
    "is_reporting_lost (sk_shutdown sk') = is_reporting_lost (sk_shutdown ?b)"
    by (simp_all add: sk'_def spinner_step_def split: shutdown_display.split)
  ultimately show ?thesis by simp
qed

text \<open>(C25) A shutdown never hangs on the screen: after every iteration in which the device shows a
  shutdown, either the host has reported within the last three seconds, or the screen says that the
  shutdown failed, that the connection is lost or that reporting has stopped.\<close>

theorem shutdown_screen_responds:
  assumes "stick_run B is (stick_new B t net) = Some sk" "stick_step B i sk = Some (sk', drawn, written)"
    and "sk_daemon sk' = PoweringOff"
  shows "is_error (sk_shutdown sk') \<or> is_connection_lost (sk_shutdown sk') \<or> is_reporting_lost (sk_shutdown sk')
    \<or> (\<exists>u. sk_last_update sk' = Some u \<and> in_now i - u < shutdown_report_timeout)"
proof -
  obtain sk3 where sk3: "stick_update B i sk = Some (sk3, drawn)" "sk_daemon sk' = sk_daemon sk3"
      "sk_shutdown sk' = sk_shutdown sk3" "sk_last_update sk' = sk_last_update sk3"
    using stick_step_update [OF assms(2)] by blast
  obtain sk1 where sk1: "read_usb B (in_now i) (in_bytes i)
      (usb_step (in_sof i) (in_now i) (hello_step B (in_now i) (sk\<lparr>sk_render := False\<rparr>))) = Some sk1"
    "sk3 = spinner_step (in_now i) (report_lost_step (in_now i) (usb_lost_step (in_now i)
       (fst (button_step B (in_low i) (in_now i) (timeout_step (in_now i) sk1)))))"
    using stick_update_parts [OF sk3(1)] .
  let ?sk2 = "fst (button_step B (in_low i) (in_now i) (timeout_step (in_now i) sk1))"
  have "stick_inv sk" using stick_run_inv [of "stick_new B t net" B "is"] assms(1) by simp
  then have "stick_inv sk1"
    using read_usb_inv [of "usb_step (in_sof i) (in_now i) (hello_step B (in_now i) (sk\<lparr>sk_render := False\<rparr>))" B "in_now i" "in_bytes i"] sk1(1)
    by (simp add: inv_step)
  then have "stick_inv ?sk2" by (intro inv_step)
  moreover have "sk_daemon ?sk2 = PoweringOff" using assms(3) by (simp add: sk3(2) sk1(2) screens_keep)
  ultimately show ?thesis using screens_report [of ?sk2 "in_now i"] by (simp add: sk3 sk1(2))
qed

lemma button_step_daemon: "sk_daemon (fst (button_step B low now sk)) = sk_daemon sk"
proof -
  obtain b action where b: "button_update low now (shutdown_hold (sk_config sk)) (sk_button sk) = (b, action)" by fastforce
  show ?thesis
    by (cases action; cases "the action")
      (auto simp: button_step_def b Let_def short_press_def long_press_done_def send_def split: option.split)
qed

theorem shutdown_screen_responds_witness:
  "\<exists>sk' drawn written. stick_step sample_board (press 0 (host_frame 1 @ host_frame 3)) (stick_new sample_board 0 sample_net) = Some (sk', drawn, written)
    \<and> sk_daemon sk' = PoweringOff \<and> (is_error (sk_shutdown sk') \<or> is_connection_lost (sk_shutdown sk') \<or> is_reporting_lost (sk_shutdown sk')
      \<or> (\<exists>u. sk_last_update sk' = Some u \<and> milli_us 0 - u < shutdown_report_timeout))"
proof -
  let ?new = "stick_new sample_board 0 sample_net"
  let ?sk0 = "usb_step False 0 (hello_step sample_board 0 (?new\<lparr>sk_render := False\<rparr>))"
  have zero: "milli_us 0 = 0" by (simp add: milli_us_def)
  have "sk_decoder ?sk0 = decoder_new max_host_frame_len"
    by (simp add: usb_step_def hello_step_def send_def poll_usb_connection_def Let_def stick_new_def)
  from read_two_frames [OF this, of 1 3 sample_board 0] obtain d where d:
    "read_usb sample_board 0 (host_frame 1 @ host_frame 3) ?sk0 = Some ((handle_host_message sample_board 0
      (Inr ShutdownAccepted) (handle_host_message sample_board 0
      (Inr (HostHello (SoftwareVersion ''1'') (HandshakeNonce 7))) ?sk0))\<lparr>sk_decoder := d\<rparr>)" (is "_ = Some ?sk1")
    by (auto simp: decode_host_frame sample_board_def)
  have "sk_daemon ?sk1 = PoweringOff" by (simp add: handle_host_message_def send_def)
  then have "sk_daemon (fst (button_step sample_board True 0 (timeout_step 0 ?sk1))) = PoweringOff"
    by (simp add: button_step_daemon timeout_step_def)
  then obtain sk' drawn written where step: "stick_step sample_board (press 0 (host_frame 1 @ host_frame 3)) ?new = Some (sk', drawn, written)"
      "sk_daemon sk' = PoweringOff"
    using d by (auto simp: stick_step_def stick_update_def Let_def case_prod_beta zero screens_keep)
  then show ?thesis using shutdown_screen_responds [of sample_board "[]" 0 sample_net ?new "press 0 (host_frame 1 @ host_frame 3)"] by auto
qed

end
