(* ===== verification/Link.thy ===== *)
theory Link
  imports Daemon Stick_Props
begin

text \<open>
  The host and the stick together: the handshake of \<open>host/src/main.rs\<close> and
  \<open>firmware/src/main.rs\<close> over a line that may lose messages and may still hold old ones. A step
  is one action of one side, by the operations of the two components. \<open>lk_heard\<close> and \<open>lk_used\<close>
  only record what happened: the challenges the stick has handled and the nonces ever drawn.
\<close>

section \<open>The system\<close>

record ('q, 'm, 't) link =
  lk_host :: daemon
  lk_stick :: "('q, 'm, 't) stick"
  lk_down :: "host_message list"
  lk_up :: "device_message list"
  lk_heard :: "handshake_nonce set"
  lk_used :: "handshake_nonce set"

definition hears :: "host_message \<Rightarrow> handshake_nonce set" where
  "hears m = (case m of HostHello version session \<Rightarrow> {session} | _ \<Rightarrow> {})"

inductive link_step :: "'v site \<Rightarrow> ('q, 'm) board \<Rightarrow> ('q, 'm, 't) link \<Rightarrow> ('q, 'm, 't) link \<Rightarrow> bool"
  for site :: "'v site" and B :: "('q, 'm) board" where
  host_opens: "tk_nonce (tick :: 'v tick) \<notin> lk_used l \<Longrightarrow>
     link_step site B l (l\<lparr>lk_host := on_open tick (lk_host l), lk_used := insert (tk_nonce tick) (lk_used l)\<rparr>)"
| host_drops: "link_step site B l (l\<lparr>lk_host := drop_connection (lk_host l)\<rparr>)"
| host_hello: "\<not> dm_handshake (lk_host l) \<Longrightarrow>
     link_step site B l (l\<lparr>lk_down := lk_down l @ [HostHello (SoftwareVersion (st_version site)) (dm_nonce (lk_host l))]\<rparr>)"
| host_data: "dm_handshake (lk_host l) \<Longrightarrow> hears m = {} \<Longrightarrow> link_step site B l (l\<lparr>lk_down := lk_down l @ [m]\<rparr>)"
| host_receives: "lk_up l = m # ms \<Longrightarrow> handle_message site tick (lk_host l) (Inr m) io = Some (Inr d, io') \<Longrightarrow>
     link_step site B l (l\<lparr>lk_host := d, lk_up := ms\<rparr>)"
| line_loses_up: "lk_up l = xs @ m # ys \<Longrightarrow> link_step site B l (l\<lparr>lk_up := xs @ ys\<rparr>)"
| line_loses_down: "lk_down l = xs @ m' # ys \<Longrightarrow> link_step site B l (l\<lparr>lk_down := xs @ ys\<rparr>)"
| stick_receives: "lk_down l = m # ms \<Longrightarrow>
     link_step site B l (l\<lparr>lk_stick := handle_host_message B now (Inr m) (lk_stick l), lk_down := ms,
       lk_heard := lk_heard l \<union> hears m\<rparr>)"
| stick_hello: "link_step site B l (l\<lparr>lk_stick := hello_step B now (lk_stick l)\<rparr>)"
| stick_timeout: "link_step site B l (l\<lparr>lk_stick := timeout_step now (lk_stick l)\<rparr>)"
| stick_button: "link_step site B l (l\<lparr>lk_stick := fst (button_step B low now (lk_stick l))\<rparr>)"
| stick_sends: "dq_pop_front (bd_deque B) (tx_queue (sk_tx (lk_stick l))) = Some (m, q) \<Longrightarrow>
     link_step site B l (l\<lparr>lk_stick := (lk_stick l)\<lparr>sk_tx := (sk_tx (lk_stick l))\<lparr>tx_queue := q\<rparr>\<rparr>, lk_up := lk_up l @ [m]\<rparr>)"

text \<open>The nonces a stick, or a line, is ready to acknowledge.\<close>

definition line_acks :: "device_message set \<Rightarrow> handshake_nonce set" where
  "line_acks ms = {n. \<exists>v. DeviceHello v (Some n) \<in> ms}"

definition stick_acks :: "('q \<Rightarrow> device_message list) \<Rightarrow> ('q, 'm, 't) stick \<Rightarrow> handshake_nonce set" where
  "stick_acks items sk = line_acks (set (items (tx_queue (sk_tx sk)))) \<union> set_option (sk_session sk)"

text \<open>A start: the port has just been opened with a nonce that nothing on the line or in the stick
  (which may have been connected before) acknowledges.\<close>

inductive linked :: "'v site \<Rightarrow> ('q, 'm) board \<Rightarrow> ('q \<Rightarrow> device_message list) \<Rightarrow> handshake_nonce set \<Rightarrow> ('q, 'm, 't) link \<Rightarrow> bool"
  for site :: "'v site" and B :: "('q, 'm) board" and items and old where
  link_start: "stick_acks items sk \<union> line_acks (set up) \<subseteq> old \<Longrightarrow> tk_nonce (tick :: 'v tick) \<notin> old \<Longrightarrow>
     linked site B items old \<lparr>lk_host = on_open tick d, lk_stick = sk, lk_down = down, lk_up = up, lk_heard = {},
       lk_used = insert (tk_nonce tick) old\<rparr>"
| link_next: "linked site B items old l \<Longrightarrow> link_step site B l l' \<Longrightarrow> linked site B items old l'"

section \<open>Acknowledgements come from challenges\<close>

lemma line_acks_insert [simp]:
  "line_acks (insert m ms) = (case m of DeviceHello v (Some n) \<Rightarrow> {n} | _ \<Rightarrow> {}) \<union> line_acks ms"
  by (auto simp: line_acks_def split: device_message.splits option.splits)

lemma line_acks_empty [simp]: "line_acks {} = {}"
  by (simp add: line_acks_def)

lemma line_acks_mono: "ms \<subseteq> ms' \<Longrightarrow> line_acks ms \<subseteq> line_acks ms'"
  by (auto simp: line_acks_def)

lemma line_acks_Un [simp]: "line_acks (a \<union> b) = line_acks a \<union> line_acks b"
  by (auto simp: line_acks_def)

lemma send_acks:
  assumes "deque_ok n (bd_deque B) items"
  shows "stick_acks items (send B m sk) \<subseteq> stick_acks items sk \<union> line_acks {m}"
  using line_acks_mono [OF enqueue_items [OF assms, of m "sk_tx sk"]]
  unfolding stick_acks_def send_def by auto

lemma stick_acks_same:
  "sk_tx sk' = sk_tx sk \<Longrightarrow> sk_session sk' = sk_session sk \<Longrightarrow> stick_acks items sk' = stick_acks items sk"
  by (simp add: stick_acks_def)

lemma hello_step_acks:
  assumes "deque_ok n (bd_deque B) items" shows "stick_acks items (hello_step B now sk) \<subseteq> stick_acks items sk"
proof -
  have "line_acks {device_hello (bd_version B) (sk_session sk)} \<subseteq> set_option (sk_session sk)"
    by (auto simp: device_hello_def line_acks_def)
  then have "stick_acks items (send B (device_hello (bd_version B) (sk_session sk)) sk) \<subseteq> stick_acks items sk"
    using send_acks [OF assms, of "device_hello (bd_version B) (sk_session sk)" sk] by (auto simp: stick_acks_def)
  then show ?thesis by (auto simp: hello_step_def stick_acks_def)
qed

lemma timeout_step_acks: "stick_acks items (timeout_step now sk) \<subseteq> stick_acks items sk"
  by (auto simp: timeout_step_def stick_acks_def)

lemma long_press_acks:
  assumes "deque_ok n (bd_deque B) items" shows "stick_acks items (fst (long_press_done B sk)) \<subseteq> stick_acks items sk"
proof -
  let ?sk = "sk\<lparr>sk_last_click := None, sk_render := sk_render sk \<or> (sk_daemon sk \<noteq> Connected \<and> sk_animating sk),
         sk_animating := False, sk_animation_height := 0\<rparr>"
  have "fst (long_press_done B sk) = ?sk \<or> fst (long_press_done B sk) = send B ShutdownRequested ?sk"
    by (simp add: long_press_done_def)
  moreover have "stick_acks items ?sk = stick_acks items sk" by (rule stick_acks_same) simp_all
  moreover have "stick_acks items (send B ShutdownRequested ?sk) \<subseteq> stick_acks items ?sk"
    using send_acks [OF assms, of ShutdownRequested ?sk] by simp
  ultimately show ?thesis by auto
qed

lemma button_step_tx:
  "(\<exists>b. fst (button_step B low now sk) = fst (long_press_done B (sk\<lparr>sk_button := b\<rparr>)))
   \<or> sk_tx (fst (button_step B low now sk)) = sk_tx sk \<and> sk_session (fst (button_step B low now sk)) = sk_session sk"
proof (cases "button_update low now (shutdown_hold (sk_config sk)) (sk_button sk)")
  case (Pair b action)
  then show ?thesis
    by (cases action; cases "the action") (auto simp: button_step_def Let_def short_press_def split: option.split)
qed

lemma button_step_acks:
  assumes "deque_ok n (bd_deque B) items" shows "stick_acks items (fst (button_step B low now sk)) \<subseteq> stick_acks items sk"
  using button_step_tx [of B low now sk]
proof
  assume "\<exists>b. fst (button_step B low now sk) = fst (long_press_done B (sk\<lparr>sk_button := b\<rparr>))"
  then obtain b where b: "fst (button_step B low now sk) = fst (long_press_done B (sk\<lparr>sk_button := b\<rparr>))" ..
  have "stick_acks items (sk\<lparr>sk_button := b\<rparr>) = stick_acks items sk" by (rule stick_acks_same) simp_all
  then show ?thesis unfolding b using long_press_acks [OF assms, of "sk\<lparr>sk_button := b\<rparr>"] by simp
next
  assume "sk_tx (fst (button_step B low now sk)) = sk_tx sk \<and> sk_session (fst (button_step B low now sk)) = sk_session sk"
  then have "stick_acks items (fst (button_step B low now sk)) = stick_acks items sk" by (intro stick_acks_same) simp_all
  then show ?thesis by simp
qed

lemma session_message_tx:
  "sk_tx (handle_session_message B now m sk) = sk_tx sk \<and> sk_session (handle_session_message B now m sk) = sk_session sk"
  by (cases m) (auto split: shutdown_phase.split)

lemma handle_host_message_acks:
  assumes "deque_ok n (bd_deque B) items"
  shows "stick_acks items (handle_host_message B now (Inr m) sk) \<subseteq> stick_acks items sk \<union> hears m"
proof (cases "\<exists>v s. m = HostHello v s")
  case True
  then obtain v s where m: "m = HostHello v s" by blast
  let ?sk = "sk\<lparr>sk_daemon := Waiting, sk_last_update := None, sk_session := Some s,
             sk_net := update_daemon_version v (sk_net sk), sk_config := (sk_config sk)\<lparr>dc_daemon_version := v\<rparr>\<rparr>"
  have "handle_host_message B now (Inr m) sk = (send B (device_hello (bd_version B) (Some s)) ?sk)\<lparr>sk_render := True\<rparr>"
    by (simp add: handle_host_message_def m)
  then have "stick_acks items (handle_host_message B now (Inr m) sk) = stick_acks items (send B (device_hello (bd_version B) (Some s)) ?sk)"
    by (simp add: stick_acks_def)
  moreover have "stick_acks items (send B (device_hello (bd_version B) (Some s)) ?sk) \<subseteq> stick_acks items ?sk \<union> {s}"
    using send_acks [OF assms, of "device_hello (bd_version B) (Some s)" ?sk] by (simp add: device_hello_def)
  moreover have "stick_acks items ?sk \<subseteq> stick_acks items sk \<union> {s}" by (auto simp: stick_acks_def)
  ultimately show ?thesis by (auto simp: m hears_def)
next
  case False
  have "stick_acks items (handle_host_message B now (Inr m) sk) = stick_acks items sk"
    using False handle_host_message_session [of m B now sk] session_message_tx [of B now m sk] by (intro stick_acks_same) auto
  then show ?thesis by simp
qed

section \<open>Authenticity\<close>

definition link_inv :: "('q \<Rightarrow> device_message list) \<Rightarrow> handshake_nonce set \<Rightarrow> ('q, 'm, 't) link \<Rightarrow> bool" where
  "link_inv items old l = (stick_acks items (lk_stick l) \<union> line_acks (set (lk_up l)) \<subseteq> lk_heard l \<union> old
     \<and> old \<subseteq> lk_used l \<and> dm_nonce (lk_host l) \<notin> old \<and> (dm_handshake (lk_host l) \<longrightarrow> dm_nonce (lk_host l) \<in> lk_heard l))"

lemma handle_message_established:
  "handle_message site tick d (Inr m) io = Some (Inr d', io') \<Longrightarrow> dm_handshake d' \<Longrightarrow>
   dm_handshake d \<or> (\<exists>v. m = DeviceHello v (Some (dm_nonce d)))"
  by (auto simp: handle_message_def go_on_def attempt_def leave_def
      split: device_message.splits option.splits if_splits sum.splits prod.splits)

lemma link_step_inv:
  assumes "link_step site B l l'" "deque_ok n (bd_deque B) items" "link_inv items old l"
  shows "link_inv items old l'"
  using assms(1,3)
proof cases
  case (host_receives m ms tick io d io')
  note keeps = handle_message_keeps [OF host_receives(3)] handle_message_established [OF host_receives(3)]
  show ?thesis using assms(3) host_receives keeps by (auto simp: link_inv_def)
next
  case (stick_receives m ms now)
  then show ?thesis using assms(3) handle_host_message_acks [OF assms(2), of now m "lk_stick l"] by (auto simp: link_inv_def)
next
  case (stick_hello now)
  then show ?thesis using assms(3) hello_step_acks [OF assms(2), of now "lk_stick l"] by (auto simp: link_inv_def)
next
  case (stick_timeout now)
  then show ?thesis using assms(3) timeout_step_acks [of items now "lk_stick l"] by (auto simp: link_inv_def)
next
  case (stick_button low now)
  then show ?thesis using assms(3) button_step_acks [OF assms(2), of low now "lk_stick l"] by (auto simp: link_inv_def)
next
  case (stick_sends m q)
  have "items (tx_queue (sk_tx (lk_stick l))) = m # items q" by (rule deque_pop [OF assms(2) stick_sends(2)])
  then show ?thesis using assms(3) stick_sends(1) by (auto simp: link_inv_def stick_acks_def)
qed (auto simp: link_inv_def on_open_def drop_connection_def)

lemma linked_inv:
  "linked site B items old l \<Longrightarrow> deque_ok n (bd_deque B) items \<Longrightarrow> link_inv items old l"
proof (induction rule: linked.induct)
  case (link_start sk up tick d down)
  then show ?case by (auto simp: link_inv_def on_open_def)
next
  case (link_next l l')
  then show ?case using link_step_inv by blast
qed

section \<open>The handshake\<close>

text \<open>(C3) The handshake authenticates the stick: whatever the line loses and whatever was queued on it
  or in the stick before, and however often the host reopens the port with a fresh nonce, the daemon
  holds a handshake only when the stick has handled the challenge of the current connection, so a
  stale acknowledgement of an earlier daemon never passes for one.\<close>

theorem handshake_authentic:
  assumes "linked site B items old l" "deque_ok n (bd_deque B) items" "dm_handshake (lk_host l)"
  shows "dm_nonce (lk_host l) \<in> lk_heard l"
  using linked_inv [OF assms(1,2)] assms(3) by (simp add: link_inv_def)

text \<open>A run: the port opens, the challenge is written and handled, the greeting the stick queued when it
  started and the answer are polled from its queue, the line loses the greeting, and the host handles
  the answer.\<close>

definition run_start :: "(device_message list, unit, unit) link" where
  "run_start = \<lparr>lk_host = on_open sample_tick sample_daemon, lk_stick = stick_new sample_board 0 sample_net, lk_down = [],
     lk_up = [], lk_heard = {}, lk_used = {HandshakeNonce 7}\<rparr>"

definition answer :: device_message where
  "answer = device_hello ''1'' (Some (HandshakeNonce 7))"

definition run_challenged :: "(device_message list, unit, unit) link" where
  "run_challenged = run_start\<lparr>lk_down := [HostHello (SoftwareVersion ''1.0'') (HandshakeNonce 7)]\<rparr>"

definition run_heard :: "(device_message list, unit, unit) link" where
  "run_heard = run_challenged\<lparr>lk_stick := handle_host_message sample_board 0
       (Inr (HostHello (SoftwareVersion ''1.0'') (HandshakeNonce 7))) (lk_stick run_challenged), lk_down := [],
     lk_heard := {HandshakeNonce 7}\<rparr>"

definition greeting :: device_message where
  "greeting = device_hello ''1'' None"

definition run_greeted :: "(device_message list, unit, unit) link" where
  "run_greeted = run_heard\<lparr>lk_stick := (lk_stick run_heard)\<lparr>sk_tx := (sk_tx (lk_stick run_heard))\<lparr>tx_queue := [answer]\<rparr>\<rparr>,
     lk_up := [greeting]\<rparr>"

definition run_answered :: "(device_message list, unit, unit) link" where
  "run_answered = run_greeted\<lparr>lk_stick := (lk_stick run_greeted)\<lparr>sk_tx := (sk_tx (lk_stick run_greeted))\<lparr>tx_queue := []\<rparr>\<rparr>,
     lk_up := [greeting, answer]\<rparr>"

definition run_passed :: "(device_message list, unit, unit) link" where
  "run_passed = run_answered\<lparr>lk_up := [answer]\<rparr>"

lemmas run_defs = run_passed_def run_answered_def run_greeted_def run_heard_def run_challenged_def run_start_def

lemma run_start_linked: "linked sample_site sample_board (\<lambda>q. q) {} run_start"
proof -
  have none: "stick_acks (\<lambda>q. q) (stick_new sample_board 0 sample_net :: (device_message list, unit, unit) stick) = {}"
    by (simp add: stick_acks_def stick_new_def usb_tx_new_def sample_board_def list_deque_def enqueue_def device_hello_def)
  show ?thesis
    using link_start [of "\<lambda>q. q" "stick_new sample_board 0 sample_net" "[]" "{}" sample_tick sample_site sample_board sample_daemon "[]"] none
    by (simp add: run_start_def sample_tick_def)
qed

lemma run_queue: "tx_queue (sk_tx (lk_stick run_heard)) = [greeting, answer]"
  by (simp add: run_heard_def run_challenged_def run_start_def handle_host_message_def send_def stick_new_def
      usb_tx_new_def enqueue_def sample_board_def list_deque_def answer_def greeting_def)

lemma run_passed_linked: "linked sample_site sample_board (\<lambda>q. q) {} run_passed"
proof -
  have pop: "dq_pop_front (bd_deque sample_board) (m # q) = Some (m, q)" for m q
    by (simp add: sample_board_def list_deque_def)
  have "link_step sample_site sample_board run_start run_challenged"
    using host_hello [of run_start sample_site sample_board]
    by (simp add: run_challenged_def run_start_def on_open_def sample_tick_def sample_site_def)
  moreover have "link_step sample_site sample_board run_challenged run_heard"
    using stick_receives [of run_challenged "HostHello (SoftwareVersion ''1.0'') (HandshakeNonce 7)" "[]" sample_site sample_board 0]
    by (simp add: run_heard_def run_challenged_def run_start_def hears_def)
  moreover have "link_step sample_site sample_board run_heard run_greeted"
    using stick_sends [of sample_board run_heard greeting "[answer]" sample_site] run_queue pop
    by (simp add: run_greeted_def run_heard_def run_challenged_def run_start_def)
  moreover have "link_step sample_site sample_board run_greeted run_answered"
    using stick_sends [of sample_board run_greeted answer "[]" sample_site] pop
    by (simp add: run_answered_def run_greeted_def)
  moreover have "link_step sample_site sample_board run_answered run_passed"
    using line_loses_up [of run_answered "[]" greeting "[answer]" sample_site sample_board]
    by (simp add: run_passed_def run_answered_def)
  ultimately show ?thesis using run_start_linked link_next by metis
qed

lemma run_accepted:
  "\<exists>d. handle_message sample_site sample_tick (lk_host run_passed) (Inr answer) \<lparr>io_log = [], io_faults = []\<rparr>
     = Some (Inr d, \<lparr>io_log = [], io_faults = []\<rparr>) \<and> dm_handshake d \<and> dm_nonce d = HandshakeNonce 7"
  by (simp add: run_defs on_open_def sample_tick_def answer_def device_hello_def handle_message_def go_on_def)

theorem handshake_authentic_witness:
  "\<exists>l :: (device_message list, unit, unit) link. linked sample_site sample_board (\<lambda>q. q) {} l \<and> dm_handshake (lk_host l) \<and> dm_nonce (lk_host l) \<in> lk_heard l"
proof -
  obtain d where d: "handle_message sample_site sample_tick (lk_host run_passed) (Inr answer) \<lparr>io_log = [], io_faults = []\<rparr>
     = Some (Inr d, \<lparr>io_log = [], io_faults = []\<rparr>)" "dm_handshake d" using run_accepted by blast
  let ?l = "run_passed\<lparr>lk_host := d, lk_up := []\<rparr>"
  have "link_step sample_site sample_board run_passed ?l"
    by (rule host_receives [OF _ d(1)]) (simp add: run_passed_def)
  then have l: "linked sample_site sample_board (\<lambda>q. q) {} ?l" using run_passed_linked link_next by blast
  then have "dm_nonce (lk_host ?l) \<in> lk_heard ?l"
    using handshake_authentic [OF l sample_deque_ok] d(2) by simp
  with l d(2) show ?thesis by (intro exI [of _ ?l]) simp
qed

end
