(* ===== verification/Dashboard_Buffer.thy ===== *)
theory Dashboard_Buffer
  imports Net_State
begin

text \<open>
  The bounded body of the status page and the escaping of text (\<open>DashboardBuffer\<close>, \<open>push_html\<close>
  and \<open>push_json\<close> of \<open>firmware/src/network.rs\<close>). The page code is a list of the writes it makes,
  in order: a \<open>push_str\<close>, or a \<open>write!\<close> with the pieces the formatting machinery passes on, which
  stops at the first piece the buffer refuses.
\<close>

section \<open>The buffer\<close>

definition dashboard_body_capacity :: nat where
  "dashboard_body_capacity = 16 * 1024"

record dashboard_buffer =
  db_inner :: str
  db_overflowed :: bool

definition buffer_new :: dashboard_buffer where
  "buffer_new = \<lparr>db_inner = [], db_overflowed = False\<rparr>"

definition push_str :: "dashboard_buffer \<Rightarrow> str \<Rightarrow> dashboard_buffer" where
  "push_str b v = (if length (db_inner b) + length v \<le> dashboard_body_capacity
     then b\<lparr>db_inner := db_inner b @ v\<rparr> else b\<lparr>db_overflowed := True\<rparr>)"

text \<open>\<open>write_str\<close> under \<open>core::fmt::write\<close>.\<close>

fun write_pieces :: "dashboard_buffer \<Rightarrow> str list \<Rightarrow> dashboard_buffer" where
  "write_pieces b [] = b"
| "write_pieces b (v # vs) = (let b' = push_str b v in if db_overflowed b' then b' else write_pieces b' vs)"

definition finish :: "bool \<Rightarrow> dashboard_buffer \<Rightarrow> str" where
  "finish document b = (if \<not> db_overflowed b then db_inner b
     else if document then ''<!doctype html><meta name=viewport content='width=device-width,initial-scale=1'><title>Servatory</title><p>Dashboard data exceeds the firmware response budget.</p>''
     else ''<div class=shell><p>Dashboard data exceeds the firmware response budget.</p></div>'')"

section \<open>Writes\<close>

datatype out = Push str | Fmt "str list"

fun emit :: "dashboard_buffer \<Rightarrow> out \<Rightarrow> dashboard_buffer" where
  "emit b (Push v) = push_str b v"
| "emit b (Fmt vs) = write_pieces b vs"

definition emit_all :: "out list \<Rightarrow> dashboard_buffer \<Rightarrow> dashboard_buffer" where
  "emit_all os b = foldl emit b os"

fun out_text :: "out \<Rightarrow> str" where
  "out_text (Push v) = v"
| "out_text (Fmt vs) = concat vs"

definition text_of :: "out list \<Rightarrow> str" where
  "text_of os = concat (map out_text os)"

lemma text_of_simps [simp]:
  "text_of [] = []"
  "text_of (x # os) = out_text x @ text_of os"
  "text_of (xs @ ys) = text_of xs @ text_of ys"
  by (simp_all add: text_of_def)

section \<open>Escaping\<close>

definition html_escape :: "str \<Rightarrow> str" where
  "html_escape g = (if g = ''&'' then ''&amp;'' else if g = ''<'' then ''&lt;'' else if g = ''>'' then ''&gt;''
     else if g = [CHR 0x22] then ''&quot;'' else g)"

definition push_html :: "str \<Rightarrow> out list" where
  "push_html v = map (\<lambda>g. Push (html_escape g)) (utf8_chars v)"

definition json_escape :: "str \<Rightarrow> str" where
  "json_escape g = (if g = [CHR 0x22] then [CHR 0x5C, CHR 0x22] else if g = [CHR 0x5C] then [CHR 0x5C, CHR 0x5C]
     else if g = [CHR 0x0A] then CHR 0x5C # ''n'' else if g = [CHR 0x0D] then CHR 0x5C # ''r''
     else if g = [CHR 0x09] then CHR 0x5C # ''t''
     else if is_control g then [] else g)"

text \<open>\<open>push_json\<close> appends to a string that is not bounded.\<close>

definition push_json :: "str \<Rightarrow> str \<Rightarrow> str" where
  "push_json output v = output @ concat (map json_escape (utf8_chars v))"

section \<open>What ends up in the buffer\<close>

lemma push_str_fits:
  "length (db_inner b) + length v \<le> dashboard_body_capacity \<Longrightarrow> push_str b v = b\<lparr>db_inner := db_inner b @ v\<rparr>"
  by (simp add: push_str_def)

lemma write_pieces_fits:
  "\<not> db_overflowed b \<Longrightarrow> length (db_inner b) + length (concat vs) \<le> dashboard_body_capacity
   \<Longrightarrow> write_pieces b vs = b\<lparr>db_inner := db_inner b @ concat vs\<rparr>"
  by (induction vs arbitrary: b) (simp_all add: push_str_fits Let_def)

lemma write_pieces_overflow:
  "db_overflowed b \<or> length (db_inner b) \<le> dashboard_body_capacity \<and> length (db_inner b) + length (concat vs) > dashboard_body_capacity
   \<Longrightarrow> db_overflowed (write_pieces b vs)"
proof (induction vs arbitrary: b)
  case (Cons v vs)
  then show ?case
    by (auto simp: push_str_def Let_def)
qed auto

lemma inner_bounded:
  "length (db_inner b) \<le> dashboard_body_capacity \<Longrightarrow> length (db_inner (write_pieces b vs)) \<le> dashboard_body_capacity"
  by (induction vs arbitrary: b) (auto simp: push_str_def Let_def)

lemma emit_bounded:
  "length (db_inner b) \<le> dashboard_body_capacity \<Longrightarrow> length (db_inner (emit b x)) \<le> dashboard_body_capacity"
  by (cases x) (auto simp: push_str_def inner_bounded)

lemma emit_fits:
  "\<not> db_overflowed b \<Longrightarrow> length (db_inner b) + length (out_text x) \<le> dashboard_body_capacity
   \<Longrightarrow> emit b x = b\<lparr>db_inner := db_inner b @ out_text x\<rparr>"
  by (cases x) (auto simp: push_str_fits write_pieces_fits)

lemma emit_overflow:
  "db_overflowed b \<or> length (db_inner b) \<le> dashboard_body_capacity \<and> length (db_inner b) + length (out_text x) > dashboard_body_capacity
   \<Longrightarrow> db_overflowed (emit b x)"
  by (cases x) (auto simp: push_str_def intro: write_pieces_overflow)

lemma emit_all_fits:
  "\<not> db_overflowed b \<Longrightarrow> length (db_inner b) + length (text_of os) \<le> dashboard_body_capacity
   \<Longrightarrow> emit_all os b = b\<lparr>db_inner := db_inner b @ text_of os\<rparr>"
  by (induction os arbitrary: b) (simp_all add: emit_all_def emit_fits)

lemma emit_all_overflow:
  "db_overflowed b \<or> length (db_inner b) \<le> dashboard_body_capacity \<and> length (db_inner b) + length (text_of os) > dashboard_body_capacity
   \<Longrightarrow> db_overflowed (emit_all os b)"
proof (induction os arbitrary: b)
  case (Cons x os)
  have "db_overflowed (emit b x) \<or> length (db_inner (emit b x)) \<le> dashboard_body_capacity
      \<and> length (db_inner (emit b x)) + length (text_of os) > dashboard_body_capacity"
  proof (cases "db_overflowed b \<or> length (db_inner b) + length (out_text x) > dashboard_body_capacity")
    case True
    then show ?thesis using Cons.prems emit_overflow [of b x] by blast
  next
    case False
    then show ?thesis using Cons.prems by (simp add: emit_fits)
  qed
  then show ?case using Cons.IH by (simp add: emit_all_def)
qed (auto simp: emit_all_def)

text \<open>The whole text when it fits, the fallback otherwise, however the writes are cut.\<close>

lemma finish_emit_all:
  "finish document (emit_all os buffer_new) = (if length (text_of os) \<le> dashboard_body_capacity then text_of os
     else finish document \<lparr>db_inner = [], db_overflowed = True\<rparr>)"
proof (cases "length (text_of os) \<le> dashboard_body_capacity")
  case True
  then have "emit_all os buffer_new = buffer_new\<lparr>db_inner := text_of os\<rparr>"
    using emit_all_fits [of buffer_new os] by (simp add: buffer_new_def)
  with True show ?thesis by (simp add: finish_def buffer_new_def)
next
  case False
  then have "db_overflowed (emit_all os buffer_new)"
    using emit_all_overflow [of buffer_new os] by (simp add: buffer_new_def)
  with False show ?thesis by (simp add: finish_def)
qed

section \<open>Escaped text stays text\<close>

text \<open>A reader of JSON strings (RFC 8259) for the escapes in use: the text up to the closing quote
  and what follows it; a raw control byte is an error.\<close>

definition json_unescape :: "char \<Rightarrow> char option" where
  "json_unescape c = (if c = CHR 0x22 \<or> c = CHR 0x5C then Some c else if c = CHR ''n'' then Some (CHR 0x0A)
     else if c = CHR ''r'' then Some (CHR 0x0D) else if c = CHR ''t'' then Some (CHR 0x09) else None)"

definition preceded :: "str \<Rightarrow> (str \<times> str) option \<Rightarrow> (str \<times> str) option" where
  "preceded g x = map_option (\<lambda>p. (g @ fst p, snd p)) x"

lemma preceded_simps [simp]:
  "preceded g (Some (a, b)) = Some (g @ a, b)"
  "preceded g None = None"
  "preceded [] x = x"
  "preceded g (preceded h x) = preceded (g @ h) x"
  by (cases x; simp add: preceded_def)+

fun read_json_string :: "str \<Rightarrow> (str \<times> str) option" where
  "read_json_string [] = None"
| "read_json_string (c # cs) =
     (if c = CHR 0x22 then Some ([], cs)
      else if c = CHR 0x5C then (case cs of [] \<Rightarrow> None | d # ds \<Rightarrow>
        Option.bind (json_unescape d) (\<lambda>e. preceded [e] (read_json_string ds)))
      else if of_char c < (32 :: nat) then None
      else preceded [c] (read_json_string cs))"

text \<open>What \<open>push_json\<close> keeps of a text: all but the control characters JSON has no short escape for.\<close>

definition json_kept :: "str \<Rightarrow> str" where
  "json_kept g = (if is_control g \<and> g \<notin> {[CHR 0x0A], [CHR 0x0D], [CHR 0x09]} then [] else g)"

lemma read_json_non_ascii:
  "list_all (\<lambda>x. \<not> is_ascii x) g \<Longrightarrow>
   read_json_string (g @ r) = preceded g (read_json_string r)"
proof (induction g)
  case (Cons c g)
  then have "c \<noteq> CHR 0x22" "c \<noteq> CHR 0x5C" "\<not> of_char c < (32 :: nat)" by (auto simp: is_ascii_def)
  then show ?case using Cons by (simp add:)
qed simp

lemma read_json_char:
  assumes "utf8_char g"
  shows "read_json_string (json_escape g @ r) = preceded (json_kept g) (read_json_string r)"
proof (cases "\<exists>c. g = [c] \<and> is_ascii c")
  case True
  then obtain c where c: "g = [c]" by blast
  consider "c = CHR 0x22" | "c = CHR 0x5C" | "c = CHR 0x0A" | "c = CHR 0x0D" | "c = CHR 0x09"
    | "is_control [c]" "c \<notin> {CHR 0x22, CHR 0x5C, CHR 0x0A, CHR 0x0D, CHR 0x09}"
    | "\<not> is_control [c]" "c \<notin> {CHR 0x22, CHR 0x5C, CHR 0x0A, CHR 0x0D, CHR 0x09}" by blast
  then show ?thesis
  proof cases
    case 6
    then show ?thesis by (simp add: c json_escape_def json_kept_def)
  next
    case 7
    then have "\<not> of_char c < (32 :: nat)" by (simp add: is_control_def)
    with 7 show ?thesis by (simp add: c json_escape_def json_kept_def)
  qed (simp_all add: c json_escape_def json_kept_def json_unescape_def is_control_def)
next
  case False
  with assms have g: "1 < length g" "list_all (\<lambda>x. \<not> is_ascii x) g" by (auto simp: utf8_char_def)
  have e: "json_escape g = json_kept g"
    using g(1) by (auto simp: json_escape_def json_kept_def)
  have "list_all (\<lambda>x. \<not> is_ascii x) (json_kept g)" using g(2) by (simp add: json_kept_def)
  then show ?thesis unfolding e by (rule read_json_non_ascii)
qed

lemma read_json_chars:
  "list_all utf8_char gs \<Longrightarrow> read_json_string (concat (map json_escape gs) @ r)
    = preceded (concat (map json_kept gs)) (read_json_string r)"
  by (induction gs) (simp_all add: read_json_char)

lemma push_json_read:
  "utf8_valid v \<Longrightarrow> read_json_string (push_json [] v @ CHR 0x22 # r) = Some (concat (map json_kept (utf8_chars v)), r)"
  by (simp add: push_json_def read_json_chars utf8_valid_chars)

lemma push_json_append: "push_json output v = output @ push_json [] v"
  by (simp add: push_json_def)

text \<open>HTML: what \<open>push_html\<close> writes holds no markup, and reading the entities gives the text back.\<close>

fun html_unescape :: "str list \<Rightarrow> str" where
  "html_unescape [] = []"
| "html_unescape (p # ps) = (if p = ''&amp;'' then ''&'' else if p = ''&lt;'' then ''<'' else if p = ''&gt;'' then ''>''
     else if p = ''&quot;'' then [CHR 0x22] else p) @ html_unescape ps"

lemma html_escape_plain:
  assumes "utf8_char g" shows "set (html_escape g) \<inter> {CHR ''<'', CHR ''>'', CHR 0x22} = {}"
proof (cases "\<exists>c. g = [c]")
  case True
  then show ?thesis by (auto simp: html_escape_def)
next
  case False
  with assms have "list_all (\<lambda>x. \<not> is_ascii x) g" "1 < length g" by (auto simp: utf8_char_def)
  moreover have "html_escape g = g" using \<open>1 < length g\<close> by (auto simp: html_escape_def)
  ultimately show ?thesis by (auto simp: list_all_iff is_ascii_def)
qed

lemma html_unescape_escape:
  assumes "list_all utf8_char gs" shows "html_unescape (map html_escape gs) = concat gs"
proof -
  have "g \<notin> {''&amp;'', ''&lt;'', ''&gt;'', ''&quot;''}" if "utf8_char g" for g
    using that by (auto simp: utf8_char_def is_ascii_def)
  then show ?thesis
    using assms by (induction gs) (auto simp: html_escape_def)
qed

lemma push_html_text: "text_of (push_html v) = concat (map html_escape (utf8_chars v))"
  by (simp add: text_of_def push_html_def comp_def)

lemma push_html_plain:
  "utf8_valid v \<Longrightarrow> set (text_of (push_html v)) \<inter> {CHR ''<'', CHR ''>'', CHR 0x22} = {}"
  using utf8_valid_chars [of v] html_escape_plain by (fastforce simp: push_html_text list_all_iff)

end
