(* ===== verification/Dashboard.thy ===== *)
theory Dashboard
  imports Dashboard_Buffer Rust_Float
begin

text \<open>
  The status page of the firmware's web server (\<open>dashboard_markup\<close>, \<open>render_page\<close> and the texts they
  use, \<open>firmware/src/network.rs\<close>). A rendering function is the list of its writes, in order.
\<close>

section \<open>Texts\<close>

definition mid_dot :: str where
  "mid_dot = map char_of [0xC2 :: nat, 0xB7]"

definition em_dash :: str where
  "em_dash = map char_of [0xE2 :: nat, 0x80, 0x94]"

definition degree :: str where
  "degree = map char_of [0xC2 :: nat, 0xB0]"

definition page_class :: "nat \<Rightarrow> str" where
  "page_class kind = (if kind = 0 then ''page-overview'' else if kind = 1 then ''page-resources''
     else if kind = 2 then ''page-storage'' else if kind = 3 then ''page-power''
     else if kind = 4 then ''page-guests'' else [])"

definition dashboard_icon :: "nat \<Rightarrow> str" where
  "dashboard_icon kind = (if kind = 0 then ''<svg aria-hidden=true viewBox='0 0 24 24' fill=none stroke=currentColor stroke-width=2 stroke-linecap=round stroke-linejoin=round><path d='M22 12h-2.48a2 2 0 0 0-1.93 1.46l-2.35 8.36a.25.25 0 0 1-.48 0L9.24 2.18a.25.25 0 0 0-.48 0l-2.35 8.36A2 2 0 0 1 4.49 12H2'/></svg>''
     else if kind = 1 then ''<svg aria-hidden=true viewBox='0 0 24 24' fill=none stroke=currentColor stroke-width=2 stroke-linecap=round stroke-linejoin=round><path d='m12 14 4-4'/><path d='M3.34 19a10 10 0 1 1 17.32 0'/></svg>''
     else if kind = 2 then ''<svg aria-hidden=true viewBox='0 0 24 24' fill=none stroke=currentColor stroke-width=2 stroke-linecap=round stroke-linejoin=round><path d='M10 16h.01'/><path d='M2.212 11.577a2 2 0 0 0-.212.896V18a2 2 0 0 0 2 2h16a2 2 0 0 0 2-2v-5.527a2 2 0 0 0-.212-.896L18.55 5.11A2 2 0 0 0 16.76 4H7.24a2 2 0 0 0-1.79 1.11z'/><path d='M21.946 12.013H2.054'/><path d='M6 16h.01'/></svg>''
     else if kind = 3 then ''<svg aria-hidden=true viewBox='0 0 24 24' fill=none stroke=currentColor stroke-width=2 stroke-linecap=round stroke-linejoin=round><rect x=16 y=16 width=6 height=6 rx=1/><rect x=2 y=16 width=6 height=6 rx=1/><rect x=9 y=2 width=6 height=6 rx=1/><path d='M5 16v-3a1 1 0 0 1 1-1h12a1 1 0 0 1 1 1v3'/><path d='M12 12V8'/></svg>''
     else if kind = 4 then ''<svg aria-hidden=true viewBox='0 0 24 24' fill=none stroke=currentColor stroke-width=2 stroke-linecap=round stroke-linejoin=round><path d='M2.97 12.92A2 2 0 0 0 2 14.63v3.24a2 2 0 0 0 .97 1.71l3 1.8a2 2 0 0 0 2.06 0L12 19v-5.5l-5-3-4.03 2.42Z'/><path d='m7 16.5-4.74-2.85'/><path d='m7 16.5 5-3'/><path d='M7 16.5v5.17'/><path d='M12 13.5V19l3.97 2.38a2 2 0 0 0 2.06 0l3-1.8a2 2 0 0 0 .97-1.71v-3.24a2 2 0 0 0-.97-1.71L17 10.5l-5 3Z'/><path d='m17 16.5-5-3'/><path d='m17 16.5 4.74-2.85'/><path d='M17 16.5v5.17'/><path d='M7.97 4.42A2 2 0 0 0 7 6.13v4.37l5 3 5-3V6.13a2 2 0 0 0-.97-1.71l-3-1.8a2 2 0 0 0-2.06 0l-3 1.8Z'/><path d='M12 8 7.26 5.15'/><path d='m12 8 4.74-2.85'/><path d='M12 13.5V8'/></svg>''
     else if kind = 5 then ''<svg aria-hidden=true viewBox='0 0 24 24' fill=none stroke=currentColor stroke-width=2 stroke-linecap=round stroke-linejoin=round><path d='M10.268 21a2 2 0 0 0 3.464 0'/><path d='M3.262 15.326A1 1 0 0 0 4 17h16a1 1 0 0 0 .74-1.673C19.41 13.956 18 12.499 18 8A6 6 0 0 0 6 8c0 4.499-1.411 5.956-2.738 7.326'/></svg>''
     else if kind = 6 then ''<svg aria-hidden=true viewBox='0 0 24 24' fill=none stroke=currentColor stroke-width=2 stroke-linecap=round stroke-linejoin=round><circle cx=12 cy=12 r=10/><path d='M12 16v-4'/><path d='M12 8h.01'/></svg>''
     else if kind = 7 then ''<svg aria-hidden=true viewBox='0 0 24 24' fill=none stroke=currentColor stroke-width=2 stroke-linecap=round stroke-linejoin=round><path d='m21.73 18-8-14a2 2 0 0 0-3.48 0l-8 14A2 2 0 0 0 4 21h16a2 2 0 0 0 1.73-3'/><path d='M12 9v4'/><path d='M12 17h.01'/></svg>''
     else [])"

definition level_class :: "health_level \<Rightarrow> str" where
  "level_class l = (case l of Healthy \<Rightarrow> ''ok'' | Warning \<Rightarrow> ''warn'' | Critical \<Rightarrow> ''crit'')"

definition level_text :: "health_level \<Rightarrow> str" where
  "level_text l = (case l of Healthy \<Rightarrow> ''HEALTHY'' | Warning \<Rightarrow> ''WARNING'' | Critical \<Rightarrow> ''CRITICAL'')"

definition show_u32 :: "u32 \<Rightarrow> str" where
  "show_u32 n = dec (unat n)"

definition ipv4_text :: "u8 list \<Rightarrow> str" where
  "ipv4_text a = dec (unat (a ! 0)) @ ''.'' @ dec (unat (a ! 1)) @ ''.'' @ dec (unat (a ! 2)) @ ''.'' @ dec (unat (a ! 3))"

definition format_capacity_mib :: "u32 \<Rightarrow> str" where
  "format_capacity_mib mebibytes = (let m = unat mebibytes in
     if m \<ge> 1048576 then (let tenths = m * 10 div 1048576 in dec (tenths div 10) @ ''.'' @ dec (tenths mod 10) @ '' TiB'')
     else if m \<ge> 1024 then (let tenths = m * 10 div 1024 in dec (tenths div 10) @ ''.'' @ dec (tenths mod 10) @ '' GiB'')
     else dec m @ '' MiB'')"

definition format_duration_compact :: "u32 \<Rightarrow> str" where
  "format_duration_compact seconds = (let s = unat seconds in
     if s \<ge> 86400 then dec (s div 86400) @ ''d '' @ dec (s mod 86400 div 3600) @ ''h''
     else if s \<ge> 3600 then dec (s div 3600) @ ''h '' @ dec (s mod 3600 div 60) @ ''m''
     else dec (s div 60) @ ''m'')"

definition backup_status_text :: "health_snapshot \<Rightarrow> str" where
  "backup_status_text s = (case hs_backup s of
     BackupHealthy \<Rightarrow> (case hs_backup_age s of None \<Rightarrow> ''Healthy''
       | Some seconds \<Rightarrow> (''Healthy '' @ mid_dot @ '' '') @ format_duration_compact seconds @ '' ago'')
   | BackupRunning \<Rightarrow> ''Running''
   | BackupFailed \<Rightarrow> ''Failed''
   | BackupStale \<Rightarrow> (case hs_backup_age s of None \<Rightarrow> ''Overdue''
       | Some seconds \<Rightarrow> format_duration_compact seconds @ '' old'')
   | NoJob \<Rightarrow> ''No job''
   | BackupUnknown \<Rightarrow> ''Unknown'')"

definition backup_status_class :: "backup_job_status \<Rightarrow> str" where
  "backup_status_class s = (case s of BackupHealthy \<Rightarrow> ''ok'' | BackupRunning \<Rightarrow> ''ok'' | BackupFailed \<Rightarrow> ''warn''
     | BackupStale \<Rightarrow> ''warn'' | NoJob \<Rightarrow> ''warn'' | BackupUnknown \<Rightarrow> ''crit'')"

definition smart_status_text :: "smart_status \<Rightarrow> str" where
  "smart_status_text s = (case s of SmartHealthy \<Rightarrow> ''HEALTHY'' | SmartWarning \<Rightarrow> ''WARNING'' | SmartFailed \<Rightarrow> ''FAILED''
     | Sleeping \<Rightarrow> ''SLEEPING'' | SmartUnknown \<Rightarrow> ''UNKNOWN'')"

definition smart_status_class :: "smart_status \<Rightarrow> str" where
  "smart_status_class s = (case s of SmartHealthy \<Rightarrow> ''ok'' | Sleeping \<Rightarrow> [] | SmartWarning \<Rightarrow> ''warn''
     | SmartUnknown \<Rightarrow> ''warn'' | SmartFailed \<Rightarrow> ''crit'')"

definition ups_status_text :: "ups_status \<Rightarrow> bool \<Rightarrow> str" where
  "ups_status_text s stale = (if stale \<and> s \<noteq> Unavailable then ''STALE'' else case s of
     NotConfigured \<Rightarrow> ''NOT CONFIGURED'' | UpsUnknown \<Rightarrow> ''NO DATA'' | Unavailable \<Rightarrow> ''NO DATA''
   | Online \<Rightarrow> ''ONLINE'' | OnBattery \<Rightarrow> ''ON BATTERY'' | LowBattery \<Rightarrow> ''LOW BATTERY'' | Charging \<Rightarrow> ''CHARGING''
   | Bypass \<Rightarrow> ''BYPASS'' | OutputOff \<Rightarrow> ''OUTPUT OFF'' | ReplaceBattery \<Rightarrow> ''REPLACE BATTERY'')"

definition ups_status_class :: "ups_status \<Rightarrow> str" where
  "ups_status_class s = (case s of Online \<Rightarrow> ''ok'' | Charging \<Rightarrow> ''ok'' | NotConfigured \<Rightarrow> []
     | OnBattery \<Rightarrow> ''warn'' | Bypass \<Rightarrow> ''warn'' | UpsUnknown \<Rightarrow> ''warn'' | Unavailable \<Rightarrow> ''warn''
     | LowBattery \<Rightarrow> ''crit'' | OutputOff \<Rightarrow> ''crit'' | ReplaceBattery \<Rightarrow> ''crit'')"

definition internet_status_text :: "internet_status \<Rightarrow> str" where
  "internet_status_text s = (case s of Reachable \<Rightarrow> ''REACHABLE'' | Checking \<Rightarrow> ''CHECKING'' | Missed \<Rightarrow> ''RETRYING''
     | NetFailed \<Rightarrow> ''FAILED'')"

definition internet_status_class :: "internet_status \<Rightarrow> str" where
  "internet_status_class s = (case s of Reachable \<Rightarrow> ''ok'' | Checking \<Rightarrow> ''warn'' | Missed \<Rightarrow> ''warn'' | NetFailed \<Rightarrow> ''crit'')"

section \<open>The pages\<close>

definition render_metric :: "str \<Rightarrow> u8 \<Rightarrow> str \<Rightarrow> out list" where
  "render_metric label percent detail =
     [Push ''<div class=metric><div class=metric-row><strong>'']
     @ push_html label
     @ [Fmt [ ''</strong><span>'', dec (unat percent), (''% '' @ mid_dot @ '' '')]]
     @ push_html detail
     @ [Fmt [ ''</span></div><div class=bar><i style='width:'', dec (unat (min percent 100)), ''%'></i></div></div>'']]"

definition render_overview :: "health_snapshot \<Rightarrow> out list" where
  "render_overview s = (let running = length (filter (\<lambda>g. g_status g = GuestRunning) (hs_guests s));
       days = hs_uptime s div 86400; hours = hs_uptime s mod 86400 div 3600
     in [Push ''<div class=overview-lead><span class=pulse></span><div><span class=label>Current state</span><strong class='',
         Push (level_class (hr_level (hs_health s))), Push ''>'']
       @ push_html (hr_message (hs_health s))
       @ [Push ''</strong></div></div><div class=overview-grid><div class=datum><span class=label>Host</span><strong>'']
       @ push_html (hs_host_name s)
       @ [Fmt [ ''</strong></div><div class=datum><span class=label>Uptime</span><strong>'', dec (unat days), ''d '', dec (unat hours),
            ''h</strong></div><div class=datum><span class=label>Network</span><strong>'']]
       @ (if hs_interface s = [] then [Push ''No interface''] else push_html (hs_interface s))
       @ [Fmt [ ''</strong><small>'', dec (unat (hs_network_mbps s)),
            '' Mbps</small></div><div class=datum><span class=label>Guests</span><strong>'', dec running, '' / '',
            dec (length (hs_guests s)), ''</strong><small>running / total</small></div></div>'']])"

definition page_memory_percent :: "health_snapshot \<Rightarrow> nat" where
  "page_memory_percent s = (if hs_mem_total s = 0 then 0 else unat (hs_mem_used s) * 100 div unat (hs_mem_total s))"

definition render_resources :: "health_snapshot \<Rightarrow> out list" where
  "render_resources s =
     render_metric ''CPU'' (hs_cpu s) ''processor usage''
     @ render_metric ''Memory'' (unwrap_or 100 (try_word (page_memory_percent s)))
         (show_u32 (hs_mem_used s) @ '' / '' @ show_u32 (hs_mem_total s) @ '' MiB'')
     @ render_metric ''I/O pressure'' (hs_io_pressure s) ''recent pressure''
     @ [Fmt [ ''<div class=inline-stat><span class=label>Load average</span><strong>'', f32_fmt2 (f32_of_nat_div100 (unat (hs_load_x100 s))),
          ''</strong></div>'']]"

definition render_filesystem :: "display_label list \<Rightarrow> nat \<times> filesystem_usage \<Rightarrow> out list" where
  "render_filesystem labels entry = (case entry of (index, usage) \<Rightarrow>
     let label = (case get_nth labels index of None \<Rightarrow> ''Filesystem'' | Some l \<Rightarrow> label_str l);
         detail = (if fs_mounted usage then format_capacity_mib (fs_available_mib usage) @ '' available'' else ''MISSING'')
     in render_metric label (fs_used_percent usage) detail)"

definition show_i8 :: "i8 \<Rightarrow> str" where
  "show_i8 n = (if n < 0 then CHR ''-'' # dec (nat (- n)) else dec (nat n))"

definition render_smart :: "smart_device \<Rightarrow> out list" where
  "render_smart d =
     [Push ''<div class=table-row><strong>'']
     @ push_html (sd_label d)
     @ [Fmt [ ''</strong><span class='', smart_status_class (sd_status d), ''>'', smart_status_text (sd_status d),
          (case sd_temperature d of None \<Rightarrow> [] | Some t \<Rightarrow> ('' '' @ mid_dot @ '' '') @ show_i8 t @ (degree @ ''C''))],
        Push ''</span></div>'']"

definition render_storage :: "display_label list \<Rightarrow> health_snapshot \<Rightarrow> out list" where
  "render_storage labels s =
     [Push ''<div class=storage-grid><section class=subpanel><h3 class=section-title>Filesystems</h3>'']
     @ concat (map (render_filesystem labels) (List.enumerate 0 (hs_filesystems s)))
     @ [Push ''</section><section class=subpanel><h3 class=section-title>SMART devices</h3><div class=table-list>'']
     @ (if hs_smart s = [] then [Push ''<p class=empty>Not configured</p>''] else [])
     @ concat (map render_smart (hs_smart s))
     @ [Push ''</div></section></div><div class=backup-strip><span class=label>Proxmox backup</span><strong class='',
        Push (backup_status_class (hs_backup s)), Push ''>'']
     @ push_html (backup_status_text s)
     @ [Push ''</strong></div>'']"

definition render_ups :: "ups_snapshot \<Rightarrow> out list" where
  "render_ups u =
     [Push ''<div class=power-grid><section class=subpanel><h3 class=section-title>UPS</h3><div class=table-list><div class=table-row><strong>Status</strong><span class='',
        Push (ups_status_class (ups_status u)), Push ''>'']
     @ push_html (ups_status_text (ups_status u) (ups_stale u))
     @ [Push ''</span></div><div class=table-row><strong>Battery</strong><span>'']
     @ (case ups_battery u of Some battery \<Rightarrow> [Fmt [dec (unat battery), ''%'']] | None \<Rightarrow> [Push em_dash])
     @ [Push ''</span></div><div class=table-row><strong>Load</strong><span>'']
     @ (case (ups_load u, ups_watts u) of
          (Some load, Some watts) \<Rightarrow> [Fmt [dec (unat load), (''% '' @ mid_dot @ '' ~''), dec (unat watts), '' W'']]
        | (Some load, None) \<Rightarrow> [Fmt [dec (unat load), ''%'']]
        | (None, _) \<Rightarrow> [Push em_dash])
     @ [Push ''</span></div><div class=table-row><strong>Runtime</strong><span>'']
     @ (case ups_runtime u of Some seconds \<Rightarrow> push_html (format_duration_compact seconds) | None \<Rightarrow> [Push em_dash])"

definition render_power_network :: "health_snapshot \<Rightarrow> out list" where
  "render_power_network s = render_ups (hs_ups s)
     @ [Push ''</span></div></div></section><section class=subpanel><h3 class=section-title>Ethernet</h3><div class=table-list><div class=table-row><strong>Interface</strong><span>'']
     @ (if hs_interface s = [] then [Push ''Not found''] else push_html (hs_interface s))
     @ [Fmt [ ''</span></div><div class=table-row><strong>Link</strong><span class='', (if hs_network_up s then ''ok'' else ''crit''), ''>'',
          (if hs_network_up s then ''UP'' else ''DOWN''), ('' '' @ mid_dot @ '' ''), dec (unat (hs_network_mbps s)),
          '' Mbps</span></div><div class=table-row><strong>Internet</strong><span class='', internet_status_class (hs_internet s), ''>'',
          internet_status_text (hs_internet s), ''</span></div><div class=table-row><strong>Host IPv4</strong><span>'',
          dec (unat (hs_ipv4 s ! 0)), ''.'', dec (unat (hs_ipv4 s ! 1)), ''.'', dec (unat (hs_ipv4 s ! 2)), ''.'', dec (unat (hs_ipv4 s ! 3)),
          ''</span></div>'']]
     @ (if hs_internet s \<noteq> Reachable then
          [Push ''<div class=table-row><strong>Last reachable</strong><span>'']
          @ (case hs_internet_age s of Some seconds \<Rightarrow> [Fmt [format_duration_compact seconds, '' ago'']] | None \<Rightarrow> [Push ''Unknown''])
          @ [Push ''</span></div>'']
        else [])
     @ [Push ''</div></section></div>'']"

definition guest_memory_percent :: "guest_summary \<Rightarrow> u8" where
  "guest_memory_percent g = (if g_mem_total g = 0 then 0 else of_nat (min (unat (g_mem_used g) * 100 div unat (g_mem_total g)) 100))"

definition render_guest :: "guest_summary \<Rightarrow> out list" where
  "render_guest g =
     [Fmt [ ''<div class=guest-row><span class=guest-id>#'', show_u32 (g_vmid g), ''</span><div class=guest-name><strong>'']]
     @ push_html (g_name g)
     @ [Push ''</strong><small>'',
        Push (case g_kind g of VirtualMachine \<Rightarrow> ''Virtual machine'' | Container \<Rightarrow> ''Container''),
        Fmt [ ''</small></div><span class='guest-state '', (if g_status g = GuestRunning then ''ok'' else ''crit''), '''>'',
          (if g_status g = GuestRunning then ''RUNNING'' else ''STOPPED''),
          ''</span><div class=guest-usage><span><b>CPU</b><b>'', dec (unat (g_cpu g)), ''%</b></span><div class=bar><i style='width:'',
          dec (unat (min (g_cpu g) 100)), ''%'></i></div><span><b>Memory</b><b>'', show_u32 (g_mem_used g), '' / '', show_u32 (g_mem_total g),
          '' MiB</b></span><div class=bar><i style='width:'', dec (unat (guest_memory_percent g)), ''%'></i></div></div></div>'']]"

definition render_guests :: "health_snapshot \<Rightarrow> out list" where
  "render_guests s =
     [Push ''<div class=guest-list>'']
     @ (if hs_guests s = [] then [Push ''<p class=empty>No guests reported</p>''] else [])
     @ concat (map render_guest (hs_guests s))
     @ [Push ''</div>'']"

fun render_page :: "display_page \<Rightarrow> health_snapshot \<Rightarrow> display_label list \<Rightarrow> out list" where
  "render_page Overview s labels = render_overview s"
| "render_page Resources s labels = render_resources s"
| "render_page (Storage l fs sm) s labels = render_storage labels s"
| "render_page (PowerNetwork l) s labels = render_power_network s"
| "render_page (Guests o1 l) s labels = render_guests s"

section \<open>The document\<close>

text \<open>The parts of the page that need the version the firmware was built with take it as an argument.\<close>

definition about_fact :: "str \<times> str \<Rightarrow> out list" where
  "about_fact f = [Push ''<div class=fact><span class=label>''] @ push_html (fst f) @ [Push ''</span><strong>'']
     @ push_html (snd f) @ [Push ''</strong></div>'']"

definition render_device_panels :: "str \<Rightarrow> shared_state \<Rightarrow> out list" where
  "render_device_panels build_version st = (let
       address = (case sh_station_ipv4 st of None \<Rightarrow> ''WAITING'' | Some a \<Rightarrow> ipv4_text a);
       daemon = (case sh_daemon_version st of None \<Rightarrow> ''WAITING'' | Some v \<Rightarrow> version_str v);
       hostname = (case sh_manifest st of None \<Rightarrow> ''servatory'' | Some m \<Rightarrow> hc_hostname (net_http m));
       protocol = dec (unat protocol_version);
       (enabled, server) = (case sh_manifest st of None \<Rightarrow> (False, em_dash)
         | Some m \<Rightarrow> (nc_enabled (net_ntfy m), nc_server (net_ntfy m)))
     in [Push ''<section class='card notifications'><div class=card-head><span class=icon>'', Push (dashboard_icon 5),
         Push ''</span><h2>Notifications</h2></div>'']
       @ (case sh_topic st of None \<Rightarrow> [] | Some topic \<Rightarrow>
           [Push ''<span class=label>ntfy topic</span><div class=topic-wrap><code id=topic class=topic>'']
           @ push_html topic
           @ [Push ''</code><button class=copy-button type=button onclick='copyNtfyTopic(this)'>Copy</button></div>''])
       @ [Fmt [ ''<div class=facts><div class=fact><span class=label>Status</span><strong class='', (if enabled then ''ok'' else ''warn''), ''>'',
            (if enabled then ''ENABLED'' else ''DISABLED''), ''</strong></div>''],
          Push ''<div class=fact><span class=label>Server</span><strong>'']
       @ push_html server
       @ [Push (''</strong></div></div><div class=button-row><button data-client-state type=button onclick='sendTestNotification(this)'>Send test notification</button><span data-client-state id=test-feedback class=test-feedback aria-live=polite></span><button class=button-secondary type=button onclick='' @ [CHR 0x22] @ ''if(confirm('Generate a new topic? Existing ntfy subscriptions will stop receiving Servatory alerts.'))fetch('/api/v1/notifications/topic/regenerate',{method:'POST',headers:{'X-Servatory-Action':'regenerate'}).then(()=>location.reload())'' @ [CHR 0x22] @ ''>Generate new topic</button></div></section>''),
          Push ''<section class='card about'><div class=card-head><span class=icon>'', Push (dashboard_icon 6),
          Push ''</span><h2>About</h2></div><div class=facts>'']
       @ concat (map about_fact [(''Firmware'', build_version), (''Daemon'', daemon), (''Protocol'', protocol),
           (''IP address'', address), (''Hostname'', hostname)])
       @ [Push ''</div><p class=about-note>Servatory firmware and host connection details.</p></section>''])"

fun page_kind :: "display_page \<Rightarrow> nat" where
  "page_kind Overview = 0"
| "page_kind Resources = 1"
| "page_kind (Storage l fs sm) = 2"
| "page_kind (PowerNetwork l) = 3"
| "page_kind (Guests o1 l) = 4"

text \<open>The loop over the views, with the kinds already shown.\<close>

fun render_views :: "health_snapshot \<Rightarrow> display_label list \<Rightarrow> bool list \<Rightarrow> display_view list \<Rightarrow> out list" where
  "render_views s labels shown [] = []"
| "render_views s labels shown (view # views) = (let kind = page_kind (dv_page view) in
     if shown ! kind then render_views s labels shown views
     else [Fmt [ ''<section class='card page-card '', page_class kind, '''><div class=card-head><span class=icon>''],
           Push (dashboard_icon kind), Push ''</span><h2>'']
       @ push_html (label_str (dv_title view)) @ [Push ''</h2></div>'']
       @ render_page (dv_page view) s labels @ [Push ''</section>'']
       @ render_views s labels (shown[kind := True]) views)"

definition render_incidents :: "incident list \<Rightarrow> out list" where
  "render_incidents incidents = (if incidents = [] then [] else
     [Push ''<section class='card wide'><div class=card-head><span class='icon icon-alert'>'', Push (dashboard_icon 7),
      Push ''</span><h2>Active incidents</h2></div><ul class=incident-list>'']
     @ concat (map (\<lambda>i. [Fmt [ ''<li class='', level_class (inc_level i), ''>'']] @ push_html (inc_message i) @ [Push ''</li>'']) incidents)
     @ [Push ''</ul></section>''])"

definition age_text :: "nat option \<Rightarrow> str" where
  "age_text age = (case age of None \<Rightarrow> ''No host snapshot received''
     | Some seconds \<Rightarrow> if seconds = 0 then ''Updated just now'' else if seconds = 1 then ''Updated 1 second ago''
         else ''Updated '' @ dec seconds @ '' seconds ago'')"

definition render_document :: "str \<Rightarrow> time \<Rightarrow> time \<Rightarrow> shared_state \<Rightarrow> bool \<Rightarrow> out list" where
  "render_document build_version now1 now2 st document = (let
       incidents = active_incidents st now1;
       age = map_option us_secs (snapshot_age st now2);
       stale = is_none_or (\<lambda>a. a \<ge> us_secs host_stale_after) age;
       level = (case sh_snapshot st of None \<Rightarrow> Critical | Some s \<Rightarrow> hr_level (hs_health s));
       close = [Push ''</main></div>''] @ (if document then [Push ''</body></html>''] else [])
     in (if document then
           [Push ''<!doctype html><html lang=en><head><meta charset=utf-8><meta name=viewport content='width=device-width,initial-scale=1'><meta name=theme-color content='#f2f6f8'><title>Servatory status</title><link rel=stylesheet href=/dashboard.css><script defer src=/dashboard.js></script>'',
            Fmt [ ''</head><body class='', level_class level, ''>'']]
         else [])
       @ [Fmt [ ''<div class=shell data-body-class='', level_class level, '' data-snapshot-age='',
            (case age of None \<Rightarrow> ''-1'' | Some a \<Rightarrow> dec a), '' data-stale-after='', dec (us_secs host_stale_after),
            ''><header class=hero><div class=hero-top><div class=brand><span class=brand-mark>'', dashboard_icon 0,
            ''</span><span>SERVATORY</span></div><div class=live>'', (if stale then ''STALE'' else ''LIVE''),
            ''</div></div><div class=hero-status><div class=eyebrow>System health</div><h1>'', level_text level,
            ''</h1><p class=snapshot-age aria-live=polite>'', age_text age, ''</p></div></header>'']]
       @ render_incidents incidents
       @ [Push ''<main class=grid>'']
       @ (case sh_snapshot st of
            None \<Rightarrow> render_device_panels build_version st @ close
          | Some s \<Rightarrow> render_views s (sh_labels st) (replicate 5 False)
                (case sh_manifest st of None \<Rightarrow> [] | Some m \<Rightarrow> hc_pages (net_http m))
              @ render_device_panels build_version st @ close))"

definition dashboard_markup :: "str \<Rightarrow> time \<Rightarrow> time \<Rightarrow> shared_state \<Rightarrow> bool \<Rightarrow> str" where
  "dashboard_markup build_version now1 now2 st document =
     finish document (emit_all (render_document build_version now1 now2 st document) buffer_new)"

definition dashboard_html :: "str \<Rightarrow> time \<Rightarrow> time \<Rightarrow> shared_state \<Rightarrow> str" where
  "dashboard_html build_version now1 now2 st = dashboard_markup build_version now1 now2 st True"

definition dashboard_fragment :: "str \<Rightarrow> time \<Rightarrow> time \<Rightarrow> shared_state \<Rightarrow> str" where
  "dashboard_fragment build_version now1 now2 st = dashboard_markup build_version now1 now2 st False"

section \<open>Properties\<close>

text \<open>(C37) The page is exact or replaced as a whole: however the writes are cut, the body is the
  whole text they amount to when that fits in 16 KiB, and otherwise the notice; never a truncated
  page, and never more than 16 KiB.\<close>

theorem dashboard_exact:
  "dashboard_markup build_version now1 now2 st document =
     (let body = text_of (render_document build_version now1 now2 st document) in
      if length body \<le> dashboard_body_capacity then body else finish document \<lparr>db_inner = [], db_overflowed = True\<rparr>)
   \<and> length (dashboard_markup build_version now1 now2 st document) \<le> dashboard_body_capacity"
proof -
  have "length (finish document \<lparr>db_inner = [], db_overflowed = True\<rparr>) \<le> dashboard_body_capacity"
    by (simp add: finish_def dashboard_body_capacity_def)
  then show ?thesis by (simp add: dashboard_markup_def finish_emit_all Let_def)
qed

text \<open>The badge of the page and the incident agree when the clock is read once.\<close>

lemma stale_badge_agrees:
  "is_none_or (\<lambda>a. a \<ge> us_secs host_stale_after) (map_option us_secs (snapshot_age st now))
     \<longleftrightarrow> is_none_or (\<lambda>age. age \<ge> host_stale_after) (snapshot_age st now)"
  by (cases "snapshot_age st now") (simp_all add: us_secs_ge host_stale_after_def, simp add: us_secs_def sec_us_def div_le_mono less_eq_div_iff_mult_less_eq)

end
