(* ===== verification/Notify.thy ===== *)
theory Notify
  imports Net_State
begin

text \<open>
  The notification worker of the firmware (\<open>notification_worker\<close>, \<open>push_pending\<close> and
  \<open>publish_notification\<close> of \<open>firmware/src/network.rs\<close>). One turn of its loop is a function of the
  shared state, the clock readings and the answer of the HTTP client, a parameter.
\<close>

section \<open>The queue\<close>

record pending_notification =
  pn_message :: str
  pn_priority :: notification_priority
  pn_recovery :: bool

definition max_pending_notifications :: nat where
  "max_pending_notifications = 8"

definition push_pending :: "pending_notification list \<Rightarrow> pending_notification \<Rightarrow> pending_notification list" where
  "push_pending queue v = (let q = (if length queue = max_pending_notifications then tl queue else queue) in q @ [v])"

section \<open>Publishing\<close>

record http_request =
  rq_url :: str
  rq_headers :: "(str \<times> str) list"
  rq_body :: str

definition publish_request :: "ntfy_config \<Rightarrow> str \<Rightarrow> pending_notification \<Rightarrow> http_request" where
  "publish_request config topic n = \<lparr>
     rq_url = trim_end_char (CHR ''/'') (nc_server config) @ ''/'' @ topic,
     rq_headers = [(''Title'', if pn_recovery n then ''Servatory recovery'' else ''Servatory incident''),
       (''Priority'', case pn_priority n of PrioDefault \<Rightarrow> ''default'' | PrioHigh \<Rightarrow> ''high'' | PrioUrgent \<Rightarrow> ''urgent''),
       (''Tags'', if pn_recovery n then ''white_check_mark'' else ''warning''),
       (''Click'', unwrap_or [] (nc_click_url config))],
     rq_body = pn_message n\<rparr>"

text \<open>The certificate, decoded from base64, is the worker's; the client answers whether the
  request was answered with success under a TLS seed.\<close>

definition publish_notification ::
  "u8 list \<Rightarrow> (u64 \<Rightarrow> http_request \<Rightarrow> bool) \<Rightarrow> ntfy_config \<Rightarrow> str \<Rightarrow> pending_notification \<Rightarrow> u64 \<Rightarrow> bool" where
  "publish_notification ca post config topic n seed =
     (if ca = [] then False else post seed (publish_request config topic n))"

section \<open>One turn of the worker\<close>

record worker =
  wk_seed :: u64
  wk_previous :: "incident list"
  wk_pending :: "pending_notification list"
  wk_next_repeat :: "time option"

definition worker_new :: "u64 \<Rightarrow> worker" where
  "worker_new seed = \<lparr>wk_seed = seed, wk_previous = [], wk_pending = [], wk_next_repeat = None\<rparr>"

text \<open>What a turn reads: the shared state, whether a test was requested, the clock each time it is
  read (for the age, for arming the repetition, for comparing, for arming it again), and the
  answers of the client.\<close>

record turn =
  tn_state :: shared_state
  tn_test :: bool
  tn_now :: time
  tn_arm :: time
  tn_due :: time
  tn_rearm :: time
  tn_post :: "u64 \<Rightarrow> http_request \<Rightarrow> bool"

definition test_notification :: pending_notification where
  "test_notification = \<lparr>pn_message = ''Servatory test notification'', pn_priority = PrioDefault, pn_recovery = False\<rparr>"

definition incident_notification :: "ntfy_config \<Rightarrow> incident \<Rightarrow> pending_notification" where
  "incident_notification config i = \<lparr>pn_message = inc_message i,
     pn_priority = (if inc_level i = Critical then nc_critical_priority config else nc_warning_priority config),
     pn_recovery = False\<rparr>"

definition repeat_notification :: "ntfy_config \<Rightarrow> incident \<Rightarrow> pending_notification" where
  "repeat_notification config i = \<lparr>pn_message = ''STILL ACTIVE: '' @ inc_message i,
     pn_priority = nc_critical_priority config, pn_recovery = False\<rparr>"

definition recovery_notification :: "ntfy_config \<Rightarrow> incident \<Rightarrow> pending_notification" where
  "recovery_notification config i = \<lparr>pn_message = ''RECOVERED: '' @ inc_message i,
     pn_priority = nc_recovery_priority config, pn_recovery = True\<rparr>"

definition is_new_or_worse :: "incident list \<Rightarrow> incident \<Rightarrow> bool" where
  "is_new_or_worse previous i = is_none_or (\<lambda>old. priority (inc_level old) < priority (inc_level i))
     (List.find (\<lambda>old. inc_id old = inc_id i) previous)"

definition severity_enabled :: "ntfy_config \<Rightarrow> incident \<Rightarrow> bool" where
  "severity_enabled config i = ((inc_level i = Warning \<and> sev_warning (nc_severities config))
     \<or> (inc_level i = Critical \<and> sev_critical (nc_severities config)))"

text \<open>The four parts of a turn that queue notifications, in the order of the source.\<close>

definition queue_test :: "bool \<Rightarrow> worker \<Rightarrow> worker" where
  "queue_test test w = (if test then w\<lparr>wk_pending := push_pending (wk_pending w) test_notification\<rparr> else w)"

definition queue_incidents :: "ntfy_config \<Rightarrow> incident list \<Rightarrow> worker \<Rightarrow> worker" where
  "queue_incidents config current w = foldl (\<lambda>w i.
     if is_new_or_worse (wk_previous w) i \<and> severity_enabled config i
     then w\<lparr>wk_pending := push_pending (wk_pending w) (incident_notification config i)\<rparr> else w) w current"

definition queue_repeats :: "ntfy_config \<Rightarrow> incident list \<Rightarrow> turn \<Rightarrow> worker \<Rightarrow> worker" where
  "queue_repeats config current t w = (let criticals = filter (\<lambda>i. inc_level i = Critical) current in
     case nc_repeat_critical config of
       Some seconds \<Rightarrow> if criticals \<noteq> [] then
           (let due = unwrap_or (tn_arm t + sec_us (unat seconds)) (wk_next_repeat w) in
            if tn_due t \<ge> due then
              (foldl (\<lambda>w i. w\<lparr>wk_pending := push_pending (wk_pending w) (repeat_notification config i)\<rparr>) w criticals)
                \<lparr>wk_next_repeat := Some (tn_rearm t + sec_us (unat seconds))\<rparr>
            else w\<lparr>wk_next_repeat := Some due\<rparr>)
         else w\<lparr>wk_next_repeat := None\<rparr>
     | None \<Rightarrow> w\<lparr>wk_next_repeat := None\<rparr>)"

definition queue_recoveries :: "ntfy_config \<Rightarrow> incident list \<Rightarrow> worker \<Rightarrow> worker" where
  "queue_recoveries config current w = (if nc_notify_recovery config then
     foldl (\<lambda>w i. if \<not> list_ex (\<lambda>new. inc_id new = inc_id i) current
         then w\<lparr>wk_pending := push_pending (wk_pending w) (recovery_notification config i)\<rparr> else w)
       w (wk_previous w)
     else w)"

definition publish_front :: "u8 list \<Rightarrow> ntfy_config \<Rightarrow> turn \<Rightarrow> worker \<Rightarrow> worker" where
  "publish_front ca config t w = (case (wk_pending w, sh_topic (tn_state t)) of
     (n # rest, Some topic) \<Rightarrow>
       let w1 = w\<lparr>wk_seed := wk_seed w + 1\<rparr> in
       if publish_notification ca (tn_post t) config topic n (wk_seed w1) then w1\<lparr>wk_pending := rest\<rparr> else w1
   | _ \<Rightarrow> w)"

definition worker_turn :: "u8 list \<Rightarrow> turn \<Rightarrow> worker \<Rightarrow> worker" where
  "worker_turn ca t w = (let current = notifiable_incidents (tn_state t) (tn_now t);
       w1 = (case sh_manifest (tn_state t) of
         Some m \<Rightarrow> let config = net_ntfy m in
           if nc_enabled config then
             publish_front ca config t (queue_recoveries config current (queue_repeats config current t
               (queue_incidents config current (queue_test (tn_test t) w))))
           else w
       | None \<Rightarrow> w)
     in w1\<lparr>wk_previous := current\<rparr>)"

definition worker_run :: "u8 list \<Rightarrow> turn list \<Rightarrow> worker \<Rightarrow> worker" where
  "worker_run ca ts w = foldl (\<lambda>w t. worker_turn ca t w) w ts"

section \<open>The queue keeps the newest eight\<close>

definition newest :: "'a list \<Rightarrow> 'a list" where
  "newest xs = drop (length xs - max_pending_notifications) xs"

lemma newest_length [simp]: "length (newest xs) \<le> max_pending_notifications"
  by (simp add: newest_def)

lemma newest_short: "length xs \<le> max_pending_notifications \<Longrightarrow> newest xs = xs"
  by (simp add: newest_def)

lemma newest_newest [simp]: "newest (newest xs @ ys) = newest (xs @ ys)"
proof (cases "length xs \<le> max_pending_notifications")
  case False
  then have "length xs + length ys - (length xs - max_pending_notifications + max_pending_notifications)
      + (length xs - max_pending_notifications) = length xs + length ys - max_pending_notifications" by simp
  then show ?thesis by (simp add: newest_def drop_append)
qed (simp add: newest_short)

lemma push_pending_newest:
  "length q \<le> max_pending_notifications \<Longrightarrow> push_pending q v = newest (q @ [v])"
  by (cases q) (auto simp: push_pending_def newest_def Let_def max_pending_notifications_def)

text \<open>A loop that queues one notification for some elements of a list, whatever it reads besides.\<close>

lemma pushes_newest:
  assumes "length (wk_pending w) \<le> max_pending_notifications"
  shows "foldl (\<lambda>w i. if P (wk_previous w) i then w\<lparr>wk_pending := push_pending (wk_pending w) (f i)\<rparr> else w) w xs
    = w\<lparr>wk_pending := newest (wk_pending w @ map f (filter (P (wk_previous w)) xs))\<rparr>"
  using assms
proof (induction xs arbitrary: w)
  case Nil
  then show ?case by (simp add: newest_short)
next
  case (Cons x xs)
  show ?case
  proof (cases "P (wk_previous w) x")
    case True
    let ?w = "w\<lparr>wk_pending := push_pending (wk_pending w) (f x)\<rparr>"
    have "push_pending (wk_pending w) (f x) = newest (wk_pending w @ [f x])"
      by (rule push_pending_newest) (rule Cons.prems)
    then show ?thesis using True Cons.IH [of ?w] by simp
  next
    case False
    then show ?thesis using Cons by simp
  qed
qed

definition repeats_due :: "ntfy_config \<Rightarrow> incident list \<Rightarrow> turn \<Rightarrow> worker \<Rightarrow> bool" where
  "repeats_due config current t w = (case nc_repeat_critical config of
     Some seconds \<Rightarrow> tn_due t \<ge> unwrap_or (tn_arm t + sec_us (unat seconds)) (wk_next_repeat w) | None \<Rightarrow> False)"

text \<open>What a turn has to say, in order.\<close>

definition turn_notifications :: "ntfy_config \<Rightarrow> incident list \<Rightarrow> turn \<Rightarrow> worker \<Rightarrow> pending_notification list" where
  "turn_notifications config current t w =
     (if tn_test t then [test_notification] else [])
     @ map (incident_notification config) (filter (\<lambda>i. is_new_or_worse (wk_previous w) i \<and> severity_enabled config i) current)
     @ (if repeats_due config current t w
        then map (repeat_notification config) (filter (\<lambda>i. inc_level i = Critical) current) else [])
     @ (if nc_notify_recovery config
        then map (recovery_notification config) (filter (\<lambda>i. inc_id i \<notin> inc_id ` set current) (wk_previous w)) else [])"

abbreviation queue_all :: "ntfy_config \<Rightarrow> incident list \<Rightarrow> turn \<Rightarrow> worker \<Rightarrow> worker" where
  "queue_all config current t w \<equiv> queue_recoveries config current (queue_repeats config current t
     (queue_incidents config current (queue_test (tn_test t) w)))"

lemma queue_test_newest:
  "length (wk_pending w) \<le> max_pending_notifications \<Longrightarrow>
   queue_test b w = w\<lparr>wk_pending := newest (wk_pending w @ (if b then [test_notification] else []))\<rparr>"
  by (simp add: queue_test_def push_pending_newest newest_short)

lemma queue_incidents_newest:
  "length (wk_pending w) \<le> max_pending_notifications \<Longrightarrow> queue_incidents config current w =
   w\<lparr>wk_pending := newest (wk_pending w @ map (incident_notification config)
       (filter (\<lambda>i. is_new_or_worse (wk_previous w) i \<and> severity_enabled config i) current))\<rparr>"
  unfolding queue_incidents_def
  by (rule pushes_newest [where P = "\<lambda>p i. is_new_or_worse p i \<and> severity_enabled config i"])

lemma queue_recoveries_newest:
  "length (wk_pending w) \<le> max_pending_notifications \<Longrightarrow> queue_recoveries config current w =
   w\<lparr>wk_pending := newest (wk_pending w @ (if nc_notify_recovery config then map (recovery_notification config)
       (filter (\<lambda>i. inc_id i \<notin> inc_id ` set current) (wk_previous w)) else []))\<rparr>"
proof -
  assume w: "length (wk_pending w) \<le> max_pending_notifications"
  have gone: "(\<not> list_ex (\<lambda>new. inc_id new = inc_id i) current) \<longleftrightarrow> inc_id i \<notin> inc_id ` set current" for i
    by (force simp: list_ex_iff)
  show ?thesis
    unfolding queue_recoveries_def gone
    using pushes_newest [OF w, of "\<lambda>p i. inc_id i \<notin> inc_id ` set current" "recovery_notification config" "wk_previous w"]
      newest_short [OF w]
    by (cases "nc_notify_recovery config") simp_all
qed

lemma queue_repeats_newest:
  assumes w: "length (wk_pending w) \<le> max_pending_notifications"
  shows "wk_pending (queue_repeats config current t w) = newest (wk_pending w @ (if repeats_due config current t w
       then map (repeat_notification config) (filter (\<lambda>i. inc_level i = Critical) current) else []))"
    and "wk_previous (queue_repeats config current t w) = wk_previous w"
proof -
  note push = pushes_newest [OF w, of "\<lambda>_ _. True", simplified]
  show "wk_pending (queue_repeats config current t w) = newest (wk_pending w @ (if repeats_due config current t w
       then map (repeat_notification config) (filter (\<lambda>i. inc_level i = Critical) current) else []))"
    by (cases "nc_repeat_critical config") (simp_all add: queue_repeats_def repeats_due_def push Let_def newest_short [OF w])
  show "wk_previous (queue_repeats config current t w) = wk_previous w"
    by (cases "nc_repeat_critical config") (simp_all add: queue_repeats_def push Let_def)
qed

lemma queue_all_newest:
  assumes w: "length (wk_pending w) \<le> max_pending_notifications"
  shows "wk_pending (queue_all config current t w) = newest (wk_pending w @ turn_notifications config current t w)"
    and "wk_previous (queue_all config current t w) = wk_previous w"
proof -
  have due: "repeats_due config current t (w\<lparr>wk_pending := q\<rparr>) = repeats_due config current t w" for q
    by (simp add: repeats_due_def split: option.split)
  show "wk_pending (queue_all config current t w) = newest (wk_pending w @ turn_notifications config current t w)"
    by (simp add: w queue_test_newest queue_incidents_newest queue_repeats_newest queue_recoveries_newest due turn_notifications_def
        newest_newest [of "wk_pending w @ a" for a, unfolded append_assoc])
  show "wk_previous (queue_all config current t w) = wk_previous w"
    by (simp add: w queue_test_newest queue_incidents_newest queue_repeats_newest queue_recoveries_newest)
qed

lemma queue_repeats_seed [simp]: "wk_seed (queue_repeats config current t w) = wk_seed w"
proof -
  have "wk_seed (foldl (\<lambda>w i. w\<lparr>wk_pending := push_pending (wk_pending w) (f i)\<rparr>) w xs) = wk_seed w" for f and xs :: "incident list"
    by (induction xs arbitrary: w) simp_all
  then show ?thesis by (simp add: queue_repeats_def Let_def split: option.splits)
qed

lemma queue_all_seed:
  "length (wk_pending w) \<le> max_pending_notifications \<Longrightarrow> wk_seed (queue_all config current t w) = wk_seed w"
  by (simp add: queue_test_newest queue_incidents_newest queue_repeats_newest queue_recoveries_newest)

lemma publish_front_pending:
  "wk_pending (publish_front ca config t w) = wk_pending w \<or> wk_pending (publish_front ca config t w) = tl (wk_pending w)"
  by (auto simp: publish_front_def Let_def split: list.split option.split)

lemma worker_turn_enabled:
  "sh_manifest (tn_state t) = Some m \<Longrightarrow> nc_enabled (net_ntfy m) \<Longrightarrow>
   worker_turn ca t w = (publish_front ca (net_ntfy m) t
     (queue_all (net_ntfy m) (notifiable_incidents (tn_state t) (tn_now t)) t w))
     \<lparr>wk_previous := notifiable_incidents (tn_state t) (tn_now t)\<rparr>"
  by (simp add: worker_turn_def Let_def)

lemma worker_turn_disabled:
  "(\<forall>m. sh_manifest (tn_state t) = Some m \<longrightarrow> \<not> nc_enabled (net_ntfy m)) \<Longrightarrow>
   worker_turn ca t w = w\<lparr>wk_previous := notifiable_incidents (tn_state t) (tn_now t)\<rparr>"
  by (auto simp: worker_turn_def Let_def split: option.split)

lemma worker_turn_bounded [inv_step]:
  assumes w: "length (wk_pending w) \<le> max_pending_notifications"
  shows "length (wk_pending (worker_turn ca t w)) \<le> max_pending_notifications"
proof (cases "\<exists>m. sh_manifest (tn_state t) = Some m \<and> nc_enabled (net_ntfy m)")
  case True
  then obtain m where m: "sh_manifest (tn_state t) = Some m" "nc_enabled (net_ntfy m)" by blast
  let ?q = "queue_all (net_ntfy m) (notifiable_incidents (tn_state t) (tn_now t)) t w"
  have "length (wk_pending ?q) \<le> max_pending_notifications" by (simp add: queue_all_newest [OF w])
  then show ?thesis
    using publish_front_pending [of ca "net_ntfy m" t ?q] by (auto simp: worker_turn_enabled [OF m])
next
  case False
  then show ?thesis using w by (simp add: worker_turn_disabled)
qed

section \<open>Properties\<close>

text \<open>The queue of notifications never holds more than eight, whatever the host reports,
  the clock says, the configuration is and the server answers.\<close>

lemma pending_bounded:
  "length (wk_pending (worker_run ca ts (worker_new seed))) \<le> max_pending_notifications"
proof -
  have "length (wk_pending (worker_run ca ts w)) \<le> max_pending_notifications"
    if "length (wk_pending w) \<le> max_pending_notifications" for w
    using that by (induction ts arbitrary: w) (simp_all add: worker_run_def inv_step)
  then show ?thesis by (simp add: worker_new_def)
qed

lemma worker_turn_effect:
  assumes w: "length (wk_pending w) \<le> max_pending_notifications"
    and m: "sh_manifest (tn_state t) = Some m" "nc_enabled (net_ntfy m)"
  defines "current \<equiv> notifiable_incidents (tn_state t) (tn_now t)"
  defines "waiting \<equiv> newest (wk_pending w @ turn_notifications (net_ntfy m) current t w)"
  shows "wk_previous (worker_turn ca t w) = current"
    and "wk_pending (worker_turn ca t w) = (case sh_topic (tn_state t) of
         Some topic \<Rightarrow> if waiting \<noteq> [] \<and> ca \<noteq> [] \<and> tn_post t (wk_seed w + 1) (publish_request (net_ntfy m) topic (hd waiting))
           then tl waiting else waiting
       | None \<Rightarrow> waiting)"
proof -
  let ?q = "queue_all (net_ntfy m) current t w"
  have front: "wk_pending (publish_front ca (net_ntfy m) t q) = (case sh_topic (tn_state t) of
         Some topic \<Rightarrow> if wk_pending q \<noteq> [] \<and> ca \<noteq> []
             \<and> tn_post t (wk_seed q + 1) (publish_request (net_ntfy m) topic (hd (wk_pending q)))
           then tl (wk_pending q) else wk_pending q
       | None \<Rightarrow> wk_pending q)" for q
    by (auto simp: publish_front_def publish_notification_def Let_def split: list.split option.split)
  have turn: "worker_turn ca t w = (publish_front ca (net_ntfy m) t ?q)\<lparr>wk_previous := current\<rparr>"
    unfolding current_def by (rule worker_turn_enabled [OF m])
  show "wk_previous (worker_turn ca t w) = current" by (simp add: turn)
  show "wk_pending (worker_turn ca t w) = (case sh_topic (tn_state t) of
         Some topic \<Rightarrow> if waiting \<noteq> [] \<and> ca \<noteq> [] \<and> tn_post t (wk_seed w + 1) (publish_request (net_ntfy m) topic (hd waiting))
           then tl waiting else waiting
       | None \<Rightarrow> waiting)"
    using front [of ?q] unfolding waiting_def turn queue_all_newest(1) [OF w] queue_all_seed [OF w] by simp
qed

text \<open>(C34) What a turn announces: the requested test, every enabled incident that is new or has
  become more severe, every critical one when its repetition is due, every one that has gone; of
  all that waits the newest eight stay, and the oldest of them leaves exactly when the server
  accepts it.\<close>

theorem turn_announces_exactly:
  assumes w: "length (wk_pending w) \<le> max_pending_notifications"
    and m: "sh_manifest (tn_state t) = Some m" "nc_enabled (net_ntfy m)"
  shows "let current = notifiable_incidents (tn_state t) (tn_now t);
      waiting = newest (wk_pending w @ turn_notifications (net_ntfy m) current t w);
      w' = worker_turn ca t w
    in wk_previous w' = current
     \<and> wk_pending w' = (case sh_topic (tn_state t) of
         Some topic \<Rightarrow> if waiting \<noteq> [] \<and> ca \<noteq> [] \<and> tn_post t (wk_seed w + 1) (publish_request (net_ntfy m) topic (hd waiting))
           then tl waiting else waiting
       | None \<Rightarrow> waiting)"
  unfolding Let_def using worker_turn_effect [OF assms, of ca] by simp

text \<open>A configuration that announces everything, and a turn in which one incident is over and a
  critical one has begun.\<close>

definition sample_ntfy :: ntfy_config where
  "sample_ntfy = ntfy_config_new True ''https://ntfy.sh/'' \<lparr>sev_warning = True, sev_critical = True\<rparr> True
     PrioHigh PrioUrgent PrioDefault None None"

definition sample_incident :: "str \<Rightarrow> health_level \<Rightarrow> incident" where
  "sample_incident name level = incident_new (Rule (RuleId name)) level name"

definition sample_turn :: "incident list \<Rightarrow> bool \<Rightarrow> turn" where
  "sample_turn incidents accepted = \<lparr>tn_state = \<lparr>
       sh_snapshot = Some (set_incidents report_healthy incidents (snapshot_new ''pve'' 0 0 0 0 0 0 [] NoJob None True 1000
         ''eth0'' Reachable None [10, 0, 0, 2] [] ups_not_configured [])),
       sh_manifest = Some \<lparr>net_http = http_config_new True ''stick'' 80 [], net_ntfy = sample_ntfy\<rparr>,
       sh_labels = [], sh_last_update = Some 1, sh_station_ipv4 = None, sh_topic = Some ''t'', sh_daemon_version = None\<rparr>,
     tn_test = False, tn_now = 2, tn_arm = 2, tn_due = 2, tn_rearm = 2, tn_post = (\<lambda>s r. accepted)\<rparr>"

lemma sample_turn_incidents: "notifiable_incidents (tn_state (sample_turn is b)) (tn_now (sample_turn is b)) = is"
  by (simp add: notifiable_incidents_def active_incidents_def snapshot_age_def sample_turn_def set_incidents_def Let_def
      host_stale_after_def sec_us_def)

theorem turn_announces_exactly_witness:
  "map pn_message (wk_pending (worker_turn [1] (sample_turn [sample_incident ''cpu'' Critical] False)
     ((worker_new 7)\<lparr>wk_previous := [sample_incident ''ups'' Warning]\<rparr>))) = [''cpu'', ''RECOVERED: ups'']"
proof -
  let ?t = "sample_turn [sample_incident ''cpu'' Critical] False"
  let ?w = "(worker_new 7)\<lparr>wk_previous := [sample_incident ''ups'' Warning]\<rparr>"
  have m: "sh_manifest (tn_state ?t) = Some \<lparr>net_http = http_config_new True ''stick'' 80 [], net_ntfy = sample_ntfy\<rparr>"
    by (simp add: sample_turn_def)
  have "turn_notifications sample_ntfy [sample_incident ''cpu'' Critical] ?t ?w
      = [incident_notification sample_ntfy (sample_incident ''cpu'' Critical),
         recovery_notification sample_ntfy (sample_incident ''ups'' Warning)]"
    by (simp add: turn_notifications_def sample_turn_def sample_ntfy_def ntfy_config_new_def sample_incident_def
        incident_new_def is_new_or_worse_def severity_enabled_def repeats_due_def)
  moreover have "length (wk_pending ?w) \<le> max_pending_notifications" "wk_pending ?w = []" "sh_topic (tn_state ?t) = Some ''t''"
      "\<And>s r. \<not> tn_post ?t s r" "nc_enabled sample_ntfy"
    by (simp_all add: worker_new_def sample_turn_def sample_ntfy_def ntfy_config_new_def)
  ultimately show ?thesis
    using turn_announces_exactly [of ?w ?t, OF _ m]
    by (simp add: sample_turn_incidents Let_def newest_def max_pending_notifications_def)
      (simp add: incident_notification_def recovery_notification_def sample_incident_def incident_new_def)
qed

lemma steady_quiet:
  assumes "distinct (map inc_id current)" "wk_previous w = current" "\<not> tn_test t" "nc_repeat_critical config = None"
  shows "turn_notifications config current t w = []"
proof -
  have found: "List.find (\<lambda>old. inc_id old = inc_id i) current = Some i" if "i \<in> set current" for i
    using assms(1) that by (induction current) (auto simp: image_iff)
  have "filter (\<lambda>i. is_new_or_worse current i \<and> severity_enabled config i) current = []"
    by (auto simp: filter_empty_conv is_new_or_worse_def found)
  moreover have "filter (\<lambda>i. inc_id i \<notin> inc_id ` set current) current = []"
    by (auto simp: filter_empty_conv)
  ultimately show ?thesis
    using assms by (simp add: turn_notifications_def repeats_due_def)
qed



lemma host_loss_announced:
  assumes "sh_snapshot s = Some h" "sh_last_update s = Some u" "u + host_stale_after \<le> tn_now t" "tn_state t = s"
    and "Stick HostOffline \<notin> inc_id ` set (wk_previous w)" "sev_critical (nc_severities config)"
  shows "incident_notification config host_offline_incident
    \<in> set (turn_notifications config (notifiable_incidents s (tn_now t)) t w)"
proof -
  have "List.find (\<lambda>old. inc_id old = Stick HostOffline) (wk_previous w) = None"
    using assms(5) by (force simp: find_None_iff)
  then have "is_new_or_worse (wk_previous w) host_offline_incident \<and> severity_enabled config host_offline_incident"
    using assms(6) by (simp add: is_new_or_worse_def severity_enabled_def host_offline_incident_def incident_new_def)
  moreover have "host_offline_incident \<in> set (notifiable_incidents s (tn_now t))"
    using assms(1-3) by (auto simp: notifiable_incidents_def active_incidents_def snapshot_age_def Let_def)
  ultimately show ?thesis by (auto simp: turn_notifications_def)
qed

lemma no_host_loss_before_first_snapshot:
  "sh_snapshot s = None \<Longrightarrow> i \<in> set (notifiable_incidents s now) \<Longrightarrow> inc_id i \<noteq> Stick HostOffline"
  by (simp add: notifiable_incidents_def)

end
