(* ===== verification/Web.thy ===== *)
theory Web
  imports Dashboard Notify
begin

text \<open>
  The web server of the firmware: the JSON documents, the routes of \<open>HttpHandler::handle\<close>, the
  reading of a provisioning request and one connection of the provisioning server
  (\<open>firmware/src/network.rs\<close>). The HTTP and TCP stacks are parameters: what they deliver is an
  argument, what they are given is the result.
\<close>

section \<open>The health document\<close>

definition json_bool :: "bool \<Rightarrow> str" where
  "json_bool b = (if b then ''true'' else ''false'')"

fun json_incidents :: "str \<Rightarrow> bool \<Rightarrow> incident list \<Rightarrow> str" where
  "json_incidents json first [] = json"
| "json_incidents json first (i # is) = (let
       j1 = (if first then json else json @ '','');
       j2 = j1 @ (''{'' @ [CHR 0x22] @ ''level'' @ [CHR 0x22] @ '':'' @ [CHR 0x22]) @ map to_lower (level_text (inc_level i)) @ ([CHR 0x22] @ '','' @ [CHR 0x22] @ ''message'' @ [CHR 0x22] @ '':'' @ [CHR 0x22]);
       j3 = push_json j2 (inc_message i)
     in json_incidents (j3 @ ([CHR 0x22] @ ''}'')) False is)"

definition json_snapshot :: "str \<Rightarrow> health_snapshot \<Rightarrow> str" where
  "json_snapshot json s = push_json (json @ ('','' @ [CHR 0x22] @ ''host'' @ [CHR 0x22] @ '':'' @ [CHR 0x22])) (hs_host_name s)
     @ ([CHR 0x22] @ '','' @ [CHR 0x22] @ ''cpu_percent'' @ [CHR 0x22] @ '':'') @ dec (unat (hs_cpu s)) @ ('','' @ [CHR 0x22] @ ''memory_used_mib'' @ [CHR 0x22] @ '':'') @ show_u32 (hs_mem_used s)
     @ ('','' @ [CHR 0x22] @ ''memory_total_mib'' @ [CHR 0x22] @ '':'') @ show_u32 (hs_mem_total s)
     @ ('','' @ [CHR 0x22] @ ''io_pressure_percent'' @ [CHR 0x22] @ '':'') @ dec (unat (hs_io_pressure s))
     @ ('','' @ [CHR 0x22] @ ''load_average_x100'' @ [CHR 0x22] @ '':'') @ dec (unat (hs_load_x100 s)) @ ('','' @ [CHR 0x22] @ ''network_up'' @ [CHR 0x22] @ '':'') @ json_bool (hs_network_up s)
     @ ('','' @ [CHR 0x22] @ ''network_mbps'' @ [CHR 0x22] @ '':'') @ dec (unat (hs_network_mbps s))
     @ [CHR '','', CHR 0x22] @ ''ipv4'' @ [CHR 0x22, CHR '':'', CHR ''[''] @ dec (unat (hs_ipv4 s ! 0)) @ '','' @ dec (unat (hs_ipv4 s ! 1)) @ '','' @ dec (unat (hs_ipv4 s ! 2))
     @ '','' @ dec (unat (hs_ipv4 s ! 3)) @ '']'' @ ('','' @ [CHR 0x22] @ ''guest_count'' @ [CHR 0x22] @ '':'') @ dec (length (hs_guests s))"

definition health_json :: "time \<Rightarrow> time \<Rightarrow> shared_state \<Rightarrow> str" where
  "health_json now1 now2 st = (let
       stale = is_none_or (\<lambda>age. age \<ge> host_stale_after) (snapshot_age st now1);
       incidents = active_incidents st now2;
       json = json_incidents ((''{'' @ [CHR 0x22] @ ''stale'' @ [CHR 0x22] @ '':'') @ json_bool stale @ ('','' @ [CHR 0x22] @ ''incidents'' @ [CHR 0x22] @ '':'') @ ''['') True incidents @ '']''
     in (case sh_snapshot st of Some s \<Rightarrow> json_snapshot json s | None \<Rightarrow> json) @ ''}'')"

definition device_json :: "str \<Rightarrow> time \<Rightarrow> shared_state \<Rightarrow> str" where
  "device_json build_version now st = (let
       age = (case snapshot_age st now of Some a \<Rightarrow> us_secs a | None \<Rightarrow> 2 ^ 64 - 1);
       address = (case sh_station_ipv4 st of None \<Rightarrow> ''0.0.0.0'' | Some a \<Rightarrow> ipv4_text a);
       daemon = (case sh_daemon_version st of None \<Rightarrow> ''unknown'' | Some v \<Rightarrow> version_str v)
     in (''{'' @ [CHR 0x22] @ ''firmware'' @ [CHR 0x22] @ '':'' @ [CHR 0x22]) @ build_version @ ([CHR 0x22] @ '','' @ [CHR 0x22] @ ''daemon'' @ [CHR 0x22] @ '':'' @ [CHR 0x22]) @ daemon @ ([CHR 0x22] @ '','' @ [CHR 0x22] @ ''protocol'' @ [CHR 0x22] @ '':'') @ dec (unat protocol_version)
       @ ('','' @ [CHR 0x22] @ ''wifi'' @ [CHR 0x22] @ '':'' @ [CHR 0x22] @ ''connected'' @ [CHR 0x22] @ '','' @ [CHR 0x22] @ ''ipv4'' @ [CHR 0x22] @ '':'' @ [CHR 0x22]) @ address @ ([CHR 0x22] @ '','' @ [CHR 0x22] @ ''snapshot_age_seconds'' @ [CHR 0x22] @ '':'') @ dec age @ ''}'')"

section \<open>Routes\<close>

datatype http_method = Get | Post | OtherMethod

record http_head =
  hd_method :: http_method
  hd_path :: str
  hd_action :: "str option" \<comment> \<open>the header \<open>X-Servatory-Action\<close>\<close>

record http_response =
  rs_status :: nat
  rs_reason :: str
  rs_headers :: "(str \<times> str) list"
  rs_body :: str

definition http_response_of :: "nat \<Rightarrow> str \<Rightarrow> str \<Rightarrow> str \<Rightarrow> http_response" where
  "http_response_of status reason content_type body = \<lparr>rs_status = status, rs_reason = reason,
     rs_headers = [(''Content-Type'', content_type), (''Cache-Control'', ''no-store''), (''Connection'', ''Close'')],
     rs_body = body\<rparr>"

text \<open>The files and the version built in, the random numbers and the clock of the request.\<close>

record request_env =
  re_version :: str
  re_style :: str
  re_script :: str
  re_random :: "u32 \<times> u32 \<times> u32 \<times> u32"
  re_now1 :: time
  re_now2 :: time

definition get_response :: "request_env \<Rightarrow> shared_state \<Rightarrow> str \<Rightarrow> http_response" where
  "get_response E st path =
     (if path = ''/api/v1/health'' then
        http_response_of 200 ''OK'' ''application/json'' (health_json (re_now1 E) (re_now2 E) st)
      else if path = ''/api/v1/device'' then
        http_response_of 200 ''OK'' ''application/json'' (device_json (re_version E) (re_now1 E) st)
      else if path = ''/api/v1/dashboard-fragment'' then
        http_response_of 200 ''OK'' ''text/html; charset=utf-8'' (dashboard_fragment (re_version E) (re_now1 E) (re_now2 E) st)
      else if path = ''/dashboard.css'' then http_response_of 200 ''OK'' ''text/css; charset=utf-8'' (re_style E)
      else if path = ''/dashboard.js'' then http_response_of 200 ''OK'' ''text/javascript; charset=utf-8'' (re_script E)
      else if path = ''/healthz'' then http_response_of 200 ''OK'' ''text/plain'' (''ok'' @ [CHR 0x0A])
      else http_response_of 200 ''OK'' ''text/html; charset=utf-8'' (dashboard_html (re_version E) (re_now1 E) (re_now2 E) st))"

definition regenerate_topic ::
  "('t, str) channel_api \<Rightarrow> u32 \<times> u32 \<times> u32 \<times> u32 \<Rightarrow> ('m, 't) net_statics \<Rightarrow> ('m, 't) net_statics" where
  "regenerate_topic CT r n = (case r of (a, b, c, d) \<Rightarrow> let topic = random_ntfy_topic a b c d in
     n\<lparr>ns_state := (ns_state n)\<lparr>sh_topic := Some topic\<rparr>, ns_topics := send_latest CT topic (ns_topics n)\<rparr>)"

definition handle_request ::
  "('t, str) channel_api \<Rightarrow> ('x, unit) channel_api \<Rightarrow> request_env \<Rightarrow> http_head \<Rightarrow> ('m, 't) net_statics \<times> 'x
   \<Rightarrow> http_response \<times> ('m, 't) net_statics \<times> 'x" where
  "handle_request CT CX E h st = (case st of (n, tests) \<Rightarrow>
     let regenerate = is_some_and (\<lambda>v. eq_ignore_case v ''regenerate'') (hd_action h) in
     if hd_method h = Post \<and> hd_path h = ''/api/v1/notifications/topic/regenerate'' \<and> regenerate then
       (http_response_of 200 ''OK'' ''text/html; charset=utf-8''
          ''<!doctype html><meta http-equiv=refresh content='0;url=/'><p>New ntfy topic generated and saved.</p>'',
        regenerate_topic CT (re_random E) n, tests)
     else if hd_method h = Post \<and> hd_path h = ''/api/v1/notifications/test'' then
       (http_response_of 202 ''Accepted'' ''text/plain; charset=utf-8'' (''Test notification queued.'' @ [CHR 0x0A]),
        n, (case ch_try_send CX tests () of Inr c \<Rightarrow> c | Inl _ \<Rightarrow> tests))
     else if hd_method h \<noteq> Get then
       (http_response_of 405 ''Method Not Allowed'' ''text/plain; charset=utf-8'' (''Method not allowed.'' @ [CHR 0x0A]), n, tests)
     else (get_response E (ns_state n) (hd_path h), n, tests))"

section \<open>The provisioning server\<close>

text \<open>\<open>read_request\<close>: the results of the reads in order, \<open>None\<close> an error, each at most as long as
  the room left. Sizes are 32 bits wide on this target,
  and a sum of them wraps in the release build.\<close>

definition header_end_mark :: str where
  "header_end_mark = [CHR 0x0D, CHR 0x0A, CHR 0x0D, CHR 0x0A]"

definition content_length :: "str \<Rightarrow> u32" where
  "content_length header = unwrap_or 0 (find_map (\<lambda>line. do {
     (key, v) \<leftarrow> split_once (CHR '':'') line;
     (if eq_ignore_case key ''content-length'' then parse_word (trim v) else None) }) (lines header))"

definition request_complete :: "str \<Rightarrow> bool" where
  "request_complete buffer = (case from_utf8 buffer of
     None \<Rightarrow> False
   | Some text \<Rightarrow> (case find_str header_end_mark text of
       None \<Rightarrow> False
     | Some header_end \<Rightarrow>
         (of_nat (length buffer) :: u32) \<ge> of_nat header_end + 4 + content_length (take header_end text)))"

fun read_request :: "nat \<Rightarrow> string \<Rightarrow> string option list \<Rightarrow> string" where
  "read_request capacity buffer reads = (if length buffer < capacity then
     (case reads of
        [] \<Rightarrow> buffer
      | None # _ \<Rightarrow> buffer
      | Some bytes # rest \<Rightarrow> if bytes = [] then buffer
          else let buffer' = buffer @ take (capacity - length buffer) bytes in
            if request_complete buffer' then buffer' else read_request capacity buffer' rest)
     else buffer)"

declare read_request.simps [simp del]

definition write_response :: "str \<Rightarrow> str \<Rightarrow> str \<Rightarrow> str" where
  "write_response status content_type body =
     ''HTTP/1.1 '' @ status @ ([CHR 0x0D, CHR 0x0A] @ ''Content-Type: '') @ content_type @ ([CHR 0x0D, CHR 0x0A] @ ''Content-Length: '') @ dec (length body)
     @ ([CHR 0x0D, CHR 0x0A] @ ''Cache-Control: no-store'' @ [CHR 0x0D, CHR 0x0A] @ ''Connection: close'' @ [CHR 0x0D, CHR 0x0A, CHR 0x0D, CHR 0x0A]) @ body"

definition provisioning_page :: "str \<Rightarrow> str" where
  "provisioning_page ntfy_topic =
     (''<!doctype html><meta name=viewport content='width=device-width,initial-scale=1'><style>body{font:16px system-ui;max-width:32rem;margin:2rem auto;padding:0 1rem;color:#172033}label{display:block;margin:1rem 0}.box{width:100%;box-sizing:border-box;padding:.7rem}button{padding:.8rem 1rem;background:#1457d9;color:white;border:0;border-radius:.4rem}.copy{margin-bottom:1rem;background:#526174}</style><h1>Servatory Wi-Fi setup</h1><form method=post action=/configure><label>Wi-Fi network<input class=box name=ssid maxlength=32 required></label><label>Wi-Fi password<input class=box name=password type=password maxlength=63></label><label>Device hostname<input class=box name=hostname value=servatory maxlength=32 required></label><label>ntfy topic<input id=topic class=box name=ntfy_topic value='' @ [CHR 0x27]) @ ntfy_topic @ (''' maxlength=128 required></label><button class=copy type=button onclick='' @ [CHR 0x22] @ ''let t=document.getElementById('topic');t.select();document.execCommand('copy')'' @ [CHR 0x22] @ ''>Copy topic</button><p>This random topic is private. Copy it into the ntfy app, or replace it here.</p><button>Save and restart</button></form>'')"

text \<open>One accepted connection: what is written, whether the settings were saved, after which the device
  restarts, and the flash; only when they were not saved does the rejection follow.\<close>

definition serve_provisioning ::
  "'s flash_api \<Rightarrow> postcard_settings \<Rightarrow> str \<Rightarrow> string option list \<Rightarrow> 's \<Rightarrow> str \<times> bool \<times> 's" where
  "serve_provisioning F P ntfy_topic reads s = (let
       request = unwrap_or [] (from_utf8 (read_request 3072 [] reads))
     in if starts_with ''POST /configure '' request then
          (let body = (case find_str header_end_mark request of Some i \<Rightarrow> drop (i + 4) request | None \<Rightarrow> []);
               (saved, s') = (case parse_provisioning body of Some v \<Rightarrow> save_provisioning F P v s | None \<Rightarrow> (False, s))
           in if saved then (write_response ''200 OK'' ''text/html; charset=utf-8''
                 ''<h1>Saved</h1><p>Servatory is restarting and will join your Wi-Fi network.</p>'', True, s')
              else (write_response ''400 Bad Request'' ''text/plain; charset=utf-8''
                 ''Invalid Wi-Fi, hostname, or ntfy topic settings.'', False, s'))
        else (write_response ''200 OK'' ''text/html; charset=utf-8'' (provisioning_page ntfy_topic), False, s))"

section \<open>Reading the health document\<close>

text \<open>What a client does with the start of the document: the flag, then the incidents.\<close>

definition read_incident :: "str \<Rightarrow> ((str \<times> str) \<times> str) option" where
  "read_incident s = do {
     r1 \<leftarrow> strip_prefix (''{'' @ [CHR 0x22] @ ''level'' @ [CHR 0x22] @ '':'' @ [CHR 0x22]) s;
     (level, r2) \<leftarrow> read_json_string r1;
     r3 \<leftarrow> strip_prefix ('','' @ [CHR 0x22] @ ''message'' @ [CHR 0x22] @ '':'' @ [CHR 0x22]) r2;
     (message, r4) \<leftarrow> read_json_string r3;
     r5 \<leftarrow> strip_prefix ''}'' r4;
     Some ((level, message), r5) }"

fun read_incidents :: "nat \<Rightarrow> str \<Rightarrow> ((str \<times> str) list \<times> str) option" where
  "read_incidents 0 s = None"
| "read_incidents (Suc fuel) s = (case strip_prefix '']'' s of
     Some r \<Rightarrow> Some ([], r)
   | None \<Rightarrow> do {
       (i, r) \<leftarrow> read_incident s;
       (is, r') \<leftarrow> read_incidents fuel (case strip_prefix '','' r of Some r1 \<Rightarrow> r1 | None \<Rightarrow> r);
       Some (i # is, r') })"

definition health_open :: str where
  "health_open = ''{'' @ [CHR 0x22] @ ''stale'' @ [CHR 0x22] @ '':''"

definition health_list_open :: str where
  "health_list_open = ('','' @ [CHR 0x22] @ ''incidents'' @ [CHR 0x22] @ '':'') @ ''[''"

definition read_health :: "nat \<Rightarrow> str \<Rightarrow> (bool \<times> (str \<times> str) list \<times> str) option" where
  "read_health fuel s = do {
     r \<leftarrow> strip_prefix health_open s;
     (stale, r1) \<leftarrow> or_else (map_option (Pair True) (strip_prefix ''true'' r)) (map_option (Pair False) (strip_prefix ''false'' r));
     r2 \<leftarrow> strip_prefix health_list_open r1;
     (is, rest) \<leftarrow> read_incidents fuel r2;
     Some (stale, is, rest) }"

text \<open>What a reader gets of a message: the text without the control characters that were dropped.\<close>

definition json_text :: "str \<Rightarrow> str" where
  "json_text v = concat (map json_kept (utf8_chars v))"

definition incident_entry :: "incident \<Rightarrow> str \<times> str" where
  "incident_entry i = (map to_lower (level_text (inc_level i)), json_text (inc_message i))"

definition incident_json :: "incident \<Rightarrow> str" where
  "incident_json i = (''{'' @ [CHR 0x22] @ ''level'' @ [CHR 0x22] @ '':'' @ [CHR 0x22]) @ map to_lower (level_text (inc_level i)) @ ([CHR 0x22] @ '','' @ [CHR 0x22] @ ''message'' @ [CHR 0x22] @ '':'' @ [CHR 0x22])
     @ push_json [] (inc_message i) @ ([CHR 0x22] @ ''}'')"

fun incidents_json :: "bool \<Rightarrow> incident list \<Rightarrow> str" where
  "incidents_json first [] = []"
| "incidents_json first (i # is) = (if first then [] else '','') @ incident_json i @ incidents_json False is"

lemma json_incidents_text: "json_incidents json first is = json @ incidents_json first is"
proof (induction json first "is" rule: json_incidents.induct)
  case (2 json first i "is")
  then show ?case
    using push_json_append [of "(if first then json else json @ '','') @ x" "inc_message i" for x]
    by (simp add: incident_json_def Let_def push_json_def)
qed simp

lemma strip_prefix_append [simp]: "strip_prefix p (p @ r) = Some r"
  by (simp add: strip_prefix_Some)

lemma lower_levels:
  "map to_lower (level_text Healthy) = ''healthy''" "map to_lower (level_text Warning) = ''warning''"
  "map to_lower (level_text Critical) = ''critical''"
  by code_simp+

lemma read_level: "read_json_string (map to_lower (level_text l) @ CHR 0x22 # r) = Some (map to_lower (level_text l), r)"
  by (cases l) (simp_all only: lower_levels, simp_all)

lemma read_incident_json:
  "utf8_valid (inc_message i) \<Longrightarrow> read_incident (incident_json i @ r) = Some (incident_entry i, r)"
proof -
  assume v: "utf8_valid (inc_message i)"
  have parts: "incident_json i @ r = (''{'' @ [CHR 0x22] @ ''level'' @ [CHR 0x22] @ '':'' @ [CHR 0x22]) @ map to_lower (level_text (inc_level i)) @ CHR 0x22 #
      (('','' @ [CHR 0x22] @ ''message'' @ [CHR 0x22] @ '':'' @ [CHR 0x22]) @ push_json [] (inc_message i) @ CHR 0x22 # (''}'' @ r))"
    by (simp add: incident_json_def)
  show ?thesis
    unfolding read_incident_def parts strip_prefix_append bind.bind_lunit read_level prod.case
      push_json_read [OF v] incident_entry_def json_text_def ..
qed

lemma incident_json_head: "strip_prefix '']'' (incident_json i @ r) = None" "strip_prefix '','' ('']'' @ r) = None"
  by (simp_all add: incident_json_def strip_prefix_def starts_with_def)

lemma read_incidents_json:
  "list_all (\<lambda>i. utf8_valid (inc_message i)) is \<Longrightarrow> length is < fuel \<Longrightarrow>
   read_incidents fuel (incidents_json True is @ '']'' @ r) = Some (map incident_entry is, r)"
proof (induction "is" arbitrary: fuel)
  case Nil
  then show ?case using strip_prefix_append [of "'']''" r] by (cases fuel) simp_all
next
  case (Cons i "is")
  obtain k where k: "fuel = Suc k" "length is < k" using Cons.prems(2) by (cases fuel) auto
  define tail where "tail = incidents_json False is @ '']'' @ r"
  have tail: "(case strip_prefix '','' tail of Some r1 \<Rightarrow> r1 | None \<Rightarrow> tail) = incidents_json True is @ '']'' @ r"
  proof (cases "is")
    case Nil
    then show ?thesis using incident_json_head(2) [of r] by (simp add: tail_def)
  next
    case (Cons j js)
    then have "tail = '','' @ incidents_json True is @ '']'' @ r" by (simp add: tail_def)
    then show ?thesis by (simp only: strip_prefix_append option.case)
  qed
  have "incidents_json True (i # is) @ '']'' @ r = incident_json i @ tail" by (simp add: tail_def)
  moreover have "read_incidents fuel (incident_json i @ tail) = Some (incident_entry i # map incident_entry is, r)"
    unfolding k(1) read_incidents.simps incident_json_head(1) option.case
    using Cons.IH [of k] Cons.prems(1) k(2) by (simp add: read_incident_json tail)
  ultimately show ?case by simp
qed

text \<open>(C38) The health document can be read: whatever characters the messages hold, quotes and
  backslashes included, a client reads back the stale flag and every active incident in order, with
  its level and its message, control characters apart.\<close>

theorem health_json_readable:
  assumes "\<And>i. i \<in> set (active_incidents st now2) \<Longrightarrow> utf8_valid (inc_message i)"
  shows "\<exists>rest. read_health (Suc (length (active_incidents st now2))) (health_json now1 now2 st)
    = Some (is_none_or (\<lambda>age. age \<ge> host_stale_after) (snapshot_age st now1), map incident_entry (active_incidents st now2), rest)"
proof -
  let ?stale = "is_none_or (\<lambda>age. age \<ge> host_stale_after) (snapshot_age st now1)"
  let ?is = "active_incidents st now2"
  define head where "head = health_open @ json_bool ?stale @ health_list_open @ incidents_json True ?is @ '']''"
  have snapshot: "\<exists>r. json_snapshot json s = json @ r" for json s
    by (simp add: json_snapshot_def push_json_def)
  then obtain rest where rest: "health_json now1 now2 st = head @ rest"
  proof (cases "sh_snapshot st")
    case None
    then show ?thesis using that [of "''}''"] by (simp add: health_json_def head_def json_incidents_text health_open_def health_list_open_def)
  next
    case (Some s)
    obtain r where "json_snapshot head s = head @ r" using snapshot by blast
    with Some show ?thesis
      using that [of "r @ ''}''"] by (simp add: health_json_def head_def json_incidents_text health_open_def health_list_open_def)
  qed
  have flag: "or_else (map_option (Pair True) (strip_prefix ''true'' (json_bool b @ r)))
      (map_option (Pair False) (strip_prefix ''false'' (json_bool b @ r))) = Some (b, r)" for b r
    by (cases b) (simp_all add: json_bool_def strip_prefix_def starts_with_def)
  have "list_all (\<lambda>i. utf8_valid (inc_message i)) ?is" using assms by (simp add: list_all_iff)
  then have list: "read_incidents (Suc (length ?is)) (incidents_json True ?is @ '']'' @ rest) = Some (map incident_entry ?is, rest)"
    by (rule read_incidents_json) simp
  have "read_health (Suc (length ?is)) (health_json now1 now2 st) = Some (?stale, map incident_entry ?is, rest)"
    unfolding read_health_def rest head_def append_assoc strip_prefix_append bind.bind_lunit flag prod.case
    using list by simp
  then show ?thesis by blast
qed

theorem health_json_readable_witness:
  "\<exists>rest. read_health 2 (health_json 2 2 (tn_state (sample_turn [sample_incident [CHR 0x22] Critical] True)))
    = Some (False, [(''critical'', [CHR 0x22])], rest)"
proof -
  let ?i = "sample_incident [CHR 0x22] Critical"
  let ?st = "tn_state (sample_turn [?i] True)"
  have act: "active_incidents ?st 2 = [?i]"
    by (simp add: active_incidents_def snapshot_age_def sample_turn_def set_incidents_def Let_def host_stale_after_def sec_us_def)
  have "utf8_valid (inc_message ?i)"
    by (rule utf8_valid_ascii) (simp add: sample_incident_def incident_new_def is_ascii_def)
  then obtain rest where "read_health (Suc (length (active_incidents ?st 2))) (health_json 2 2 ?st)
      = Some (is_none_or (\<lambda>age. age \<ge> host_stale_after) (snapshot_age ?st 2), map incident_entry (active_incidents ?st 2), rest)"
    using health_json_readable [of ?st 2 2] act by auto
  moreover have "\<not> is_none_or (\<lambda>age. age \<ge> host_stale_after) (snapshot_age ?st 2)"
    by (simp add: snapshot_age_def sample_turn_def host_stale_after_def sec_us_def)
  moreover have "incident_entry ?i = (''critical'', [CHR 0x22])"
    by (simp add: incident_entry_def sample_incident_def incident_new_def lower_levels json_text_def json_kept_def
        utf8_width_def is_control_def)
  ultimately show ?thesis unfolding act by (auto simp: numeral_2_eq_2)
qed

end
