(* ===== verification/Alarm.thy ===== *)
theory Alarm
  imports Link Web
begin

text \<open>
  An alarm on its whole way: a rule of the daemon's configuration (\<open>evaluate_health\<close> of
  \<open>host/src/config.rs\<close>), the snapshot written to the port (\<open>main\<close> of \<open>host/src/main.rs\<close>), the bytes
  the stick reads (\<open>main\<close> of \<open>firmware/src/main.rs\<close>), and the notification published by its worker
  (\<open>notification_worker\<close> of \<open>firmware/src/network.rs\<close>). First, the byte loop of the stick is shown to
  handle the messages of the segments one by one, as the daemon's does.
\<close>

section \<open>The bytes of the host are a sequence of messages\<close>

lemma read_usb_messages:
  assumes "decoder_ok max_host_frame_len (sk_decoder sk)" "decoder_acc (sk_decoder sk) = Some []"
  shows "\<exists>d. decoder_ok max_host_frame_len d \<and> read_usb B now bs sk
    = Some ((handle_frames B now (map (classify max_host_frame_len) (fst (segments [] bs))) sk)\<lparr>sk_decoder := d\<rparr>)"
  using fd.run_frames [OF assms, of bs] read_usb_frames by blast

text \<open>(C11) The byte loop of the stick implements handling messages: from a frame boundary, whatever bytes
  arrive, it never panics, and its state afterwards is that of handling one by one the messages of
  the segments between the delimiters that fit the decoder, up to the decoder itself.\<close>

theorem stick_input_refines_messages:
  assumes "decoder_ok max_host_frame_len (sk_decoder sk)" "decoder_acc (sk_decoder sk) = Some []"
  shows "map_option (\<lambda>sk'. sk'\<lparr>sk_decoder := sk_decoder sk\<rparr>) (read_usb B now bs sk)
    = Some (handle_frames B now (map (classify max_host_frame_len) (fst (segments [] bs))) sk)"
proof -
  have "(handle_frames B now rs sk)\<lparr>sk_decoder := sk_decoder sk\<rparr> = handle_frames B now rs sk" for rs
    using handle_frames_decoder [where d = "sk_decoder sk" and sk = sk] by simp
  then show ?thesis using read_usb_messages [OF assms, of B now bs] by auto
qed

theorem stick_input_refines_messages_witness:
  "map_option (\<lambda>sk'. sk'\<lparr>sk_decoder := decoder_new max_host_frame_len\<rparr>)
     (read_usb sample_board 0 (host_frame 1 @ [9]) (stick_new sample_board 0 sample_net))
   = Some (handle_frames sample_board 0 [Inr (host_frame 1)] (stick_new sample_board 0 sample_net))"
proof -
  have "map (classify max_host_frame_len) (fst (segments [] (host_frame 1 @ [9]))) = [Inr (host_frame 1)]"
    by (simp add: host_frame_def classify_def max_host_frame_len_def)
  then show ?thesis
    using stick_input_refines_messages [of "stick_new sample_board 0 sample_net" sample_board 0 "host_frame 1 @ [9]"] decoder_new_ok
    by (simp add: stick_new_def)
qed

section \<open>From the rule to the frame\<close>

lemma rule_incident_of:
  assumes "evaluate_health Y cfg h = Some (report, is)" "r \<in> set (hf_rules (cf_health cfg))"
    and "matches_condition Y (src_filesystems (cf_sources cfg)) h (rl_when r)"
  shows "incident_new (Rule (RuleId (rl_id r))) (severity_level (rl_severity r))
      (render_message (src_filesystems (cf_sources cfg)) h r) \<in> set is"
proof -
  let ?fss = "src_filesystems (cf_sources cfg)"
  let ?m = "filter (\<lambda>r. matches_condition Y ?fss h (rl_when r)) (hf_rules (cf_health cfg))"
  have all: "list_all2 (\<lambda>r i. inc_id i = Rule (RuleId (rl_id r)) \<and> inc_level i = severity_level (rl_severity r)
      \<and> inc_message i = render_message ?fss h r) ?m is"
    using assms(1) by (intro rule_incidents_ids) (auto simp: evaluate_health_def)
  have "r \<in> set ?m" using assms(2,3) by simp
  then obtain k where k: "k < length ?m" "?m ! k = r" unfolding in_set_conv_nth by blast
  then have i: "k < length is" "inc_id (is ! k) = Rule (RuleId (rl_id r))" "inc_level (is ! k) = severity_level (rl_severity r)"
      "inc_message (is ! k) = render_message ?fss h r"
    using all list_all2_nthD [OF all k(1)] by (auto simp: list_all2_lengthD)
  then have "is ! k = incident_new (Rule (RuleId (rl_id r))) (severity_level (rl_severity r)) (render_message ?fss h r)"
    by (cases "is ! k") (simp add: incident_new_def)
  then show ?thesis using nth_mem [OF i(1)] by simp
qed

lemma sent_snapshot_frame:
  assumes "send_snapshot site tick h d io = Some (Inr d', io')" "\<not> dm_error d'"
  obtains report "is" f where "evaluate_health (st_yaml site) (st_cfg site) h = Some (report, is)"
    "encode (st_ser site) (HealthSnapshot (set_incidents report is h)) max_host_frame_len = Inr f"
    "io_log io' = io_log io @ [Wrote f]"
proof -
  obtain report "is" where e: "evaluate_health (st_yaml site) (st_cfg site) h = Some (report, is)"
    using assms(1) by (auto simp: send_snapshot_def leave_def split: option.splits)
  moreover have "\<not> dm_error d"
    using assms e by (auto simp: send_snapshot_def Let_def go_on_def split: if_splits)
  ultimately show ?thesis
    using assms that
    by (auto simp: send_snapshot_def Let_def attempt_def write_host_message_def port_op_def throw_def go_on_def
        split: sum.splits list.splits if_splits)
qed

text \<open>The bytes an operation wrote.\<close>

definition sent_bytes :: "io_event list \<Rightarrow> u8 list" where
  "sent_bytes events = concat (map (\<lambda>ev. case ev of Wrote f \<Rightarrow> f | _ \<Rightarrow> []) events)"

lemma handle_sent_frame:
  assumes "postcard_ok ser (bd_de B)" "encode ser m max_host_frame_len = Inr f"
  shows "handle_frames B now (map (classify max_host_frame_len) (fst (segments [] f))) sk = handle_host_message B now (Inr m) sk"
proof -
  have "map (classify max_host_frame_len) (fst (segments [] (concat [f]))) = map Inr [f]"
    using assms by (intro segments_encoded) auto
  then show ?thesis using decode_encode_frame [OF assms] by simp
qed

section \<open>From the frame to the phone\<close>

text \<open>The alarm of a rule, as the daemon words it.\<close>

definition rule_alarm :: "'v site \<Rightarrow> health_snapshot \<Rightarrow> 'v health_rule \<Rightarrow> incident" where
  "rule_alarm site h r = incident_new (Rule (RuleId (rl_id r))) (severity_level (rl_severity r))
     (render_message (src_filesystems (cf_sources (st_cfg site))) h r)"

lemma snapshot_notifiable:
  "sh_snapshot st = Some s \<Longrightarrow> i \<in> set (hs_incidents s) \<Longrightarrow> i \<in> set (notifiable_incidents st now)"
  by (simp add: notifiable_incidents_def active_incidents_def Let_def)

lemma alarm_waits_or_leaves:
  assumes w: "length (wk_pending w) \<le> max_pending_notifications"
    and m: "sh_manifest (tn_state t) = Some m" "nc_enabled (net_ntfy m)" "sh_topic (tn_state t) = Some topic"
    and i: "i \<in> set (notifiable_incidents (tn_state t) (tn_now t))" "is_new_or_worse (wk_previous w) i" "severity_enabled (net_ntfy m) i"
    and room: "length (wk_pending w @ turn_notifications (net_ntfy m) (notifiable_incidents (tn_state t) (tn_now t)) t w)
        \<le> max_pending_notifications"
  shows "incident_notification (net_ntfy m) i \<in> set (wk_pending (worker_turn ca t w))
    \<or> tn_post t (wk_seed w + 1) (publish_request (net_ntfy m) topic (incident_notification (net_ntfy m) i))"
proof -
  let ?n = "incident_notification (net_ntfy m) i"
  let ?waiting = "wk_pending w @ turn_notifications (net_ntfy m) (notifiable_incidents (tn_state t) (tn_now t)) t w"
  have "?n \<in> set ?waiting" using i by (auto simp: turn_notifications_def)
  moreover have "wk_pending (worker_turn ca t w) = (if ?waiting \<noteq> [] \<and> ca \<noteq> []
      \<and> tn_post t (wk_seed w + 1) (publish_request (net_ntfy m) topic (hd ?waiting)) then tl ?waiting else ?waiting)"
    using worker_turn_effect(2) [OF w m(1,2), of ca, unfolded newest_short [OF room]] m(3) by simp
  ultimately show ?thesis by (cases ?waiting) auto
qed

text \<open>(C6) An alarm reaches the phone: when a rule matches the measurements and the daemon's snapshot went
  out, the bytes it wrote make a stick with a session connected; and in the worker's next turn, when
  notifications of the rule's severity are on, the incident is new or worse and the queue has room,
  the notification with exactly the message the rule renders is waiting, or has just been posted.\<close>

theorem alarm_reaches_phone:
  assumes "postcard_ok (st_ser site) (bd_de B)"
    and "send_snapshot site tick h d io = Some (Inr d', io')" "\<not> dm_error d'" "io_log io' = io_log io @ events"
    and "r \<in> set (hf_rules (cf_health (st_cfg site)))"
    and "matches_condition (st_yaml site) (src_filesystems (cf_sources (st_cfg site))) h (rl_when r)"
    and "sk_session sk \<noteq> None" "decoder_ok max_host_frame_len (sk_decoder sk)" "decoder_acc (sk_decoder sk) = Some []"
    and "sh_manifest (ns_state (sk_net sk)) = Some m" "sh_topic (ns_state (sk_net sk)) = Some topic"
    and "nc_enabled (net_ntfy m)" "severity_enabled (net_ntfy m) (rule_alarm site h r)"
    and "is_new_or_worse (wk_previous w) (rule_alarm site h r)" "length (wk_pending w) \<le> max_pending_notifications"
  shows "\<exists>sk'. read_usb B now (sent_bytes events) sk = Some sk' \<and> sk_daemon sk' = Connected
    \<and> (\<forall>t. tn_state t = ns_state (sk_net sk')
        \<and> length (wk_pending w @ turn_notifications (net_ntfy m) (notifiable_incidents (tn_state t) (tn_now t)) t w)
            \<le> max_pending_notifications
      \<longrightarrow> (let n = incident_notification (net_ntfy m) (rule_alarm site h r) in
          pn_message n = render_message (src_filesystems (cf_sources (st_cfg site))) h r
          \<and> (n \<in> set (wk_pending (worker_turn ca t w))
             \<or> tn_post t (wk_seed w + 1) (publish_request (net_ntfy m) topic n))))"
proof -
  obtain report "is" f where f: "evaluate_health (st_yaml site) (st_cfg site) h = Some (report, is)"
      "encode (st_ser site) (HealthSnapshot (set_incidents report is h)) max_host_frame_len = Inr f"
      "io_log io' = io_log io @ [Wrote f]"
    by (rule sent_snapshot_frame [OF assms(2,3)])
  let ?s = "set_incidents report is h"
  have bytes: "sent_bytes events = f" using f(3) assms(4) by (simp add: sent_bytes_def)
  obtain dec where "read_usb B now (sent_bytes events) sk
      = Some ((handle_host_message B now (Inr (HealthSnapshot ?s)) sk)\<lparr>sk_decoder := dec\<rparr>)"
    using read_usb_messages [OF assms(8,9), of B now f] unfolding handle_sent_frame [OF assms(1) f(2)] bytes by blast
  moreover define sk' where "sk' = (handle_host_message B now (Inr (HealthSnapshot ?s)) sk)\<lparr>sk_decoder := dec\<rparr>"
  ultimately have sk': "read_usb B now (sent_bytes events) sk = Some sk'" "sk_daemon sk' = Connected"
      "sh_snapshot (ns_state (sk_net sk')) = Some ?s" "sh_manifest (ns_state (sk_net sk')) = Some m"
      "sh_topic (ns_state (sk_net sk')) = Some topic"
    using assms(7,10,11) by (auto simp: handle_host_message_def update_snapshot_def)
  have alarm: "rule_alarm site h r \<in> set (hs_incidents ?s)"
    using rule_incident_of [OF f(1) assms(5,6)] by (simp add: rule_alarm_def set_incidents_def)
  show ?thesis
  proof (intro exI [of _ sk'] conjI allI impI sk'(1,2), elim conjE)
    fix t
    assume t: "tn_state t = ns_state (sk_net sk')"
      "length (wk_pending w @ turn_notifications (net_ntfy m) (notifiable_incidents (tn_state t) (tn_now t)) t w)
          \<le> max_pending_notifications"
    have "rule_alarm site h r \<in> set (notifiable_incidents (tn_state t) (tn_now t))"
      using snapshot_notifiable [OF sk'(3) alarm] t(1) by simp
    then show "let n = incident_notification (net_ntfy m) (rule_alarm site h r) in
        pn_message n = render_message (src_filesystems (cf_sources (st_cfg site))) h r
        \<and> (n \<in> set (wk_pending (worker_turn ca t w)) \<or> tn_post t (wk_seed w + 1) (publish_request (net_ntfy m) topic n))"
      using alarm_waits_or_leaves [OF assms(15) _ assms(12) _ _ assms(14,13) t(2), of topic ca] sk'(4,5) t(1)
      by (simp add: Let_def incident_notification_def rule_alarm_def incident_new_def)
  qed
qed

text \<open>A full root filesystem, a serializer for the snapshot that reports it, and a stick that has a
  session and knows its topic.\<close>

definition full_disk :: health_snapshot where
  "full_disk = sample_host_snapshot\<lparr>hs_filesystems := [filesystem_new 97 10]\<rparr>"

definition full_rule :: "unit health_rule" where
  "full_rule = hd (hf_rules (cf_health sample_config))"

definition full_alarm :: health_snapshot where
  "full_alarm = (case evaluate_health (st_yaml sample_site) sample_config full_disk of
     Some (report, is) \<Rightarrow> set_incidents report is full_disk | None \<Rightarrow> full_disk)"

definition alarm_site :: "unit site" where
  "alarm_site = sample_site\<lparr>st_ser := (\<lambda>m n. if m = HealthSnapshot full_alarm \<and> 2 \<le> n then Some [1, 0] else None)\<rparr>"

definition alarm_board :: "(device_message list, unit) board" where
  "alarm_board = sample_board\<lparr>bd_de := (\<lambda>p. if p = [1, 0] then Some (HealthSnapshot full_alarm) else None)\<rparr>"

definition alarm_stick :: "(device_message list, unit, unit) stick" where
  "alarm_stick = (stick_new alarm_board 0 (sample_net\<lparr>ns_state := shared_new\<lparr>sh_topic := Some ''t'',
     sh_manifest := Some \<lparr>net_http = http_config_new True ''stick'' 80 [], net_ntfy = sample_ntfy\<rparr>\<rparr>\<rparr>))
     \<lparr>sk_session := Some (HandshakeNonce 7)\<rparr>"

lemma full_rule_matches:
  "matches_condition (st_yaml sample_site) (src_filesystems (cf_sources sample_config)) full_disk (rl_when full_rule)"
  by (simp add: full_rule_def sample_config_def full_disk_def matches_selector_def metric_def get_nth_def
      filesystem_new_def matches_predicate_def number_satisfies_def f64_of_nat_small f64_le_def)

lemma full_disk_evaluated:
  "evaluate_health (st_yaml sample_site) sample_config full_disk
   = Some (primary_report (cf_health sample_config) [rule_alarm sample_site full_disk full_rule],
       [rule_alarm sample_site full_disk full_rule])"
proof -
  have rules: "hf_rules (cf_health sample_config) = [full_rule]" by (simp add: full_rule_def sample_config_def)
  have "rule_id_new (rl_id full_rule) = Inr (RuleId (rl_id full_rule))"
    by (simp add: rule_id_new_iff valid_rule_id_def full_rule_def sample_config_def max_rule_id_len_def is_alnum_def)
  then have "rule_incident (src_filesystems (cf_sources sample_config)) full_disk full_rule
      = Some (rule_alarm sample_site full_disk full_rule)"
    by (simp add: rule_incident_def rule_alarm_def sample_site_def)
  then show ?thesis using full_rule_matches by (simp add: evaluate_health_def rules)
qed

lemma full_alarm_is: "full_alarm = set_incidents
    (primary_report (cf_health sample_config) [rule_alarm sample_site full_disk full_rule])
    [rule_alarm sample_site full_disk full_rule] full_disk"
  by (simp add: full_alarm_def full_disk_evaluated)

definition alarm_frame :: "u8 list" where
  "alarm_frame = [0xa5, 0x5a, 10, 1, 0]"

lemma alarm_encoded: "encode (st_ser alarm_site) (HealthSnapshot full_alarm) max_host_frame_len = Inr alarm_frame"
  by (simp add: encode_def alarm_site_def max_host_frame_len_def alarm_frame_def frame_magic_def protocol_version_def)

lemma alarm_postcard: "postcard_ok (st_ser alarm_site) (bd_de alarm_board)"
  by (auto simp: postcard_ok_def alarm_site_def alarm_board_def split: if_splits)

lemma alarm_heard:
  assumes "read_usb alarm_board 5 (sent_bytes [Wrote alarm_frame]) alarm_stick = Some sk'"
  shows "sh_snapshot (ns_state (sk_net sk')) = Some full_alarm"
proof -
  have "decoder_ok max_host_frame_len (sk_decoder alarm_stick)" "decoder_acc (sk_decoder alarm_stick) = Some []"
      "sk_session alarm_stick \<noteq> None"
    using decoder_new_ok by (simp_all add: alarm_stick_def stick_new_def)
  then show ?thesis
    using read_usb_messages [of alarm_stick alarm_board 5 alarm_frame] assms
      handle_sent_frame [OF alarm_postcard alarm_encoded, of 5 alarm_stick]
    by (auto simp: sent_bytes_def handle_host_message_def update_snapshot_def)
qed

lemma alarm_sent:
  "\<exists>d' io'. send_snapshot alarm_site sample_tick full_disk sample_daemon \<lparr>io_log = [], io_faults = []\<rparr> = Some (Inr d', io')
    \<and> \<not> dm_error d' \<and> io_log io' = [Wrote alarm_frame]"
proof -
  have "evaluate_health (st_yaml alarm_site) (st_cfg alarm_site) full_disk
      = Some (primary_report (cf_health sample_config) [rule_alarm sample_site full_disk full_rule],
          [rule_alarm sample_site full_disk full_rule])"
    using full_disk_evaluated by (simp add: alarm_site_def sample_site_def)
  moreover note alarm_encoded
  ultimately show ?thesis
    by (simp add: send_snapshot_def full_alarm_is Let_def attempt_def write_host_message_def port_op_def go_on_def sample_daemon_def)
qed

definition alarm_turn :: "shared_state \<Rightarrow> turn" where
  "alarm_turn st = \<lparr>tn_state = st, tn_test = False, tn_now = 5, tn_arm = 5, tn_due = 5, tn_rearm = 5, tn_post = (\<lambda>s r. False)\<rparr>"

theorem alarm_reaches_phone_witness:
  "\<exists>sk'. read_usb alarm_board 5 (sent_bytes [Wrote alarm_frame]) alarm_stick = Some sk' \<and> sk_daemon sk' = Connected
    \<and> incident_notification sample_ntfy (rule_alarm alarm_site full_disk full_rule)
        \<in> set (wk_pending (worker_turn [1] (alarm_turn (ns_state (sk_net sk'))) (worker_new 7)))"
proof -
  obtain d' io' where sent: "send_snapshot alarm_site sample_tick full_disk sample_daemon \<lparr>io_log = [], io_faults = []\<rparr>
      = Some (Inr d', io')" "\<not> dm_error d'" "io_log io' = io_log \<lparr>io_log = [], io_faults = []\<rparr> @ [Wrote alarm_frame]"
    using alarm_sent by auto
  have rule: "full_rule \<in> set (hf_rules (cf_health (st_cfg alarm_site)))"
      "matches_condition (st_yaml alarm_site) (src_filesystems (cf_sources (st_cfg alarm_site))) full_disk (rl_when full_rule)"
    using full_rule_matches by (simp_all add: alarm_site_def sample_site_def full_rule_def sample_config_def)
  let ?m = "\<lparr>net_http = http_config_new True ''stick'' 80 [], net_ntfy = sample_ntfy\<rparr>"
  have stick: "sk_session alarm_stick \<noteq> None" "decoder_ok max_host_frame_len (sk_decoder alarm_stick)"
      "decoder_acc (sk_decoder alarm_stick) = Some []" "sh_manifest (ns_state (sk_net alarm_stick)) = Some ?m"
      "sh_topic (ns_state (sk_net alarm_stick)) = Some ''t''"
    using decoder_new_ok by (simp_all add: alarm_stick_def stick_new_def)
  have worker: "nc_enabled (net_ntfy ?m)" "severity_enabled (net_ntfy ?m) (rule_alarm alarm_site full_disk full_rule)"
      "is_new_or_worse (wk_previous (worker_new 7)) (rule_alarm alarm_site full_disk full_rule)"
      "length (wk_pending (worker_new 7)) \<le> max_pending_notifications"
    by (simp_all add: sample_ntfy_def ntfy_config_new_def severity_enabled_def rule_alarm_def incident_new_def full_rule_def
        sample_config_def is_new_or_worse_def worker_new_def)
  obtain sk' where sk': "read_usb alarm_board 5 (sent_bytes [Wrote alarm_frame]) alarm_stick = Some sk'" "sk_daemon sk' = Connected"
    "length (wk_pending (worker_new 7) @ turn_notifications sample_ntfy (notifiable_incidents (ns_state (sk_net sk')) 5)
        (alarm_turn (ns_state (sk_net sk'))) (worker_new 7)) \<le> max_pending_notifications
     \<Longrightarrow> incident_notification sample_ntfy (rule_alarm alarm_site full_disk full_rule)
        \<in> set (wk_pending (worker_turn [1] (alarm_turn (ns_state (sk_net sk'))) (worker_new 7)))"
    using alarm_reaches_phone [OF alarm_postcard sent rule stick worker, of 5 "[1]"]
    by (force simp: alarm_turn_def Let_def)
  have "length (turn_notifications sample_ntfy current (alarm_turn st) (worker_new 7)) \<le> length current" for current st
    by (simp add: turn_notifications_def alarm_turn_def sample_ntfy_def ntfy_config_new_def repeats_due_def worker_new_def)
  moreover have "length (notifiable_incidents (ns_state (sk_net sk')) 5) \<le> 2"
    using alarm_heard [OF sk'(1)]
    by (auto simp: notifiable_incidents_def active_incidents_def Let_def full_alarm_is set_incidents_def intro: le_trans [OF length_filter_le])
  ultimately show ?thesis using sk' by (force simp: max_pending_notifications_def worker_new_def intro: le_trans)
qed

end
