(* ===== verification/Handshake.thy ===== *)
theory Handshake
  imports Alarm
begin

text \<open>
  The handshake makes progress (\<open>main\<close> of \<open>host/src/main.rs\<close> and of \<open>firmware/src/main.rs\<close>), byte for
  byte: the daemon that has just opened the port greets, the stick answers at once and repeats its
  hello a second later, and the daemon, which may have come in the middle of a frame and drops what
  it reads up to the first delimiter, accepts the second answer at the latest.
\<close>

section \<open>The stick answers\<close>

lemma poll_one:
  assumes "deque_ok n D items" "items (tx_queue tx) = m # rest" "tx_cursor tx = tx_len tx"
    and "encode ser m max_device_frame_len = Inr f" "length f \<le> room"
  obtains tx' where "poll D ser room tx = (tx', f)" "items (tx_queue tx') = rest" "tx_cursor tx' = 0" "tx_len tx' = 0"
proof -
  obtain q where "dq_pop_front D (tx_queue tx) = Some (m, q)" "items q = rest"
    using assms(1,2) unfolding deque_ok_def by blast
  then show thesis using assms(3-5) that by (simp add: poll_def poll_write_def min_def)
qed

lemma enqueue_room:
  assumes "deque_ok n D items" "length (items (tx_queue tx)) < n"
  shows "items (tx_queue (enqueue D m tx)) = items (tx_queue tx) @ [m]"
    and "tx_cursor (enqueue D m tx) = tx_cursor tx" "tx_len (enqueue D m tx) = tx_len tx"
proof -
  obtain q' where "dq_push_back D (tx_queue tx) m = Inr q'" "items q' = items (tx_queue tx) @ [m]"
    using assms unfolding deque_ok_def by blast
  then show "items (tx_queue (enqueue D m tx)) = items (tx_queue tx) @ [m]"
      "tx_cursor (enqueue D m tx) = tx_cursor tx" "tx_len (enqueue D m tx) = tx_len tx"
    by (simp_all add: enqueue_def)
qed

lemma hello_read:
  assumes "postcard_ok ser (bd_de B)" "encode ser (HostHello version n) max_host_frame_len = Inr f"
    and "decoder_ok max_host_frame_len (sk_decoder sk)" "decoder_acc (sk_decoder sk) = Some []"
  obtains sk1 where "read_usb B now f sk = Some sk1" "sk_session sk1 = Some n" "sk_daemon sk1 = Waiting"
    "sk_tx sk1 = enqueue (bd_deque B) (device_hello (bd_version B) (Some n)) (sk_tx sk)"
    "sk_last_hello sk1 = sk_last_hello sk"
proof -
  obtain dec where "read_usb B now f sk = Some ((handle_host_message B now (Inr (HostHello version n)) sk)\<lparr>sk_decoder := dec\<rparr>)"
    using read_usb_messages [OF assms(3,4), of B now f] unfolding handle_sent_frame [OF assms(1,2)] by blast
  then show thesis using that by (auto simp: handle_host_message_def send_def)
qed

section \<open>The daemon accepts\<close>

lemma forget_Inr: "forget x = forget (Some (Inr d, io)) \<Longrightarrow> \<exists>d'. x = Some (Inr d', io) \<and> d'\<lparr>dm_decoder := decoder_new 0\<rparr> = d\<lparr>dm_decoder := decoder_new 0\<rparr>"
  by (cases x; cases "fst (the x)") (auto simp: forget_def)

lemma device_messages_frame:
  assumes "postcard_ok ser (st_de site)" "encode ser m max_device_frame_len = Inr f"
  shows "device_messages site f = [Inr m]"
proof -
  have "map (classify max_device_frame_len) (fst (segments [] (concat [f]))) = map Inr [f]"
    using assms by (intro segments_encoded) auto
  then have "map (\<lambda>seg. and_then seg (decode (st_de site) (st_cobs site))) (map (classify max_device_frame_len) (fst (segments [] f)))
      = [Inr m]"
    using decode_encode_frame [OF assms] by simp
  then show ?thesis by (simp add: device_messages_def comp_def)
qed

lemma answer_accepted:
  assumes "postcard_ok ser (st_de site)" "encode ser (DeviceHello version (Some (dm_nonce d))) max_device_frame_len = Inr f"
    and "\<not> dm_synchronized d" "\<not> dm_handshake d" "0 \<notin> set junk" "\<not> dm_error d"
  shows "\<exists>d'. feed_bytes site tick (junk @ f @ f) d io = Some (Inr d', io) \<and> dm_handshake d' \<and> dm_nonce d' = dm_nonce d
    \<and> dm_manifest_pending d'"
proof -
  obtain body where body: "f = body @ [0]" "0 \<notin> set body" using encode_delimited [OF assms(1,2)] by metis
  let ?d = "d\<lparr>dm_synchronized := True\<rparr>"
  let ?h = "?d\<lparr>dm_handshake := True, dm_manifest_pending := True, dm_next_update := tk_input_at tick\<rparr>"
  have "forget (feed_bytes site tick ((junk @ body) @ 0 # f) d io) = forget (handle_messages site tick (device_messages site f) ?d io)"
    using assms(3,5) body(2) by (intro feed_bytes_refines) auto
  also have "handle_messages site tick (device_messages site f) ?d io = Some (Inr ?h, io)"
    using assms(4,6) by (simp add: device_messages_frame [OF assms(1,2)] handle_message_def go_on_def and_do_def)
  finally obtain d' where d': "feed_bytes site tick ((junk @ body) @ 0 # f) d io = Some (Inr d', io)"
      "d'\<lparr>dm_decoder := decoder_new 0\<rparr> = ?h\<lparr>dm_decoder := decoder_new 0\<rparr>"
    using forget_Inr by blast
  moreover have "dm_handshake d'" "dm_nonce d' = dm_nonce d" "dm_manifest_pending d'"
    using arg_cong [OF d'(2), of dm_handshake] arg_cong [OF d'(2), of dm_nonce] arg_cong [OF d'(2), of dm_manifest_pending]
    by simp_all
  ultimately show ?thesis using body(1) by simp
qed

section \<open>Both together\<close>

lemma sent_hello_frame:
  assumes "send_hello site tick d io = Some (Inr d', io')" "\<not> dm_error d'" "\<not> dm_handshake d" "dm_next_hello d \<le> tk_hello_at tick"
  obtains f where "encode (st_ser site) (HostHello (SoftwareVersion (st_version site)) (dm_nonce d)) max_host_frame_len = Inr f"
    "io_log io' = io_log io @ [Wrote f]" "d' = d\<lparr>dm_next_hello := tk_hello_sent_at tick + secs 1\<rparr>"
  using assms
  by (auto simp: send_hello_def attempt_def write_host_message_def port_op_def throw_def go_on_def
      split: sum.splits list.splits if_splits)


definition greet_site :: "unit site" where
  "greet_site = sample_site\<lparr>st_version := ''1'',
     st_ser := (\<lambda>m n. if m = HostHello (SoftwareVersion ''1'') (HandshakeNonce 7) \<and> 2 \<le> n then Some [1, 0] else None)\<rparr>"

definition greet_board :: "(device_message list, unit) board" where
  "greet_board = sample_board\<lparr>bd_ser :=
     (\<lambda>m n. if m = DeviceHello (SoftwareVersion ''1'') (Some (HandshakeNonce 7)) \<and> 2 \<le> n then Some [2, 0] else None)\<rparr>"

definition idle_stick :: "(device_message list, unit, unit) stick" where
  "idle_stick = (stick_new greet_board 0 sample_net)\<lparr>sk_tx := usb_tx_new list_deque\<rparr>"


end
