(* ===== verification/Shutdown_Path.thy ===== *)
theory Shutdown_Path
  imports Handshake
begin

text \<open>
  A shutdown on its whole way, byte for byte: the long press on a connected stick, the request on the
  line, the daemon's handler and power-off, and the reports the stick shows
  (\<open>firmware/src/main.rs\<close>, \<open>host/src/main.rs\<close>, \<open>host/src/lib.rs\<close>).
\<close>

section \<open>The frames of a shutdown\<close>

definition shutdown_message :: "host_message \<Rightarrow> bool" where
  "shutdown_message m = (case m of ShutdownProgress phase n r \<Rightarrow> True | ShutdownFailed reason r \<Rightarrow> True | _ \<Rightarrow> False)"

definition written :: "io_event list \<Rightarrow> u8 list list" where
  "written events = concat (map (\<lambda>ev. case ev of Wrote f \<Rightarrow> [f] | _ \<Rightarrow> []) events)"

lemma written_simps [simp]:
  "written [] = []" "written (Wrote f # evs) = f # written evs" "written (Flushed # evs) = written evs"
  "written (RanPoweroff # evs) = written evs" "written (Slept t # evs) = written evs" "written (Printed s # evs) = written evs"
  "written (a @ b) = written a @ written b"
  by (simp_all add: written_def)

lemma sent_bytes_written: "sent_bytes events = concat (written events)"
  by (induction events) (auto simp: sent_bytes_def written_def split: io_event.split)

lemma shutdown_frames:
  "list_all (quiet_event ser) events
   \<Longrightarrow> \<exists>ms. list_all2 (\<lambda>m f. encode ser m max_host_frame_len = Inr f) ms (written events) \<and> list_all shutdown_message ms"
proof (induction events)
  case (Cons ev events)
  then obtain ms where ms: "list_all2 (\<lambda>m f. encode ser m max_host_frame_len = Inr f) ms (written events)"
      "list_all shutdown_message ms" by auto
  show ?case
  proof (cases ev)
    case (Wrote f)
    then obtain m where "encode ser m max_host_frame_len = Inr f" "shutdown_message m"
      using Cons.prems by (auto simp: shutdown_frame_def shutdown_message_def)
    then show ?thesis using ms Wrote by (intro exI [of _ "m # ms"]) simp
  qed (use ms in auto)
qed auto

section \<open>The stick follows\<close>

definition handle_all :: "('q, 'm) board \<Rightarrow> time \<Rightarrow> host_message list \<Rightarrow> ('q, 'm, 't) stick \<Rightarrow> ('q, 'm, 't) stick" where
  "handle_all B now ms sk = foldl (\<lambda>sk m. handle_host_message B now (Inr m) sk) sk ms"

lemma handle_frames_encoded:
  assumes "postcard_ok ser (bd_de B)"
  shows "list_all2 (\<lambda>m f. encode ser m max_host_frame_len = Inr f) ms frames
    \<Longrightarrow> handle_frames B now (map Inr frames) sk = handle_all B now ms sk"
  by (induction ms frames arbitrary: sk rule: list_all2_induct)
    (simp_all add: handle_all_def decode_encode_frame [OF assms])

lemma read_usb_encoded:
  assumes "postcard_ok ser (bd_de B)" "list_all2 (\<lambda>m f. encode ser m max_host_frame_len = Inr f) ms frames"
    and "decoder_ok max_host_frame_len (sk_decoder sk)" "decoder_acc (sk_decoder sk) = Some []"
  obtains dec where "read_usb B now (concat frames) sk = Some ((handle_all B now ms sk)\<lparr>sk_decoder := dec\<rparr>)"
  using read_usb_messages [OF assms(3,4), of B now "concat frames"]
  unfolding segments_encoded [OF assms(1,2)] handle_frames_encoded [OF assms(1,2)] by blast

text \<open>Reports keep the stick in its shutdown.\<close>

lemma shutdown_message_kept:
  "sk_daemon sk = PoweringOff \<and> sk_session sk \<noteq> None \<Longrightarrow> shutdown_message m
   \<Longrightarrow> sk_daemon (handle_host_message B now (Inr m) sk) = PoweringOff \<and> sk_session (handle_host_message B now (Inr m) sk) \<noteq> None"
  by (cases m) (auto simp: handle_host_message_def shutdown_message_def split: shutdown_phase.split)

lemma shutdown_messages_kept:
  "list_all shutdown_message ms \<Longrightarrow> sk_daemon sk = PoweringOff \<and> sk_session sk \<noteq> None
   \<Longrightarrow> sk_daemon (handle_all B now ms sk) = PoweringOff \<and> sk_session (handle_all B now ms sk) \<noteq> None"
proof (induction ms arbitrary: sk)
  case (Cons m ms)
  then show ?case using shutdown_message_kept [of sk m B now] by (simp add: handle_all_def)
qed (simp add: handle_all_def)

lemma shutdown_shown:
  assumes "sk_session sk \<noteq> None" "list_all shutdown_message ms"
  shows "sk_daemon (handle_all B now (ShutdownAccepted # ms @ [ShutdownProgress PhasePoweringOff n r]) sk) = PoweringOff
    \<and> sk_shutdown (handle_all B now (ShutdownAccepted # ms @ [ShutdownProgress PhasePoweringOff n r]) sk) = HostPoweroff 0 r"
proof -
  let ?sk1 = "handle_host_message B now (Inr ShutdownAccepted) sk"
  have "sk_daemon ?sk1 = PoweringOff \<and> sk_session ?sk1 \<noteq> None" using assms(1) by (auto simp: handle_host_message_def)
  then have "sk_session (handle_all B now ms ?sk1) \<noteq> None" using shutdown_messages_kept [OF assms(2)] by blast
  then show ?thesis by (auto simp: handle_all_def handle_host_message_def)
qed

section \<open>The daemon acts\<close>

lemma handle_succeeds:
  assumes "handle ser (systemd_poweroff fuel ser env) allow ShutdownRequested io = Some (Inr True, io')"
  obtains f io1 where "encode ser ShutdownAccepted max_host_frame_len = Inr f" "io_log io1 = io_log io @ [Wrote f, Flushed]"
    "systemd_poweroff fuel ser env io1 = Some (Inr (), io')"
proof -
  let ?answer = "\<lambda>r. case r of Inr _ \<Rightarrow> ret True | Inl _ \<Rightarrow> ret False"
  have allow using assms by (auto simp: handle_def ret_def split: if_splits)
  obtain f io0 io1 where f: "encode ser ShutdownAccepted max_host_frame_len = Inr f"
      "port_op (Wrote f) WriteError io = Some (Inr (), io0)" "port_op Flushed FlushError io0 = Some (Inr (), io1)"
      "catch_do (systemd_poweroff fuel ser env) ?answer io1 = Some (Inr True, io')"
    using assms \<open>allow\<close> by (auto simp: handle_def then_do_Inr write_host_message_def throw_def split: sum.splits)
  obtain r io2 where r: "systemd_poweroff fuel ser env io1 = Some (r, io2)" "?answer r io2 = Some (Inr True, io')"
    using f(4) by (auto simp: catch_do_def split: option.splits)
  then have "systemd_poweroff fuel ser env io1 = Some (Inr (), io')" by (cases r) (auto simp: ret_def)
  moreover have "io_log io1 = io_log io @ [Wrote f, Flushed]"
    using port_op_result [OF f(2)] port_op_result [OF f(3)] by simp
  ultimately show thesis using that f(1) by blast
qed

lemma forget_Inl: "forget x = Some (Inl e, io) \<Longrightarrow> x = Some (Inl e, io)"
  by (cases x; cases "fst (the x)") (auto simp: forget_def)

lemma request_read:
  assumes "postcard_ok ser (st_de site)" "encode ser ShutdownRequested max_device_frame_len = Inr f"
    and "dm_synchronized d" "decoder_ok max_device_frame_len (dm_decoder d)" "decoder_acc (dm_decoder d) = Some []"
  shows "forget (feed_bytes site tick f d io) = forget (handle_messages site tick [Inr ShutdownRequested] d io)"
proof -
  obtain fin where "push_all (push max_device_frame_len) (dm_decoder d) f
      = Some (fin, map (classify max_device_frame_len) (fst (segments [] f)))"
    using fd.run_frames [OF assms(4,5)] by blast
  from feed_bytes_messages [OF assms(3) this, of site tick io]
  have "forget (feed_bytes site tick f d io) = forget (handle_messages site tick (device_messages site f) d io)"
    by (simp add: device_messages_def comp_def)
  then show ?thesis unfolding device_messages_frame [OF assms(1,2)] .
qed

lemma request_handled:
  assumes "feed_bytes site tick f d io = Some (Inl ShutDown, io')" "postcard_ok ser (st_de site)"
    and "encode ser ShutdownRequested max_device_frame_len = Inr f"
    and "dm_synchronized d" "decoder_ok max_device_frame_len (dm_decoder d)" "decoder_acc (dm_decoder d) = Some []"
  shows "dm_handshake d \<and> handle (st_ser site) (systemd_poweroff (tk_fuel tick) (st_ser site) (tk_env tick))
      (sh_enabled (cf_shutdown (st_cfg site))) ShutdownRequested io = Some (Inr True, io')"
proof -
  have "forget (handle_messages site tick [Inr ShutdownRequested] d io) = Some (Inl ShutDown, io')"
    using request_read [OF assms(2-6), of tick io] by (simp add: assms(1) forget_def)
  then have "handle_messages site tick [Inr ShutdownRequested] d io = Some (Inl ShutDown, io')"
    by (rule forget_Inl)
  then show ?thesis
    by (auto simp: and_do_def handle_message_def go_on_def leave_def attempt_def split: option.splits prod.splits sum.splits if_splits)
qed

section \<open>From the button to the last report\<close>

text \<open>(C5) A shutdown works end to end: when the long press ends on a stick that is connected, its next
  transmission is the request; when the daemon that reads it ends with a power-off, the handshake
  stood, shutdowns are enabled, and the bytes it wrote meanwhile, read by the stick, leave the screen
  at the power-off of the host with the guests that were left, after the command ran exactly once.\<close>

theorem shutdown_end_to_end:
  assumes "postcard_ok (st_ser site) (bd_de B)" "postcard_ok (bd_ser B) (st_de site)" "deque_ok 8 (bd_deque B) items"
    and "sk_daemon sk = Connected" "sk_session sk \<noteq> None" "items (tx_queue (sk_tx sk)) = []"
    and "tx_cursor (sk_tx sk) = tx_len (sk_tx sk)"
    and "decoder_ok max_host_frame_len (sk_decoder sk)" "decoder_acc (sk_decoder sk) = Some []"
    and "encode (bd_ser B) ShutdownRequested max_device_frame_len = Inr f" "length f \<le> room"
    and "dm_synchronized d" "decoder_ok max_device_frame_len (dm_decoder d)" "decoder_acc (dm_decoder d) = Some []"
    and "feed_bytes site tick f d io = Some (Inl ShutDown, io')" "io_log io' = io_log io @ events"
  shows "\<exists>tx sk' remaining. poll (bd_deque B) (bd_ser B) room (sk_tx (fst (long_press_done B sk))) = (tx, f)
    \<and> dm_handshake d \<and> sh_enabled (cf_shutdown (st_cfg site)) \<and> count_list events RanPoweroff = 1
    \<and> read_usb B now (sent_bytes events) ((fst (long_press_done B sk))\<lparr>sk_tx := tx\<rparr>) = Some sk'
    \<and> sk_daemon sk' = PoweringOff \<and> sk_shutdown sk' = HostPoweroff 0 remaining"
proof -
  let ?sk1 = "fst (long_press_done B sk)"
  have sk1: "sk_tx ?sk1 = enqueue (bd_deque B) ShutdownRequested (sk_tx sk)" "sk_session ?sk1 = sk_session sk"
      "sk_decoder ?sk1 = sk_decoder sk"
    using assms(4) by (simp_all add: long_press_done_def send_def Let_def)
  have "items (tx_queue (sk_tx ?sk1)) = ShutdownRequested # []" "tx_cursor (sk_tx ?sk1) = tx_len (sk_tx ?sk1)"
    using enqueue_room [OF assms(3), of "sk_tx sk"] assms(6,7) by (simp_all add: sk1(1))
  then obtain tx where tx: "poll (bd_deque B) (bd_ser B) room (sk_tx ?sk1) = (tx, f)"
    by (rule poll_one [OF assms(3) _ _ assms(10,11)])
  have h: "dm_handshake d" "handle (st_ser site) (systemd_poweroff (tk_fuel tick) (st_ser site) (tk_env tick))
      (sh_enabled (cf_shutdown (st_cfg site))) ShutdownRequested io = Some (Inr True, io')"
    using request_handled [OF assms(15,2,10,12-14)] by blast+
  have enabled: "sh_enabled (cf_shutdown (st_cfg site))" using h(2) by (auto simp: handle_def ret_def split: if_splits)
  obtain fa io1 where fa: "encode (st_ser site) ShutdownAccepted max_host_frame_len = Inr fa"
      "io_log io1 = io_log io @ [Wrote fa, Flushed]"
      "systemd_poweroff (tk_fuel tick) (st_ser site) (tk_env tick) io1 = Some (Inr (), io')"
    by (rule handle_succeeds [OF h(2)])
  obtain before after n remaining fl where log: "io_log io' = io_log io1 @ before @ [RanPoweroff] @ after @ [Wrote fl, Flushed]"
      "list_all (quiet_event (st_ser site)) before" "list_all (quiet_event (st_ser site)) after"
      "encode (st_ser site) (ShutdownProgress PhasePoweringOff n remaining) max_host_frame_len = Inr fl"
    using poweroff_log [OF fa(3)] by blast
  have events: "events = [Wrote fa, Flushed] @ before @ [RanPoweroff] @ after @ [Wrote fl, Flushed]"
    using log(1) fa(2) assms(16) by simp
  have "RanPoweroff \<notin> set before" "RanPoweroff \<notin> set after"
    using log(2,3) by (auto simp: list_all_iff quiet_event_def)
  then have once: "count_list events RanPoweroff = 1" by (simp add: events count_list_0_iff)
  have "list_all (quiet_event (st_ser site)) (before @ after)" using log(2,3) by simp
  then obtain ms where ms: "list_all2 (\<lambda>m f. encode (st_ser site) m max_host_frame_len = Inr f) ms (written (before @ after))"
      "list_all shutdown_message ms"
    using shutdown_frames by blast
  let ?ms = "ShutdownAccepted # ms @ [ShutdownProgress PhasePoweringOff n remaining]"
  have frames: "list_all2 (\<lambda>m f. encode (st_ser site) m max_host_frame_len = Inr f) ?ms (written events)"
    using ms(1) fa(1) log(4) by (simp add: events list_all2_appendI flip: append_assoc)
  let ?sk = "?sk1\<lparr>sk_tx := tx\<rparr>"
  have boundary: "decoder_ok max_host_frame_len (sk_decoder ?sk)" "decoder_acc (sk_decoder ?sk) = Some []"
    using assms(8,9) by (simp_all add: sk1(3))
  obtain dec where "read_usb B now (sent_bytes events) ?sk = Some ((handle_all B now ?ms ?sk)\<lparr>sk_decoder := dec\<rparr>)"
    unfolding sent_bytes_written by (rule read_usb_encoded [OF assms(1) frames boundary])
  moreover have "sk_daemon (handle_all B now ?ms ?sk) = PoweringOff \<and> sk_shutdown (handle_all B now ?ms ?sk) = HostPoweroff 0 remaining"
    using assms(5) sk1(2) by (intro shutdown_shown ms(2)) simp
  ultimately show ?thesis using tx h(1) enabled once by auto
qed

definition shutdown_ser :: "host_message \<Rightarrow> nat \<Rightarrow> u8 list option" where
  "shutdown_ser m n = (if n < 2 then None
     else if m = ShutdownAccepted then Some [3, 0] else if m = ShutdownProgress PreparingGuests 0 0 then Some [4, 0]
     else if m = ShutdownProgress PhasePoweringOff 0 0 then Some [5, 0] else None)"

definition shutdown_site :: "unit site" where
  "shutdown_site = sample_site\<lparr>st_ser := shutdown_ser\<rparr>"

lemma shutdown_frames_written:
  "encode shutdown_ser ShutdownAccepted max_host_frame_len = Inr [0xa5, 0x5a, 10, 3, 0]"
  "encode shutdown_ser (ShutdownProgress PreparingGuests 0 0) max_host_frame_len = Inr [0xa5, 0x5a, 10, 4, 0]"
  "encode shutdown_ser (ShutdownProgress PhasePoweringOff 0 0) max_host_frame_len = Inr [0xa5, 0x5a, 10, 5, 0]"
  by (simp_all add: encode_def shutdown_ser_def max_host_frame_len_def frame_magic_def protocol_version_def)

lemmas shutdown_steps = write_host_message_def write_shutdown_progress_def then_do_def catch_do_def ret_def
  log_event_def port_op_def shutdown_frames_written

lemma shutdown_sample_poweroff:
  "\<exists>io'. systemd_poweroff 0 shutdown_ser (\<lambda>k. poweroff_env) \<lparr>io_log = l, io_faults = []\<rparr> = Some (Inr (), io')"
  by (simp add: systemd_poweroff_def shutdown_steps count_guests_def running_guest_count_def run_systemctl_def
      after_poweroff_def poweroff_env_def looping_env_def co_success_def)

lemma shutdown_sample_handled:
  "\<exists>io'. handle shutdown_ser (systemd_poweroff 0 shutdown_ser (\<lambda>k. poweroff_env)) True ShutdownRequested
      \<lparr>io_log = [], io_faults = []\<rparr> = Some (Inr True, io')"
proof -
  obtain io' where "systemd_poweroff 0 shutdown_ser (\<lambda>k. poweroff_env)
      \<lparr>io_log = [Wrote [0xa5, 0x5a, 10, 3, 0], Flushed], io_faults = []\<rparr> = Some (Inr (), io')"
    using shutdown_sample_poweroff by blast
  then show ?thesis by (simp add: handle_def shutdown_steps)
qed

definition shutdown_board :: "(device_message list, unit) board" where
  "shutdown_board = sample_board\<lparr>bd_ser := (\<lambda>m n. if m = ShutdownRequested \<and> 2 \<le> n then Some [1, 0] else None),
     bd_de := (\<lambda>p. if p = [3, 0] then Some ShutdownAccepted else if p = [4, 0] then Some (ShutdownProgress PreparingGuests 0 0)
       else if p = [5, 0] then Some (ShutdownProgress PhasePoweringOff 0 0) else None)\<rparr>"

definition shutdown_stick :: "(device_message list, unit, unit) stick" where
  "shutdown_stick = (stick_new shutdown_board 0 sample_net)\<lparr>sk_tx := usb_tx_new list_deque, sk_daemon := Connected,
     sk_session := Some (HandshakeNonce 7)\<rparr>"

definition shutdown_daemon :: daemon where
  "shutdown_daemon = sample_daemon\<lparr>dm_synchronized := True, dm_handshake := True, dm_decoder := decoder_new max_device_frame_len\<rparr>"

lemma shutdown_sample_leaves:
  "\<exists>io'. handle_messages shutdown_site sample_tick [Inr ShutdownRequested] shutdown_daemon \<lparr>io_log = [], io_faults = []\<rparr>
    = Some (Inl ShutDown, io')"
proof -
  obtain io' where "handle shutdown_ser (systemd_poweroff 0 shutdown_ser (\<lambda>k. poweroff_env)) True ShutdownRequested
      \<lparr>io_log = [], io_faults = []\<rparr> = Some (Inr True, io')"
    using shutdown_sample_handled by blast
  moreover have "st_ser shutdown_site = shutdown_ser" "sh_enabled (cf_shutdown (st_cfg shutdown_site))"
      "tk_fuel sample_tick = 0" "tk_env sample_tick = (\<lambda>k. poweroff_env)" "dm_handshake shutdown_daemon"
    by (simp_all add: shutdown_site_def sample_site_def sample_config_def sample_tick_def shutdown_daemon_def)
  ultimately show ?thesis by (simp add: handle_message_def and_do_def attempt_def leave_def go_on_def)
qed

lemma shutdown_sample_codec:
  "postcard_ok (st_ser shutdown_site) (bd_de shutdown_board)"
  by (auto simp: postcard_ok_def shutdown_site_def shutdown_board_def shutdown_ser_def split: if_splits)

lemma shutdown_sample_request_codec:
  "postcard_ok (bd_ser shutdown_board) (st_de shutdown_site)"
  by (auto simp: postcard_ok_def shutdown_site_def shutdown_board_def sample_site_def split: if_splits)

lemma shutdown_sample_stick:
  "sk_daemon shutdown_stick = Connected" "sk_session shutdown_stick \<noteq> None" "tx_queue (sk_tx shutdown_stick) = []"
  "tx_cursor (sk_tx shutdown_stick) = tx_len (sk_tx shutdown_stick)"
  "decoder_ok max_host_frame_len (sk_decoder shutdown_stick)" "decoder_acc (sk_decoder shutdown_stick) = Some []"
  by (simp_all add: shutdown_stick_def stick_new_def usb_tx_new_def list_deque_def decoder_new_ok)

lemma shutdown_sample_request:
  "encode (bd_ser shutdown_board) ShutdownRequested max_device_frame_len = Inr [0xa5, 0x5a, 10, 1, 0]"
  by (simp add: shutdown_board_def encode_def max_device_frame_len_def frame_magic_def protocol_version_def)

lemma shutdown_sample_daemon:
  "dm_synchronized shutdown_daemon" "decoder_ok max_device_frame_len (dm_decoder shutdown_daemon)"
  "decoder_acc (dm_decoder shutdown_daemon) = Some []"
  by (simp_all add: shutdown_daemon_def decoder_new_ok)

theorem shutdown_end_to_end_witness:
  "\<exists>io' tx sk' remaining. feed_bytes shutdown_site sample_tick [0xa5, 0x5a, 10, 1, 0] shutdown_daemon \<lparr>io_log = [], io_faults = []\<rparr>
      = Some (Inl ShutDown, io')
    \<and> poll (bd_deque shutdown_board) (bd_ser shutdown_board) 64 (sk_tx (fst (long_press_done shutdown_board shutdown_stick)))
      = (tx, [0xa5, 0x5a, 10, 1, 0])
    \<and> count_list (io_log io') RanPoweroff = 1
    \<and> read_usb shutdown_board 0 (sent_bytes (io_log io')) ((fst (long_press_done shutdown_board shutdown_stick))\<lparr>sk_tx := tx\<rparr>) = Some sk'
    \<and> sk_daemon sk' = PoweringOff \<and> sk_shutdown sk' = HostPoweroff 0 remaining"
proof -
  let ?io = "\<lparr>io_log = [], io_faults = []\<rparr>" and ?f = "[0xa5, 0x5a, 10, 1, 0] :: u8 list"
  have queue: "deque_ok 8 (bd_deque shutdown_board) (\<lambda>q. q)" using sample_deque_ok by (simp add: shutdown_board_def)
  obtain io' where io': "handle_messages shutdown_site sample_tick [Inr ShutdownRequested] shutdown_daemon ?io = Some (Inl ShutDown, io')"
    using shutdown_sample_leaves by blast
  have "forget (feed_bytes shutdown_site sample_tick ?f shutdown_daemon ?io) = Some (Inl ShutDown, io')"
    using request_read [OF shutdown_sample_request_codec shutdown_sample_request shutdown_sample_daemon, of sample_tick ?io]
    by (simp only: io') (simp add: forget_def)
  then have fed: "feed_bytes shutdown_site sample_tick ?f shutdown_daemon ?io = Some (Inl ShutDown, io')"
    by (rule forget_Inl)
  have log: "io_log io' = io_log ?io @ io_log io'" by simp
  have "length ?f \<le> 64" by simp
  from fed shutdown_end_to_end [OF shutdown_sample_codec shutdown_sample_request_codec queue shutdown_sample_stick
      shutdown_sample_request this shutdown_sample_daemon fed log, of 0]
  show ?thesis by blast
qed

end
