(* ===== verification/Store_Runs.thy ===== *)
theory Store_Runs
  imports Provisioning
begin

text \<open>
  The store task of the stick over its whole run (\<open>manifest_store\<close> in \<open>firmware/src/network.rs\<close>): any
  sequence of manifests and topics, each followed by a write of the whole record whose failure the
  task ignores. What a restart loads is what the last write left, so the lemmas follow the value the
  task holds apart from the one in flash.
\<close>

definition manifest_store_run ::
  "'s flash_api \<Rightarrow> postcard_settings \<Rightarrow> store_event list \<Rightarrow> provisioning \<times> network_config option \<times> 's
   \<Rightarrow> provisioning \<times> network_config option \<times> 's" where
  "manifest_store_run F P events st = foldl (\<lambda>st event. manifest_store_step F P event st) st events"

text \<open>The newest topic and the newest manifest among the events, or the ones there were.\<close>

fun latest_topic :: "str \<Rightarrow> store_event list \<Rightarrow> str" where
  "latest_topic topic [] = topic"
| "latest_topic topic (NewTopic t # events) = latest_topic t events"
| "latest_topic topic (NewManifest m # events) = latest_topic topic events"

fun latest_manifest :: "network_config option \<Rightarrow> store_event list \<Rightarrow> network_config option" where
  "latest_manifest n [] = n"
| "latest_manifest n (NewTopic t # events) = latest_manifest n events"
| "latest_manifest n (NewManifest m # events) = latest_manifest (Some m) events"

lemma run_Nil [simp]: "manifest_store_run F P [] st = st"
  by (simp add: manifest_store_run_def)

lemma run_Cons: "manifest_store_run F P (e # events) st = manifest_store_run F P events (manifest_store_step F P e st)"
  by (simp add: manifest_store_run_def)

lemma run_snoc: "manifest_store_run F P (events @ [e]) st = manifest_store_step F P e (manifest_store_run F P events st)"
  by (simp add: manifest_store_run_def)

lemma store_step:
  "manifest_store_step F P e (p, n, s) = (let p' = p\<lparr>pv_topic := latest_topic (pv_topic p) [e]\<rparr>; n' = latest_manifest n [e]
     in (p', n', snd (save F P \<lparr>ss_provisioning = p', ss_network = n'\<rparr> s)))"
  by (cases e) (simp_all add: Let_def manifest_store_step_def save_network_def save_provisioning_def split: option.split)

text \<open>In memory the task always has the newest of both, whatever the writes did.\<close>

lemma run_remembers:
  "manifest_store_run F P events (p, n, s) = (p', n', s') \<Longrightarrow>
    p' = p\<lparr>pv_topic := latest_topic (pv_topic p) events\<rparr> \<and> n' = latest_manifest n events"
proof (induction events arbitrary: p n s)
  case (Cons e events)
  obtain s1 where "manifest_store_step F P e (p, n, s)
      = (p\<lparr>pv_topic := latest_topic (pv_topic p) [e]\<rparr>, latest_manifest n [e], s1)"
    by (simp add: store_step Let_def)
  with Cons.prems have "manifest_store_run F P events
      (p\<lparr>pv_topic := latest_topic (pv_topic p) [e]\<rparr>, latest_manifest n [e], s1) = (p', n', s')"
    by (simp add: run_Cons)
  from Cons.IH [OF this] show ?case by (cases e) simp_all
qed simp

text \<open>(C30) Settings survive a restart: when the store task could write after its last event, the next
  start loads exactly the newest topic and the newest manifest of the whole run, past the magic, the
  version, the length, the checksum and the padding, however many writes before it failed half way.\<close>

theorem store_survives_restart:
  assumes "flash_ok F" "postcard_settings_ok P"
    and "manifest_store_run F P events (p, n, s) = (p0, n0, s0)"
    and "manifest_store_run F P (events @ [e]) (p, n, s) = (p', n', s')"
    and "fst (save F P \<lparr>ss_provisioning = p', ss_network = n'\<rparr> s0)"
  shows "load_settings F P s' = Some \<lparr>ss_provisioning = p\<lparr>pv_topic := latest_topic (pv_topic p) (events @ [e])\<rparr>,
      ss_network = latest_manifest n (events @ [e])\<rparr>"
proof -
  let ?v = "\<lparr>ss_provisioning = p', ss_network = n'\<rparr>"
  have "manifest_store_step F P e (p0, n0, s0) = (p', n', s')"
    using assms(3,4) by (simp add: run_snoc)
  then have "s' = snd (save F P ?v s0)" by (auto simp: store_step Let_def)
  with assms(5) have "save F P ?v s0 = (True, s')" by (cases "save F P ?v s0") simp
  then have "load_settings F P s' = Some ?v" by (rule saved_loads [OF assms(1,2)])
  then show ?thesis using run_remembers [OF assms(4)] by simp
qed

text \<open>The first write fails and leaves a torn sector; the second succeeds.\<close>

definition failing_flash :: "(nat \<times> u8 list \<times> bool) flash_api" where
  "failing_flash = \<lparr>fl_capacity = 8192, fl_sector_size = 4096,
     fl_read = (\<lambda>s a n. if fst s \<le> a then Some (take n (drop (a - fst s) (fst (snd s)))) else None),
     fl_erase = (\<lambda>s a b. (True, a, [], snd (snd s))),
     fl_write = (\<lambda>s a bs. if snd (snd s) then (False, a, take 3 bs, False) else (True, a, bs, False))\<rparr>"

definition topic_of :: "str \<Rightarrow> provisioning" where
  "topic_of t = sample_provisioning\<lparr>pv_topic := t\<rparr>"

definition topic_postcard :: postcard_settings where
  "topic_postcard = \<lparr>pc_to = (\<lambda>v. if v = \<lparr>ss_provisioning = topic_of ''a'', ss_network = None\<rparr> then Some [7]
       else if v = \<lparr>ss_provisioning = topic_of ''b'', ss_network = None\<rparr> then Some [8] else None),
     pc_from = (\<lambda>p. if p = [7] then Some \<lparr>ss_provisioning = topic_of ''a'', ss_network = None\<rparr>
       else if p = [8] then Some \<lparr>ss_provisioning = topic_of ''b'', ss_network = None\<rparr> else None)\<rparr>"

lemma topic_valid: "is_valid (topic_of ''a'')" "is_valid (topic_of ''b'')"
  by (simp_all add: topic_of_def is_valid_def sample_provisioning_def is_alnum_def)

lemma topic_differs: "topic_of ''a'' \<noteq> topic_of ''b''"
  by (simp add: topic_of_def sample_provisioning_def)

lemma topic_again: "topic_of t\<lparr>pv_topic := u\<rparr> = topic_of u" "pv_topic (topic_of t) = t"
  by (simp_all add: topic_of_def)

lemma failing_flash_ok: "flash_ok failing_flash"
  by (simp add: flash_ok_def failing_flash_def next_multiple_of_4_def div_ceil_def max_record_len_def)

lemma topic_postcard_ok: "postcard_settings_ok topic_postcard"
  using topic_differs by (auto simp: postcard_settings_ok_def topic_postcard_def split: if_splits)

lemma failing_saves:
  "save failing_flash topic_postcard \<lparr>ss_provisioning = topic_of ''a'', ss_network = None\<rparr> (0, [], True)
    = (False, 4096, take 3 (settings_record [7]), False)"
  "save failing_flash topic_postcard \<lparr>ss_provisioning = topic_of ''b'', ss_network = None\<rparr> (4096, bs, False)
    = (True, 4096, settings_record [8], False)"
  using topic_valid topic_differs
  by (simp_all add: save_def topic_postcard_def failing_flash_def sector_def max_record_len_def)

theorem store_survives_restart_witness:
  "\<exists>s'. manifest_store_run failing_flash topic_postcard [NewTopic ''a'', NewTopic ''b''] (topic_of ''x'', None, 0, [], True)
      = (topic_of ''b'', None, s')
    \<and> load_settings failing_flash topic_postcard s' = Some \<lparr>ss_provisioning = topic_of ''b'', ss_network = None\<rparr>"
proof -
  let ?s0 = "(4096, take 3 (settings_record [7]), False)" and ?s1 = "(4096, settings_record [8], False)"
  have one: "manifest_store_run failing_flash topic_postcard [NewTopic ''a''] (topic_of ''x'', None, 0, [], True)
      = (topic_of ''a'', None, ?s0)"
    by (simp add: run_Cons store_step topic_again failing_saves)
  have two: "manifest_store_run failing_flash topic_postcard ([NewTopic ''a''] @ [NewTopic ''b'']) (topic_of ''x'', None, 0, [], True)
      = (topic_of ''b'', None, ?s1)"
    by (simp add: run_Cons store_step topic_again failing_saves)
  have "fst (save failing_flash topic_postcard \<lparr>ss_provisioning = topic_of ''b'', ss_network = None\<rparr> ?s0)"
    by (simp add: failing_saves)
  from store_survives_restart [OF failing_flash_ok topic_postcard_ok one two this] two
  show ?thesis by (simp add: topic_again)
qed

section \<open>A manifest that does not fit the record\<close>

definition oversized :: "postcard_settings \<Rightarrow> network_config \<Rightarrow> bool" where
  "oversized P m = (\<forall>p. case pc_to P \<lparr>ss_provisioning = p, ss_network = Some m\<rparr> of
     None \<Rightarrow> True | Some payload \<Rightarrow> max_record_len < length payload)"

lemma oversized_not_saved: "oversized P m \<Longrightarrow> save F P \<lparr>ss_provisioning = p, ss_network = Some m\<rparr> s = (False, s)"
  by (auto simp: oversized_def save_def split: option.splits dest!: spec [of _ p])

lemma topics_not_saved:
  "oversized P m \<Longrightarrow> manifest_store_run F P (map NewTopic topics) (p, Some m, s)
    = (p\<lparr>pv_topic := last (pv_topic p # topics)\<rparr>, Some m, s)"
  by (induction topics arbitrary: p) (simp_all add: run_Cons store_step Let_def oversized_not_saved)

text \<open>(C31) The host accepts manifests up to the frame of 4096 bytes, the record takes 2048: after a
  manifest that does not fit, no topic the user regenerates is stored any more. The task has the
  newest one in memory, and the next start loads the settings from before the manifest.\<close>

theorem oversized_manifest_blocks_saving:
  assumes "flash_ok F" "postcard_settings_ok P" "save F P v s0 = (True, s)" "oversized P m"
  shows "\<exists>p' s'. manifest_store_run F P (NewManifest m # map NewTopic topics) (ss_provisioning v, ss_network v, s) = (p', Some m, s')
    \<and> pv_topic p' = last (pv_topic (ss_provisioning v) # topics) \<and> load_settings F P s' = Some v"
proof -
  have "manifest_store_step F P (NewManifest m) (ss_provisioning v, ss_network v, s) = (ss_provisioning v, Some m, s)"
    by (simp add: store_step Let_def oversized_not_saved [OF assms(4)])
  then have "manifest_store_run F P (NewManifest m # map NewTopic topics) (ss_provisioning v, ss_network v, s)
      = ((ss_provisioning v)\<lparr>pv_topic := last (pv_topic (ss_provisioning v) # topics)\<rparr>, Some m, s)"
    by (simp add: run_Cons topics_not_saved [OF assms(4)])
  then show ?thesis using saved_loads [OF assms(1-3)] by simp
qed

definition big_record :: "u8 list" where
  "big_record = replicate 2049 1"

lemma big_record: "length big_record = 2049" "big_record \<noteq> []" "big_record \<noteq> [7]"
proof -
  show l: "length big_record = 2049" by (simp add: big_record_def)
  have "length big_record \<noteq> length ([] :: u8 list)" unfolding l by simp
  then show "big_record \<noteq> []" by (rule contrapos_nn) simp
  have "length big_record \<noteq> length [7 :: u8]" unfolding l by simp
  then show "big_record \<noteq> [7]" by (rule contrapos_nn) simp
qed

definition big_postcard :: "network_config \<Rightarrow> postcard_settings" where
  "big_postcard m = \<lparr>pc_to = (\<lambda>v. if v = \<lparr>ss_provisioning = topic_of ''a'', ss_network = None\<rparr> then Some [7]
       else if v = \<lparr>ss_provisioning = topic_of ''b'', ss_network = Some m\<rparr> then Some big_record else None),
     pc_from = (\<lambda>p. if p = [7] then Some \<lparr>ss_provisioning = topic_of ''a'', ss_network = None\<rparr>
       else if p = big_record then Some \<lparr>ss_provisioning = topic_of ''b'', ss_network = Some m\<rparr> else None)\<rparr>"

lemma big_postcard_ok: "postcard_settings_ok (big_postcard m)"
  using big_record by (auto simp: postcard_settings_ok_def big_postcard_def split: if_splits)

lemma big_postcard_oversized: "oversized (big_postcard m) m"
  using big_record(1) by (simp add: oversized_def big_postcard_def max_record_len_def)

theorem oversized_manifest_blocks_saving_witness:
  "\<forall>m. \<exists>p' s'. manifest_store_run sample_flash (big_postcard m) (NewManifest m # map NewTopic [''b''])
      (topic_of ''a'', None, 4096, settings_record [7]) = (p', Some m, s')
    \<and> pv_topic p' = ''b'' \<and> load_settings sample_flash (big_postcard m) s' = Some \<lparr>ss_provisioning = topic_of ''a'', ss_network = None\<rparr>"
proof
  fix m
  let ?v = "\<lparr>ss_provisioning = topic_of ''a'', ss_network = None\<rparr>"
  have saved: "save sample_flash (big_postcard m) ?v (0, []) = (True, 4096, settings_record [7])"
    using topic_valid(1) by (simp add: save_def big_postcard_def sample_flash_def sector_def max_record_len_def)
  from oversized_manifest_blocks_saving [OF sample_flash_ok big_postcard_ok saved big_postcard_oversized, of "[''b'']"]
  show "\<exists>p' s'. manifest_store_run sample_flash (big_postcard m) (NewManifest m # map NewTopic [''b''])
      (topic_of ''a'', None, 4096, settings_record [7]) = (p', Some m, s')
    \<and> pv_topic p' = ''b'' \<and> load_settings sample_flash (big_postcard m) s' = Some ?v"
    by simp
qed

end
