(* ===== verification/Screen_Text.thy ===== *)
theory Screen_Text
  imports Stick Dashboard
begin

text \<open>
  The texts and colours of the display (\<open>firmware/src/main.rs\<close>). Texts are built in
  \<open>heapless::String\<close>s of a fixed capacity, whose result the code ignores: a piece that does not
  fit, and the rest of its \<open>write!\<close>, is lost. The string type is a record of its operations.
  Theorem \<open>format_fits\<close> and the lemmas after it show which texts are never cut.
\<close>

section \<open>Bounded strings\<close>

record strings_api =
  hp_push :: "nat \<Rightarrow> str \<Rightarrow> str \<Rightarrow> bool \<times> str" \<comment> \<open>\<open>push_str\<close>: capacity, contents, text\<close>
  hp_collect :: "nat \<Rightarrow> str list \<Rightarrow> str option" \<comment> \<open>\<open>collect\<close> from characters; None is a panic\<close>

text \<open>What is documented of \<open>heapless::String\<close>: a text that fits is appended.\<close>

definition strings_ok :: "strings_api \<Rightarrow> bool" where
  "strings_ok H = ((\<forall>n s v. length s + length v \<le> n \<longrightarrow> hp_push H n s v = (True, s @ v))
     \<and> (\<forall>n cs. length (concat cs) \<le> n \<longrightarrow> hp_collect H n cs = Some (concat cs)))"

text \<open>Strings without a bound, as a reference.\<close>

definition unbounded :: strings_api where
  "unbounded = \<lparr>hp_push = (\<lambda>n s v. (True, s @ v)), hp_collect = (\<lambda>n cs. Some (concat cs))\<rparr>"

text \<open>\<open>write!\<close> passes its pieces on one by one and stops at the first that is refused.\<close>

fun put :: "strings_api \<Rightarrow> nat \<Rightarrow> str \<Rightarrow> str list \<Rightarrow> str" where
  "put H n s [] = s"
| "put H n s (v # vs) = (let (fits, s') = hp_push H n s v in if fits then put H n s' vs else s')"

definition format :: "strings_api \<Rightarrow> nat \<Rightarrow> str list \<Rightarrow> str" where
  "format H n vs = put H n [] vs"

declare put.simps(2) [simp del]

lemma put_fits: "strings_ok H \<Longrightarrow> length s + length (concat vs) \<le> n \<Longrightarrow> put H n s vs = s @ concat vs"
  by (induction vs arbitrary: s) (simp_all add: strings_ok_def put.simps(2))

lemma put_unbounded [simp]: "put unbounded n s vs = s @ concat vs"
  by (induction vs arbitrary: s) (simp_all add: unbounded_def put.simps(2))

lemma format_unbounded [simp]: "format unbounded n vs = concat vs"
  by (simp add: format_def)

lemma format_fits: "strings_ok H \<Longrightarrow> length (concat vs) \<le> n \<Longrightarrow> format H n vs = concat vs"
  by (simp add: format_def put_fits)

lemma strings_ok_unbounded: "strings_ok unbounded"
  by (simp add: strings_ok_def unbounded_def)

section \<open>Numbers\<close>

definition u8s :: "u8 \<Rightarrow> str" where "u8s n = dec (unat n)"
definition u16s :: "u16 \<Rightarrow> str" where "u16s n = dec (unat n)"

text \<open>The pieces of an \<open>i8\<close>, and of a number of at least two digits (\<open>{:02}\<close>).\<close>

definition i8_pieces :: "i8 \<Rightarrow> str list" where
  "i8_pieces n = (if n < 0 then [''-'', dec (nat (- n))] else [dec (nat n)])"

definition two_digits :: "nat \<Rightarrow> str list" where
  "two_digits n = (if n < 10 then [''0'', dec n] else [dec n])"

definition ipv4_pieces :: "u8 list \<Rightarrow> str list" where
  "ipv4_pieces a = [u8s (a ! 0), ''.'', u8s (a ! 1), ''.'', u8s (a ! 2), ''.'', u8s (a ! 3)]"

section \<open>Colours\<close>

datatype colour = RED | GREEN | YELLOW | CYAN | WHITE | BLACK | Rgb565 nat nat nat

definition smart_color :: "smart_status \<Rightarrow> colour" where
  "smart_color s = (case s of SmartHealthy \<Rightarrow> GREEN | Sleeping \<Rightarrow> CYAN | SmartWarning \<Rightarrow> YELLOW | SmartUnknown \<Rightarrow> YELLOW
     | SmartFailed \<Rightarrow> RED)"

definition ups_color :: "health_snapshot \<Rightarrow> colour" where
  "ups_color s = (case ups_status (hs_ups s) of
     Online \<Rightarrow> GREEN | Charging \<Rightarrow> GREEN
   | NotConfigured \<Rightarrow> WHITE
   | OnBattery \<Rightarrow> YELLOW | Bypass \<Rightarrow> YELLOW | UpsUnknown \<Rightarrow> YELLOW | Unavailable \<Rightarrow> YELLOW
   | LowBattery \<Rightarrow> RED | OutputOff \<Rightarrow> RED | ReplaceBattery \<Rightarrow> RED)"

definition storage_color :: "filesystem_usage \<Rightarrow> colour" where
  "storage_color u = (if \<not> fs_mounted u \<or> fs_used_percent u > 90 then RED else GREEN)"

definition health_status_color :: "health_level \<Rightarrow> colour" where
  "health_status_color l = (case l of Healthy \<Rightarrow> GREEN | Warning \<Rightarrow> YELLOW | Critical \<Rightarrow> RED)"

definition usage_color :: "u8 \<Rightarrow> colour" where
  "usage_color pct = (if pct \<ge> 95 then RED else if pct \<ge> 85 then YELLOW else GREEN)"

definition memory_percent :: "health_snapshot \<Rightarrow> u8" where
  "memory_percent s = (if hs_mem_total s = 0 then 0
     else unwrap_or 100 (try_word (min (unat (hs_mem_used s) * 100) (2 ^ 64 - 1) div unat (hs_mem_total s))))"

definition resource_status_color :: "health_snapshot \<Rightarrow> colour" where
  "resource_status_color s = usage_color (max (hs_cpu s) (memory_percent s))"

definition network_color :: "health_snapshot \<Rightarrow> colour" where
  "network_color s = (if \<not> hs_network_up s \<or> hs_internet s = NetFailed then RED
     else if hs_internet s = Missed then YELLOW else GREEN)"

section \<open>Texts\<close>

definition health_level_label :: "health_level \<Rightarrow> str" where
  "health_level_label l = (case l of Healthy \<Rightarrow> ''HEALTHY'' | Warning \<Rightarrow> ''WARNING'' | Critical \<Rightarrow> ''CRITICAL'')"

definition format_smart_detail :: "strings_api \<Rightarrow> smart_device \<Rightarrow> str" where
  "format_smart_detail H d = (let text = put H 12 [] [case sd_status d of
         SmartHealthy \<Rightarrow> ''OK'' | SmartWarning \<Rightarrow> ''WARN'' | SmartFailed \<Rightarrow> ''FAIL'' | Sleeping \<Rightarrow> ''SLEEP''
       | SmartUnknown \<Rightarrow> ''UNK''] in
     case sd_temperature d of
       Some temperature \<Rightarrow> put H 12 text ('' '' # i8_pieces temperature @ [''C''])
     | None \<Rightarrow> if sd_status d = Sleeping then put H 12 text ['' --''] else text)"

definition ups_status_text :: "health_snapshot \<Rightarrow> str" where
  "ups_status_text s = (if ups_stale (hs_ups s) \<and> ups_status (hs_ups s) \<noteq> Unavailable then ''STALE''
     else case ups_status (hs_ups s) of
       NotConfigured \<Rightarrow> ''NO UPS''
     | UpsUnknown \<Rightarrow> ''NO DATA'' | Unavailable \<Rightarrow> ''NO DATA''
     | Online \<Rightarrow> ''ONLINE''
     | OnBattery \<Rightarrow> ''ON BATTERY''
     | LowBattery \<Rightarrow> ''LOW BATTERY''
     | Charging \<Rightarrow> ''CHARGING''
     | Bypass \<Rightarrow> ''BYPASS''
     | OutputOff \<Rightarrow> ''OUTPUT OFF''
     | ReplaceBattery \<Rightarrow> ''REPLACE BAT'')"

definition format_ups_battery :: "strings_api \<Rightarrow> health_snapshot \<Rightarrow> str" where
  "format_ups_battery H s = (case ups_battery (hs_ups s) of
     Some pct \<Rightarrow> format H 16 [''BAT       '', u8s pct, ''%'']
   | None \<Rightarrow> format H 16 [''BAT        --''])"

definition format_ups_load :: "strings_api \<Rightarrow> health_snapshot \<Rightarrow> str" where
  "format_ups_load H s = (case (ups_load (hs_ups s), ups_watts (hs_ups s)) of
     (Some load_pct, Some watts) \<Rightarrow> format H 20 [''LOAD '', u8s load_pct, ''% ~'', u16s watts, ''W'']
   | (Some load_pct, None) \<Rightarrow> format H 20 [''LOAD      '', u8s load_pct, ''%'']
   | (None, _) \<Rightarrow> format H 20 [''LOAD       --''])"

definition format_ups_runtime :: "strings_api \<Rightarrow> health_snapshot \<Rightarrow> str" where
  "format_ups_runtime H s = (case ups_runtime (hs_ups s) of
     Some runtime \<Rightarrow> (let n = unat runtime in
       if n \<ge> 3600 then format H 20 [''RUNTIME '', dec (n div 3600), ''h'', dec (n mod 3600 div 60), ''m'']
       else format H 20 [''RUNTIME    '', dec (n div 60), ''m''])
   | None \<Rightarrow> format H 20 [''RUNTIME    --''])"

definition format_available_storage :: "strings_api \<Rightarrow> u32 \<Rightarrow> str" where
  "format_available_storage H available_mib = (let m = unat available_mib in
     if m \<ge> 1048576 then
       (let tenths = min (m * 10) (2 ^ 64 - 1) div 1048576
        in format H 8 [dec (tenths div 10), ''.'', dec (tenths mod 10), ''T''])
     else if m \<ge> 1024 then format H 8 [dec ((m + 512) div 1024), ''G'']
     else format H 8 [dec m, ''M''])"

definition write_backup_age :: "strings_api \<Rightarrow> str \<Rightarrow> u32 option \<Rightarrow> str \<Rightarrow> str" where
  "write_backup_age H text age suffix = (let n = (case age of None \<Rightarrow> 0 | Some a \<Rightarrow> unat a) in
     if n \<ge> 2 * 86400 then put H 24 text [dec (n div 86400), ''d'', suffix]
     else if n \<ge> 3600 then put H 24 text [dec (n div 3600), ''h'', suffix]
     else put H 24 text [dec (n div 60), ''m'', suffix])"

definition format_backup_job :: "strings_api \<Rightarrow> health_snapshot \<Rightarrow> str \<times> colour" where
  "format_backup_job H s = (case hs_backup s of
     BackupHealthy \<Rightarrow> (write_backup_age H (format H 24 [''BACKUP OK '']) (hs_backup_age s) '' AGO'', GREEN)
   | BackupRunning \<Rightarrow> (format H 24 [''BACKUP RUNNING''],
       if is_none_or (\<lambda>age. age > 24 * 60 * 60) (hs_backup_age s) then YELLOW else CYAN)
   | BackupFailed \<Rightarrow> (format H 24 [''BACKUP FAILED''], YELLOW)
   | BackupStale \<Rightarrow> (let text = format H 24 [''BACKUP ''] in
       (if hs_backup_age s \<noteq> None then write_backup_age H text (hs_backup_age s) '' OLD''
        else put H 24 text [''OVERDUE''], YELLOW))
   | NoJob \<Rightarrow> (format H 24 [''BACKUP NO JOB''], YELLOW)
   | BackupUnknown \<Rightarrow> (format H 24 [''BACKUP UNKNOWN''], RED))"

definition guest_counts :: "health_snapshot \<Rightarrow> nat \<times> nat" where
  "guest_counts s = (length (filter (\<lambda>g. g_status g = GuestRunning) (hs_guests s)), length (hs_guests s))"

definition format_host_metrics :: "strings_api \<Rightarrow> health_snapshot \<Rightarrow> str" where
  "format_host_metrics H s = format H 48 [''CPU '', u8s (hs_cpu s), ''% MEM '', u8s (memory_percent s), ''%'']"

definition format_link :: "strings_api \<Rightarrow> health_snapshot \<Rightarrow> str" where
  "format_link H s = (let mbps = unat (hs_network_mbps s) in
     if \<not> hs_network_up s then format H 24 [''DOWN'']
     else if mbps \<ge> 1000 then
       (let gigabits = mbps div 1000; remainder = mbps mod 1000 in
        if remainder = 0 then format H 24 [dec gigabits, ''G UP'']
        else format H 24 [dec gigabits, ''.'', dec (remainder div 100), ''G UP''])
     else if mbps > 0 then format H 24 [dec mbps, ''M UP'']
     else format H 24 [''UP''])"

definition network_has_error :: "health_snapshot \<Rightarrow> bool" where
  "network_has_error s = (\<not> hs_network_up s \<or> hs_internet s = Missed \<or> hs_internet s = NetFailed)"

definition internet_status_text :: "internet_status \<Rightarrow> str" where
  "internet_status_text i = (case i of Checking \<Rightarrow> ''CHECKING'' | Reachable \<Rightarrow> ''ONLINE'' | Missed \<Rightarrow> ''PING MISSED''
     | NetFailed \<Rightarrow> ''PING FAILED'')"

definition network_status_text :: "health_snapshot \<Rightarrow> str" where
  "network_status_text s = (if \<not> hs_network_up s then ''LINK DOWN'' else internet_status_text (hs_internet s))"

definition format_ipv4 :: "strings_api \<Rightarrow> u8 list \<Rightarrow> str" where
  "format_ipv4 H a = (if a = [0, 0, 0, 0] then format H 16 [''NO ADDRESS''] else format H 16 (ipv4_pieces a))"

definition format_network_summary :: "strings_api \<Rightarrow> health_snapshot \<Rightarrow> str" where
  "format_network_summary H s = (if \<not> hs_network_up s then format H 16 [''LINK DOWN'']
     else if hs_internet s = Reachable then format_ipv4 H (hs_ipv4 s)
     else format H 16 [internet_status_text (hs_internet s)])"

definition format_last_internet_success :: "strings_api \<Rightarrow> u32 option \<Rightarrow> str" where
  "format_last_internet_success H age = (case age of
     None \<Rightarrow> format H 20 [''LAST OK NEVER'']
   | Some a \<Rightarrow> (let n = unat a in
       if n < 60 then format H 20 [''LAST OK '', dec n, ''s AGO'']
       else if n < 3600 then format H 20 [''LAST OK '', dec (n div 60), ''m AGO'']
       else if n < 86400 then format H 20 [''LAST OK '', dec (n div 3600), ''h'', dec (n mod 3600 div 60), ''m AGO'']
       else format H 20 [''LAST OK '', dec (n div 86400), ''d AGO'']))"

definition short_name :: "strings_api \<Rightarrow> str \<Rightarrow> str option" where
  "short_name H name = hp_collect H 17 (take 16 (utf8_chars name))"

definition short_host_name :: "strings_api \<Rightarrow> str \<Rightarrow> str option" where
  "short_host_name H name = hp_collect H 11 (take 10 (utf8_chars name))"

definition short_version :: "str \<Rightarrow> str" where
  "short_version version = takeWhile (\<lambda>c. c \<noteq> CHR ''+'') version"

section \<open>Which texts fit\<close>

named_theorems exact_text \<comment> \<open>texts that are the same in a bounded and in an unbounded string\<close>

lemma unat_u8_bound: "unat (n :: u8) < 256"
  using unsigned_less [of n] by simp

lemma unat_u16_bound: "unat (n :: u16) < 65536"
  using unsigned_less [of n] by simp

lemma unat_u32_bound: "unat (n :: u32) < 4294967296"
  using unsigned_less [of n] by simp

lemma unat_u64_bound: "unat (n :: u64) < 18446744073709551616"
  using unsigned_less [of n] by simp

text \<open>The digits of a number below a power of ten.\<close>

lemma dec_1: "n < 10 \<Longrightarrow> length (dec n) \<le> 1"
  using length_dec [of 1 n] by simp

lemma dec_2: "n < 100 \<Longrightarrow> length (dec n) \<le> 2"
  using length_dec [of 2 n] by simp

lemma dec_3: "n < 1000 \<Longrightarrow> length (dec n) \<le> 3"
  using length_dec [of 3 n] by simp

lemma dec_4: "n < 10000 \<Longrightarrow> length (dec n) \<le> 4"
  using length_dec [of 4 n] by simp

lemma dec_5: "n < 100000 \<Longrightarrow> length (dec n) \<le> 5"
  using length_dec [of 5 n] by simp

lemma dec_7: "n < 10000000 \<Longrightarrow> length (dec n) \<le> 7"
  using length_dec [of 7 n] by simp

lemma u8_fits: "length (u8s n) \<le> 3"
  unfolding u8s_def by (rule dec_3) (rule less_trans [OF unat_u8_bound], simp)

lemma u16_fits: "length (u16s n) \<le> 5"
  unfolding u16s_def by (rule dec_5) (rule less_trans [OF unat_u16_bound], simp)

lemma i8_pieces_fit:
  assumes "-128 \<le> n" "n < 128" shows "length (concat (i8_pieces n)) \<le> 4"
proof -
  have "length (dec (nat n)) \<le> 3" "length (dec (nat (- n))) \<le> 3" using assms by (auto intro!: dec_3)
  then show ?thesis by (simp add: i8_pieces_def)
qed

lemma two_digits_fit: "n < 100 \<Longrightarrow> length (concat (two_digits n)) \<le> 2"
  using dec_2 [of n] dec_1 [of n] by (simp add: two_digits_def)

lemma format_exact: "strings_ok H \<Longrightarrow> length (concat vs) \<le> n \<Longrightarrow> format H n vs = format unbounded n vs"
  by (simp add: format_fits)

lemma put_exact: "strings_ok H \<Longrightarrow> length s + length (concat vs) \<le> n \<Longrightarrow> put H n s vs = put unbounded n s vs"
  by (simp add: put_fits)

lemma ipv4_pieces_fit: "length (concat (ipv4_pieces a)) \<le> 15"
  using u8_fits [of "a ! 0"] u8_fits [of "a ! 1"] u8_fits [of "a ! 2"] u8_fits [of "a ! 3"] by (simp add: ipv4_pieces_def)

definition smart_word :: "smart_status \<Rightarrow> str" where
  "smart_word status = (case status of
     SmartHealthy \<Rightarrow> ''OK'' | SmartWarning \<Rightarrow> ''WARN'' | SmartFailed \<Rightarrow> ''FAIL'' | Sleeping \<Rightarrow> ''SLEEP'' | SmartUnknown \<Rightarrow> ''UNK'')"

lemma smart_detail_exact:
  assumes "strings_ok H" "\<And>t. sd_temperature d = Some t \<Longrightarrow> -128 \<le> t \<and> t < 128"
  shows "format_smart_detail H d = format_smart_detail unbounded d"
proof -
  define w where "w = smart_word (sd_status d)"
  have v: "length w \<le> 5" unfolding w_def by (cases "sd_status d") (simp_all add: smart_word_def)
  have "put H 12 [] [w] = w" using v put_fits [OF assms(1), of "[]" "[w]" 12] by simp
  moreover have "put H 12 w ('' '' # i8_pieces t @ [''C'']) = w @ concat ('' '' # i8_pieces t @ [''C''])"
    if "sd_temperature d = Some t" for t
    using v i8_pieces_fit [of t] assms(2) [OF that] by (intro put_fits [OF assms(1)]) simp
  moreover have "put H 12 w ['' --''] = w @ '' --''" using v put_fits [OF assms(1), of w "['' --'']" 12] by simp
  ultimately show ?thesis unfolding format_smart_detail_def smart_word_def [symmetric] w_def [symmetric] Let_def
    by (cases "sd_temperature d") simp_all
qed

lemma ups_battery_exact [exact_text]: "strings_ok H \<Longrightarrow> format_ups_battery H s = format_ups_battery unbounded s"
  unfolding format_ups_battery_def
  by (auto split: option.split intro!: format_exact simp del: format_unbounded simp: order_trans [OF u8_fits])

lemma ups_load_exact [exact_text]:
  assumes "strings_ok H" shows "format_ups_load H s = format_ups_load unbounded s"
proof -
  have "length (u8s a) + length (u16s b) \<le> 11" for a b using u8_fits [of a] u16_fits [of b] by simp
  then show ?thesis unfolding format_ups_load_def
    by (auto split: option.split intro!: format_exact assms simp del: format_unbounded simp: order_trans [OF u8_fits])
qed

lemma ups_runtime_exact [exact_text]:
  assumes "strings_ok H" shows "format_ups_runtime H s = format_ups_runtime unbounded s"
proof -
  have "length (dec (unat n div 3600)) + length (dec (unat n mod 3600 div 60)) \<le> 10" for n :: u32
  proof -
    have "length (dec (unat n div 3600)) \<le> 7" by (rule dec_7; use unat_u32_bound [of n] in linarith)
    moreover have "length (dec (unat n mod 3600 div 60)) \<le> 2" by (rule dec_2; linarith)
    ultimately show ?thesis by simp
  qed
  moreover have "length (dec (unat n div 60)) \<le> 8" if "unat n < 3600" for n :: u32
    by (rule order_trans [OF dec_2]; use that in linarith)
  ultimately show ?thesis unfolding format_ups_runtime_def Let_def
    by (auto split: option.split intro!: format_exact assms simp del: format_unbounded simp: not_le intro: order_trans)
qed

lemma available_storage_exact [exact_text]:
  assumes "strings_ok H" shows "format_available_storage H n = format_available_storage unbounded n"
proof -
  define t where "t = min (unat n * 10) (2 ^ 64 - 1) div 1048576"
  have "t \<le> unat n * 10 div 1048576" unfolding t_def by (intro div_le_mono) simp
  then have "t < 40960" using unat_u32_bound [of n] by linarith
  then have "length (dec (t div 10)) \<le> 4" by (auto intro!: dec_4)
  moreover have "length (dec (t mod 10)) \<le> 1" by (rule dec_1) simp
  moreover have "length (dec ((unat n + 512) div 1024)) \<le> 4" if "unat n < 1048576"
    by (rule dec_4; use that in linarith)
  moreover have "length (dec (unat n)) \<le> 4" if "unat n < 1024" by (rule dec_4; use that in linarith)
  ultimately show ?thesis unfolding format_available_storage_def Let_def t_def [symmetric]
    by (auto intro!: format_exact assms simp del: format_unbounded simp: not_le)
qed

lemma backup_age_fits:
  assumes "strings_ok H" "length text \<le> 10" "length suffix = 4"
  shows "write_backup_age H text age suffix = write_backup_age unbounded text age suffix"
proof -
  define n where "n = (case age of None \<Rightarrow> 0 | Some a \<Rightarrow> unat a)"
  have n: "n < 4294967296" using unat_u32_bound by (auto simp: n_def split: option.split)
  have "length (dec (n div 86400)) \<le> 5" by (rule dec_5; use n in linarith)
  moreover have "length (dec (n div 3600)) \<le> 2" if "n < 172800" by (rule dec_2; use that in linarith)
  moreover have "length (dec (n div 60)) \<le> 2" if "n < 3600" by (rule dec_2; use that in linarith)
  ultimately show ?thesis unfolding write_backup_age_def Let_def n_def [symmetric] using assms(2,3)
    by (auto intro!: put_exact assms(1) simp del: put_unbounded simp: not_le)
qed

lemma backup_job_exact [exact_text]:
  assumes "strings_ok H" shows "format_backup_job H s = format_backup_job unbounded s"
proof -
  have f: "format H 24 [v] = v" if "length v \<le> 24" for v using format_fits [OF assms, of "[v]" 24] that by simp
  have p: "put H 24 ''BACKUP '' [''OVERDUE''] = ''BACKUP OVERDUE''" using put_fits [OF assms, of "''BACKUP ''" "[''OVERDUE'']" 24] by simp
  show ?thesis
    using backup_age_fits [OF assms, of "''BACKUP OK ''" "'' AGO''" "hs_backup_age s"]
      backup_age_fits [OF assms, of "''BACKUP ''" "'' OLD''" "hs_backup_age s"]
    by (cases "hs_backup s") (auto simp: format_backup_job_def f p Let_def)
qed

lemma host_metrics_exact [exact_text]:
  assumes "strings_ok H" shows "format_host_metrics H s = format_host_metrics unbounded s"
  unfolding format_host_metrics_def using u8_fits [of "hs_cpu s"] u8_fits [of "memory_percent s"]
  by (intro format_exact assms) simp

lemma link_exact [exact_text]:
  assumes "strings_ok H" shows "format_link H s = format_link unbounded s"
proof -
  define m where "m = unat (hs_network_mbps s)"
  have m: "m < 65536" unfolding m_def by (rule unat_u16_bound)
  have "length (dec m) \<le> 5" by (rule dec_5; use m in linarith)
  moreover have "length (dec (m div 1000)) \<le> 2" by (rule dec_2; use m in linarith)
  moreover have "length (dec (m mod 1000 div 100)) \<le> 1" by (rule dec_1; linarith)
  ultimately show ?thesis unfolding format_link_def Let_def m_def [symmetric]
    by (auto intro!: format_exact assms simp del: format_unbounded)
qed

lemma ipv4_exact [exact_text]: "strings_ok H \<Longrightarrow> format_ipv4 H a = format_ipv4 unbounded a"
  unfolding format_ipv4_def using ipv4_pieces_fit [of a]
  by (auto intro!: format_exact simp del: format_unbounded)

lemma network_summary_exact [exact_text]:
  assumes "strings_ok H" shows "format_network_summary H s = format_network_summary unbounded s"
proof -
  have "length (internet_status_text i) \<le> 16" for i by (cases i) (simp_all add: internet_status_text_def)
  then show ?thesis unfolding format_network_summary_def
    by (auto intro!: format_exact ipv4_exact assms simp del: format_unbounded)
qed

lemma last_success_exact [exact_text]:
  assumes "strings_ok H" shows "format_last_internet_success H age = format_last_internet_success unbounded age"
proof (cases age)
  case None
  then show ?thesis by (simp add: format_last_internet_success_def format_fits [OF assms])
next
  case (Some a)
  define n where "n = unat a"
  have n: "n < 4294967296" unfolding n_def by (rule unat_u32_bound)
  have "length (dec (n div 86400)) \<le> 5" by (rule dec_5; use n in linarith)
  moreover have "length (dec (n mod 3600 div 60)) \<le> 2" by (rule dec_2; linarith)
  moreover have "length (dec (n div 3600)) \<le> 2" if "n < 86400" by (rule dec_2; use that in linarith)
  moreover have "length (dec (n div 60)) \<le> 2" if "n < 3600" by (rule dec_2; use that in linarith)
  moreover have "length (dec n) \<le> 2" if "n < 60" by (rule dec_2; use that in linarith)
  ultimately show ?thesis unfolding format_last_internet_success_def Some option.case Let_def n_def [symmetric]
    by (auto intro!: format_exact assms simp del: format_unbounded)
qed

text \<open>The names fit when their first characters are ASCII, and more generally when they are short.\<close>

lemma short_name_exact:
  "strings_ok H \<Longrightarrow> length (concat (take 16 (utf8_chars name))) \<le> 17 \<Longrightarrow> short_name H name = short_name unbounded name"
  by (simp add: short_name_def strings_ok_def unbounded_def)

lemma short_host_name_exact:
  "strings_ok H \<Longrightarrow> length (concat (take 10 (utf8_chars name))) \<le> 11 \<Longrightarrow> short_host_name H name = short_host_name unbounded name"
  by (simp add: short_host_name_def strings_ok_def unbounded_def)

end
