(* ===== verification/Screen.thy ===== *)
theory Screen
  imports Screen_Text Views
begin

text \<open>
  What the firmware draws (\<open>firmware/src/main.rs\<close>): a drawing function is the list of the
  primitives it hands to the graphics library, in order, and a panic of it is \<open>None\<close>. How the library
  turns a primitive into pixels, the fonts, and the QR encoder are not modelled. Coordinates are
  integers: with manifests of at most 4096 bytes every computed one fits the source's \<open>i32\<close>.
\<close>

section \<open>Primitives\<close>

type_synonym point = "int \<times> int"

datatype font = FONT_6X10 | FONT_10X20

datatype prim =
    Clear colour
  | Txt str point font colour
  | Fill point nat nat colour \<comment> \<open>top left, width, height\<close>
  | Frame point nat nat colour nat \<comment> \<open>and the stroke width\<close>
  | Ln point point colour nat
  | Arc point nat int int colour nat \<comment> \<open>top left, diameter, start and sweep in degrees\<close>
  | Present \<comment> \<open>the frame buffer goes to the display\<close>

fun shift :: "point \<Rightarrow> int \<Rightarrow> int \<Rightarrow> point" where
  "shift (x, y) dx dy = (x + dx, y + dy)"

text \<open>\<open>i32::try_from(n).unwrap_or(0)\<close>.\<close>

definition i32_of :: "nat \<Rightarrow> int" where
  "i32_of n = (if n < 2 ^ 31 then int n else 0)"

definition heading_cyan :: colour where "heading_cyan = Rgb565 0 48 31"
definition muted :: colour where "muted = Rgb565 12 28 20"

type_synonym drawing = "prim list option"

fun in_turn :: "drawing list \<Rightarrow> drawing" where
  "in_turn [] = Some []"
| "in_turn (d # ds) = (case d of None \<Rightarrow> None | Some ps \<Rightarrow> map_option ((@) ps) (in_turn ds))"

section \<open>The shutdown gesture and the frame buffer\<close>

definition draw_shutdown_symbol :: "prim list" where
  "draw_shutdown_symbol = [Arc (99, 46) 41 (-45) 270 WHITE 4, Ln (119, 40) (119, 66) WHITE 4]"

definition draw_shutdown_progress :: "u16 \<Rightarrow> u16 \<Rightarrow> bool \<Rightarrow> prim list" where
  "draw_shutdown_progress previous_height height clear =
     (if clear then [Clear BLACK] else [])
     @ (if height > previous_height
        then [Fill (0, int (unat (display_height - height))) 240 (unat (height - previous_height)) RED] else [])
     @ draw_shutdown_symbol"

section \<open>Icons and cards\<close>

datatype ui_icon = Cpu | Memory | Disk | Ups | NetworkIcon | GuestsIcon | Qemu | ContainerIcon | Io | Load

definition icon_frame :: "point \<Rightarrow> colour \<Rightarrow> int \<Rightarrow> int \<Rightarrow> nat \<Rightarrow> nat \<Rightarrow> prim" where
  "icon_frame origin c x y w h = Frame (shift origin x y) w h c 1"

definition icon_fill :: "point \<Rightarrow> colour \<Rightarrow> int \<Rightarrow> int \<Rightarrow> nat \<Rightarrow> nat \<Rightarrow> prim" where
  "icon_fill origin c x y w h = Fill (shift origin x y) w h c"

definition icon_line :: "point \<Rightarrow> colour \<Rightarrow> int \<Rightarrow> int \<Rightarrow> int \<Rightarrow> int \<Rightarrow> prim" where
  "icon_line origin c x y x' y' = Ln (shift origin x y) (shift origin x' y') c 1"

text \<open>The longer icons, then all of them.\<close>

definition icon_cpu :: "point \<Rightarrow> colour \<Rightarrow> prim list" where
  "icon_cpu origin c = (let line = icon_line origin c in
     [icon_frame origin c 3 3 9 9, icon_fill origin c 6 6 3 3]
     @ concat (map (\<lambda>off. [line off 1 off 3, line off 12 off 14, line 1 off 3 off, line 12 off 14 off]) [4, 7, 10]))"

definition icon_network :: "point \<Rightarrow> colour \<Rightarrow> prim list" where
  "icon_network origin c = (let line = icon_line origin c; fill = icon_fill origin c in
     [icon_frame origin c 5 5 6 5, line 8 5 8 2, line 5 8 2 8, line 11 8 14 8, line 8 10 8 13,
      fill 6 0 4 3, fill 0 6 4 3, fill 13 6 4 3, fill 6 13 4 3])"

definition icon_container :: "point \<Rightarrow> colour \<Rightarrow> prim list" where
  "icon_container origin c = (let line = icon_line origin c in
     [icon_frame origin c 1 2 14 12, line 1 6 14 6, line 5 2 5 14, line 10 2 10 14])"

definition icon_io :: "point \<Rightarrow> colour \<Rightarrow> prim list" where
  "icon_io origin c = (let line = icon_line origin c in
     [line 4 13 4 2, line 4 2 1 5, line 4 2 7 5, line 11 2 11 13, line 11 13 8 10, line 11 13 14 10])"

definition icon_load :: "point \<Rightarrow> colour \<Rightarrow> prim list" where
  "icon_load origin c = (let line = icon_line origin c in
     [line 1 1 1 14, line 1 14 15 14, line 2 11 6 7, line 6 7 9 9, line 9 9 14 3])"

definition draw_icon :: "ui_icon \<Rightarrow> point \<Rightarrow> colour \<Rightarrow> prim list" where
  "draw_icon icon origin c = (let
       frame = icon_frame origin c; fill = icon_fill origin c; line = icon_line origin c
     in case icon of
       Cpu \<Rightarrow> icon_cpu origin c
     | Memory \<Rightarrow> [frame 1 3 14 9] @ map (\<lambda>x. fill x 5 3 4) [3, 7, 11] @ map (\<lambda>x. line x 12 x 14) [3, 6, 9, 12]
     | Disk \<Rightarrow> [frame 2 1 12 14] @ map (\<lambda>y. line 2 y 13 y) [5, 10] @ [fill 10 12 2 2]
     | Ups \<Rightarrow> [frame 2 3 12 11, fill 6 1 4 2, fill 5 6 6 5]
     | NetworkIcon \<Rightarrow> icon_network origin c
     | GuestsIcon \<Rightarrow> [frame 1 1 14 10, line 5 13 11 13, line 8 11 8 13]
     | Qemu \<Rightarrow> [frame 1 1 14 10, fill 4 4 2 2, fill 8 4 2 2, line 5 13 11 13, line 8 11 8 13]
     | ContainerIcon \<Rightarrow> icon_container origin c
     | Io \<Rightarrow> icon_io origin c
     | Load \<Rightarrow> icon_load origin c)"

lemmas icon_defs = draw_icon_def icon_cpu_def icon_network_def icon_container_def icon_io_def icon_load_def
  icon_frame_def icon_fill_def icon_line_def

definition draw_card :: "point \<Rightarrow> nat \<Rightarrow> nat \<Rightarrow> prim list" where
  "draw_card origin w h = [Frame origin w h (Rgb565 12 25 24) 1]"

definition draw_value_card :: "point \<Rightarrow> ui_icon \<Rightarrow> str \<Rightarrow> str \<Rightarrow> prim list" where
  "draw_value_card origin icon label v = draw_card origin 114 50
     @ draw_icon icon (shift origin 7 5) heading_cyan
     @ [Txt label (shift origin 27 15) FONT_6X10 heading_cyan, Txt v (shift origin 49 39) FONT_10X20 GREEN]"

definition draw_metric_card :: "strings_api \<Rightarrow> point \<Rightarrow> ui_icon \<Rightarrow> str \<Rightarrow> u8 \<Rightarrow> str \<Rightarrow> prim list" where
  "draw_metric_card H origin icon label v suffix =
     draw_value_card origin icon label (format H 12 [u8s v, suffix])"

definition draw_summary_item :: "point \<Rightarrow> ui_icon \<Rightarrow> str \<Rightarrow> str \<Rightarrow> str option \<Rightarrow> colour \<Rightarrow> prim list" where
  "draw_summary_item origin icon label v detail c = draw_icon icon origin heading_cyan
     @ [Txt label (shift origin 20 9) FONT_6X10 heading_cyan, Txt v (shift origin 56 9) FONT_6X10 c]
     @ (case detail of None \<Rightarrow> [] | Some d \<Rightarrow> [Txt d (shift origin 20 21) FONT_6X10 WHITE])"

definition draw_stacked_summary_item :: "point \<Rightarrow> ui_icon \<Rightarrow> str \<Rightarrow> str \<Rightarrow> colour \<Rightarrow> prim list" where
  "draw_stacked_summary_item origin icon label v c = draw_icon icon origin heading_cyan
     @ [Txt label (shift origin 20 9) FONT_6X10 heading_cyan, Txt v (shift origin 20 21) FONT_6X10 c]"

definition draw_page_dots :: "nat \<Rightarrow> nat \<Rightarrow> prim list" where
  "draw_page_dots page page_count = map (\<lambda>index.
     Fill (48 + i32_of index * 10, 129) 5 3 (if index = min page 14 then GREEN else Rgb565 14 22 20))
     [0..<min page_count 15]"

definition draw_message :: "str \<Rightarrow> str \<Rightarrow> colour \<Rightarrow> prim list" where
  "draw_message title detail c = [Txt title (20, 55) FONT_10X20 c, Txt detail (22, 79) FONT_6X10 WHITE]"

section \<open>Pages\<close>

definition draw_header :: "strings_api \<Rightarrow> health_snapshot \<Rightarrow> str \<Rightarrow> nat \<Rightarrow> nat \<Rightarrow> drawing" where
  "draw_header H s title page page_count = (case short_host_name H (hs_host_name s) of
     None \<Rightarrow> None
   | Some name \<Rightarrow> Some [Txt name (4, 13) FONT_6X10 WHITE, Txt title (88, 13) FONT_6X10 heading_cyan,
       Txt (format H 16 [dec (page + 1), ''/'', dec page_count]) (216, 13) FONT_6X10 WHITE])"

definition draw_overview :: "strings_api \<Rightarrow> health_snapshot \<Rightarrow> nat \<Rightarrow> str \<Rightarrow> nat \<Rightarrow> drawing" where
  "draw_overview H s page title page_count = (let
       status = hs_health s;
       status_color = health_status_color (hr_level status);
       days = unat (hs_uptime s) div 86400;
       hours = unat (hs_uptime s) mod 86400 div 3600;
       (running, total') = guest_counts s
     in in_turn [draw_header H s title page page_count, Some (
       draw_card (4, 19) 95 103
       @ [Txt (health_level_label (hr_level status)) (12, 46) FONT_10X20 status_color,
          Txt (format H 24 [''UP '', dec days, ''d '', dec hours, ''h'']) (14, 70) FONT_6X10 WHITE]
       @ (if hr_level status \<noteq> Healthy then
            [Txt ''CAUSE'' (12, 91) FONT_6X10 heading_cyan,
             Txt (format H 16 [hr_message status]) (12, 108) FONT_6X10 status_color] else [])
       @ draw_card (104, 19) 132 31
       @ draw_stacked_summary_item (109, 23) Cpu ''HOST'' (format_host_metrics H s) (resource_status_color s)
       @ draw_card (104, 55) 132 30
       @ draw_summary_item (109, 58) NetworkIcon ''NET'' (format_link H s) (Some (format_network_summary H s)) (network_color s)
       @ draw_card (104, 90) 132 32
       @ draw_stacked_summary_item (109, 94) GuestsIcon ''GUESTS''
           (format H 24 [dec running, ''/'', dec total', '' RUN'']) GREEN)])"

definition draw_resources :: "strings_api \<Rightarrow> health_snapshot \<Rightarrow> nat \<Rightarrow> str \<Rightarrow> nat \<Rightarrow> drawing" where
  "draw_resources H s page title page_count = (let
       load_text = format H 16 ([dec (unat (hs_load_x100 s) div 100), ''.''] @ two_digits (unat (hs_load_x100 s) mod 100));
       memory_detail = format H 24 [dec (unat (hs_mem_used s) div 1024), ''/'', dec (unat (hs_mem_total s) div 1024), ''G'']
     in in_turn [draw_header H s title page page_count, Some (
       draw_metric_card H (4, 19) Cpu ''CPU'' (hs_cpu s) ''%''
       @ draw_metric_card H (122, 19) Memory ''MEM'' (memory_percent s) ''%''
       @ [Txt memory_detail (230 - i32_of (length memory_detail) * 6, 34) FONT_6X10 WHITE]
       @ draw_metric_card H (4, 72) Io ''IO PRESS'' (hs_io_pressure s) ''%''
       @ draw_value_card (122, 72) Load ''LOAD'' load_text)])"

definition draw_storage_bar :: "point \<Rightarrow> nat \<Rightarrow> u8 \<Rightarrow> colour \<Rightarrow> prim list" where
  "draw_storage_bar origin width pct c = Frame origin width 6 (Rgb565 12 25 24) 1
     # (let filled = (width - 2) * unat pct div 100 in if filled > 0 then [Fill (shift origin 1 1) filled 4 c] else [])"

definition draw_storage_row :: "strings_api \<Rightarrow> int \<Rightarrow> int \<Rightarrow> str \<Rightarrow> filesystem_usage \<Rightarrow> prim list" where
  "draw_storage_row H card_x baseline label u = (let c = storage_color u in
     Txt label (card_x + 6, baseline) FONT_6X10 c
     # (if \<not> fs_mounted u then [Txt ''MISSING'' (card_x + 66, baseline) FONT_6X10 RED]
        else let available = format_available_storage H (fs_available_mib u) in
          draw_storage_bar (card_x + 46, baseline - 6) 32 (fs_used_percent u) c
          @ [Txt available (card_x + 108 - i32_of (length available) * 6, baseline) FONT_6X10 c]))"

definition draw_smart_row :: "strings_api \<Rightarrow> int \<Rightarrow> int \<Rightarrow> smart_device \<Rightarrow> prim list" where
  "draw_smart_row H card_x baseline d = (let c = smart_color (sd_status d); detail = format_smart_detail H d in
     [Txt (sd_label d) (card_x + 6, baseline) FONT_6X10 c,
      Txt detail (card_x + 108 - i32_of (length detail) * 6, baseline) FONT_6X10 c])"

definition lookup :: "'a list \<Rightarrow> u32 \<Rightarrow> 'a option" where
  "lookup xs i = (if unat i < length xs then Some (xs ! unat i) else None)"

definition storage_rows :: "strings_api \<Rightarrow> health_snapshot \<Rightarrow> display_config \<Rightarrow> int \<Rightarrow> u32 list \<Rightarrow> prim list" where
  "storage_rows H s config filesystem_x indices = concat (map (\<lambda>(row, index).
     case (lookup (dc_labels config) index, lookup (hs_filesystems s) index) of
       (Some label, Some u) \<Rightarrow> draw_storage_row H filesystem_x (51 + i32_of row * 18) (label_str label) u
     | _ \<Rightarrow> []) (enumerate 0 indices))"

definition smart_rows :: "strings_api \<Rightarrow> health_snapshot \<Rightarrow> int \<Rightarrow> u32 list \<Rightarrow> prim list" where
  "smart_rows H s smart_x indices = (if indices = [] then [Txt ''NOT CONFIGURED'' (smart_x + 6, 58) FONT_6X10 WHITE]
     else concat (map (\<lambda>(row, index). case lookup (hs_smart s) index of
         None \<Rightarrow> []
       | Some d \<Rightarrow> draw_smart_row H smart_x (51 + i32_of row * 17) d) (enumerate 0 indices)))"

definition draw_storage_smart ::
  "strings_api \<Rightarrow> health_snapshot \<Rightarrow> display_config \<Rightarrow> nat \<Rightarrow> str \<Rightarrow> bool \<Rightarrow> u32 list \<Rightarrow> u32 list \<Rightarrow> nat \<Rightarrow> drawing" where
  "draw_storage_smart H s config page title filesystems_left filesystem_indices smart_indices page_count = (let
       filesystem_x = (if filesystems_left then 4 else 122);
       smart_x = (if filesystems_left then 122 else 4);
       (backup_text, backup_color) = format_backup_job H s
     in in_turn [draw_header H s title page page_count, Some (
       draw_card (filesystem_x, 19) 114 103
       @ draw_icon Disk (filesystem_x + 6, 24) heading_cyan
       @ [Txt ''FILESYSTEMS'' (filesystem_x + 26, 34) FONT_6X10 heading_cyan]
       @ storage_rows H s config filesystem_x filesystem_indices
       @ [Txt backup_text (filesystem_x + 6, 112) FONT_6X10 backup_color]
       @ draw_card (smart_x, 19) 114 103
       @ draw_icon Disk (smart_x + 6, 24) heading_cyan
       @ [Txt ''SMART'' (smart_x + 26, 34) FONT_6X10 heading_cyan]
       @ smart_rows H s smart_x smart_indices)])"

definition draw_ups_network :: "strings_api \<Rightarrow> health_snapshot \<Rightarrow> nat \<Rightarrow> str \<Rightarrow> bool \<Rightarrow> nat \<Rightarrow> drawing" where
  "draw_ups_network H s page title ups_left page_count = (let
       ups_x = (if ups_left then 4 else 122);
       network_x = (if ups_left then 122 else 4);
       show_last_success = network_has_error s;
       link_y = (if show_last_success then 68 else 78);
       status_y = (if show_last_success then 82 else 92);
       ip_y = (if show_last_success then 96 else 108)
     in in_turn [draw_header H s title page page_count, Some (
       draw_card (ups_x, 19) 114 103
       @ draw_icon Ups (ups_x + 6, 24) heading_cyan
       @ [Txt ''UPS'' (ups_x + 26, 34) FONT_6X10 heading_cyan,
          Txt (ups_status_text s) (ups_x + 6, 57) FONT_10X20 (ups_color s),
          Txt (format_ups_battery H s) (ups_x + 6, 76) FONT_6X10 WHITE,
          Txt (format_ups_load H s) (ups_x + 6, 92) FONT_6X10 WHITE,
          Txt (format_ups_runtime H s) (ups_x + 6, 108) FONT_6X10 WHITE]
       @ draw_card (network_x, 19) 114 103
       @ draw_icon NetworkIcon (network_x + 6, 24) heading_cyan
       @ [Txt ''ETHERNET'' (network_x + 26, 34) FONT_6X10 heading_cyan,
          Txt (if hs_interface s = [] then ''NO INTERFACE'' else hs_interface s) (network_x + 6, 48) FONT_6X10 WHITE,
          Txt (format_link H s) (network_x + 6, link_y) FONT_10X20 (network_color s),
          Txt (network_status_text s) (network_x + 6, status_y) FONT_6X10 (network_color s),
          Txt ''IP'' (network_x + 6, ip_y) FONT_6X10 WHITE,
          Txt (format_ipv4 H (hs_ipv4 s)) (network_x + 24, ip_y) FONT_6X10 heading_cyan]
       @ (if show_last_success
          then [Txt (format_last_internet_success H (hs_internet_age s)) (network_x + 6, 112) FONT_6X10 WHITE] else []))])"

definition guests_per_page :: nat where "guests_per_page = 4"

definition draw_guest_row :: "strings_api \<Rightarrow> nat \<Rightarrow> guest_summary \<Rightarrow> drawing" where
  "draw_guest_row H row g = (let
       y = 49 + i32_of row * 22;
       c = (if g_status g = GuestRunning then GREEN else RED)
     in case short_name H (g_name g) of
       None \<Rightarrow> None
     | Some name \<Rightarrow> Some (
         draw_icon (case g_kind g of VirtualMachine \<Rightarrow> Qemu | Container \<Rightarrow> ContainerIcon) (5, y - 12) heading_cyan
         @ [Txt name (25, y) FONT_6X10 WHITE,
            Txt (if g_status g = GuestRunning then ''RUN'' else ''STOP'') (143, y) FONT_6X10 c,
            Txt (format H 8 [u8s (g_cpu g), ''%'']) (204, y) FONT_6X10 WHITE]
         @ (if row < 3 then [Ln (8, y + 7) (231, y + 7) (Rgb565 8 18 18) 1] else [])))"

definition draw_guests :: "strings_api \<Rightarrow> health_snapshot \<Rightarrow> nat \<Rightarrow> str \<Rightarrow> u32 \<Rightarrow> u32 \<Rightarrow> nat \<Rightarrow> drawing" where
  "draw_guests H s page title offset limit page_count = (let (running, total') = guest_counts s in
     in_turn ([draw_header H s title page page_count, Some (
         draw_icon GuestsIcon (8, 20) heading_cyan
         @ [Txt (format H 16 [dec running, ''/'', dec total', '' RUN'']) (28, 31) FONT_6X10 GREEN,
            Txt ''STATUS'' (143, 31) FONT_6X10 heading_cyan, Txt ''CPU'' (207, 31) FONT_6X10 heading_cyan])]
       @ map (\<lambda>(row, g). draw_guest_row H row g)
           (enumerate 0 (take (min (unat limit) guests_per_page) (drop (unat offset) (hs_guests s))))))"

section \<open>Shutdown screens\<close>

definition draw_guest_shutdown_bar :: "u16 \<Rightarrow> u16 \<Rightarrow> prim list" where
  "draw_guest_shutdown_bar all_guests remaining = (let
       stopped = unat all_guests - unat (min remaining all_guests);
       width = (if all_guests = 0 then 198 else min (stopped * 198) (2 ^ 32 - 1) div unat all_guests)
     in Frame (20, 94) 200 12 WHITE 1 # (if width > 0 then [Fill (21, 95) width 10 RED] else []))"

definition draw_shutdown_spinner :: "u8 \<Rightarrow> prim list" where
  "draw_shutdown_spinner frame = map (\<lambda>(index, p). Fill p 7 7 (if index = unat frame then RED else Rgb565 8 14 13))
     (enumerate 0 [(117, 91), (129, 103), (117, 115), (105, 103)])"

definition draw_shutdown_status :: "strings_api \<Rightarrow> shutdown_display \<Rightarrow> colour \<Rightarrow> prim list" where
  "draw_shutdown_status H status c = (case status of
     Accepted \<Rightarrow> draw_message ''SHUTTING DOWN'' ''Preparing guests...'' c
   | GuestsLeft all_guests remaining \<Rightarrow>
       draw_message ''STOPPING GUESTS'' (format H 32 [u16s remaining, '' of '', u16s all_guests, '' remaining'']) c
       @ draw_guest_shutdown_bar all_guests remaining
   | GuestsStopped \<Rightarrow> draw_message ''GUESTS STOPPED'' ''Host shutdown next'' GREEN
   | HostPoweroff spinner remaining \<Rightarrow>
       draw_message ''HOST SHUTDOWN'' (if remaining = 0 then format H 32 [''Stopping services...'']
         else format H 32 [u16s remaining, '' guests handed off'']) c
       @ draw_shutdown_spinner spinner
   | ReportingLost remaining \<Rightarrow> draw_message ''REPORTING LOST'' (format H 32 [''USB active, last count '', u16s remaining]) YELLOW
   | ConnectionLost remaining \<Rightarrow> draw_message ''CONNECTION LOST'' (format H 32 [''USB link down, last '', u16s remaining]) YELLOW
   | ShutdownError HostPoweroffFailure remaining \<Rightarrow>
       draw_message ''SHUTDOWN FAILED'' (format H 32 [''Poweroff failed, '', u16s remaining, '' remain'']) c)"

section \<open>About and setup\<close>

record qr_code =
  qr_size :: nat
  qr_module :: "nat \<Rightarrow> nat \<Rightarrow> bool"

text \<open>What the build and the QR encoder provide; the encoder tries versions 2 and 3.\<close>

record screen_env =
  se_strings :: strings_api
  se_qr :: "str \<Rightarrow> qr_code option"
  se_pkg_version :: str
  se_build_version :: str

definition draw_qr :: "qr_code \<Rightarrow> prim list" where
  "draw_qr code = (let
       all_modules = (qr_size code + 4 * 2) * 3;
       origin = (232 - int all_modules, 12)
     in Fill origin all_modules all_modules WHITE
        # concat (map (\<lambda>y. concat (map (\<lambda>x.
            if qr_module code x y then [Fill (shift origin ((int x + 4) * 3) ((int y + 4) * 3)) 3 3 BLACK] else [])
            [0..<qr_size code])) [0..<qr_size code]))"

definition draw_qr_about :: "screen_env \<Rightarrow> display_config \<Rightarrow> colour \<Rightarrow> u8 list \<Rightarrow> str \<Rightarrow> prim list option" where
  "draw_qr_about E config c ipv4 url = (case se_qr E url of
     None \<Rightarrow> None
   | Some code \<Rightarrow> Some (draw_card (8, 10) 224 116
       @ [Txt ''ABOUT'' (16, 31) FONT_10X20 c,
          Txt (format (se_strings E) 24 [''FW    '', se_pkg_version E]) (16, 51) FONT_6X10 WHITE,
          Txt (format (se_strings E) 24 [''HOST  '', short_version (version_str (dc_daemon_version config))]) (16, 67) FONT_6X10 WHITE,
          Txt (format (se_strings E) 16 [''PROTO '', u8s protocol_version]) (16, 83) FONT_6X10 WHITE,
          Txt ''IP'' (16, 98) FONT_6X10 muted,
          Txt (format (se_strings E) 20 (ipv4_pieces ipv4)) (16, 110) FONT_6X10 WHITE,
          Txt ''SCAN TO OPEN'' (16, 122) FONT_6X10 muted]
       @ draw_qr code))"

definition draw_detailed_about :: "screen_env \<Rightarrow> u8 list option \<Rightarrow> display_config \<Rightarrow> colour \<Rightarrow> prim list" where
  "draw_detailed_about E station config c = draw_card (8, 10) 224 116
     @ [Txt ''ABOUT'' (18, 35) FONT_10X20 c,
        Txt (format (se_strings E) 40 [''FIRMWARE  '', se_build_version E]) (18, 54) FONT_6X10 WHITE,
        Txt (format (se_strings E) 40 [''DAEMON    '', version_str (dc_daemon_version config)]) (18, 70) FONT_6X10 WHITE,
        Txt (format (se_strings E) 24 [''PROTOCOL  '', u8s protocol_version]) (18, 86) FONT_6X10 WHITE,
        Txt (case station of Some ipv4 \<Rightarrow> format (se_strings E) 32 (''IP        '' # ipv4_pieces ipv4)
          | None \<Rightarrow> format (se_strings E) 32 [''IP        WAITING'']) (18, 102) FONT_6X10 WHITE,
        Txt ''Click to return'' (18, 119) FONT_6X10 muted]"

definition draw_about :: "screen_env \<Rightarrow> u8 list option \<Rightarrow> u16 option \<Rightarrow> display_config \<Rightarrow> colour \<Rightarrow> prim list" where
  "draw_about E station port config c = (case (station, port) of
     (Some ipv4, Some p) \<Rightarrow> (let url = (if p = 80
           then format (se_strings E) 40 (''http://'' # ipv4_pieces ipv4 @ [''/''])
           else format (se_strings E) 40 (''http://'' # ipv4_pieces ipv4 @ ['':'', u16s p, ''/''])) in
         (case draw_qr_about E config c ipv4 url of Some drawn \<Rightarrow> drawn | None \<Rightarrow> draw_detailed_about E station config c))
   | _ \<Rightarrow> draw_detailed_about E station config c)"

definition draw_wifi_setup :: "str \<Rightarrow> colour \<Rightarrow> prim list" where
  "draw_wifi_setup ssid c = [Txt ''WIFI SETUP'' (12, 27) FONT_10X20 c, Txt ''NETWORK'' (12, 50) FONT_6X10 WHITE,
     Txt ssid (12, 63) FONT_6X10 WHITE, Txt ''OPEN NETWORK'' (12, 82) FONT_6X10 WHITE,
     Txt ''OPEN 192.168.4.1'' (12, 105) FONT_6X10 WHITE]"

section \<open>A screen\<close>

record statics =
  sc_station :: "u8 list option"
  sc_port :: "u16 option"
  sc_setup :: "str option" \<comment> \<open>the network name of the provisioning display\<close>

definition draw_view :: "strings_api \<Rightarrow> health_snapshot \<Rightarrow> display_config \<Rightarrow> nat \<Rightarrow> display_view \<Rightarrow> drawing" where
  "draw_view H s config page view = (let title = label_str (dv_title view); count = length (dc_pages config) in
     case dv_page view of
       Overview \<Rightarrow> draw_overview H s page title count
     | Resources \<Rightarrow> draw_resources H s page title count
     | Storage filesystems_left filesystem_indices smart_indices \<Rightarrow>
         draw_storage_smart H s config page title filesystems_left filesystem_indices smart_indices count
     | PowerNetwork ups_left \<Rightarrow> draw_ups_network H s page title ups_left count
     | Guests offset limit \<Rightarrow> draw_guests H s page title offset limit count)"

definition accent_of :: "daemon_state \<Rightarrow> health_snapshot option \<Rightarrow> colour" where
  "accent_of daemon snapshot = (case daemon of
     PoweringOff \<Rightarrow> RED | Incompatible \<Rightarrow> RED | Stale \<Rightarrow> YELLOW | Waiting \<Rightarrow> CYAN
   | Connected \<Rightarrow> (case snapshot of None \<Rightarrow> CYAN | Some s \<Rightarrow> health_status_color (hr_level (hs_health s))))"

definition screen_body ::
  "screen_env \<Rightarrow> statics \<Rightarrow> bool \<Rightarrow> daemon_state \<Rightarrow> nat \<Rightarrow> health_snapshot option \<Rightarrow> display_config \<Rightarrow> shutdown_display
   \<Rightarrow> colour \<Rightarrow> drawing" where
  "screen_body E st usb_connected daemon page0 snapshot config shutdown accent = (case daemon of
     PoweringOff \<Rightarrow> Some (draw_shutdown_status (se_strings E) shutdown accent)
   | Stale \<Rightarrow> Some (draw_message ''HOST LOST'' ''Updates stopped'' accent)
   | Incompatible \<Rightarrow> Some (draw_message ''UPDATE REQUIRED''
       (format (se_strings E) 32 [''Stick protocol v'', u8s protocol_version]) accent)
   | Connected \<Rightarrow> (case snapshot of
       None \<Rightarrow> Some (draw_message ''WAITING'' ''No health snapshot'' accent)
     | Some s \<Rightarrow> (let pages = dc_pages config; page = page0 mod max (length pages) 1 in
         if page < length pages
         then in_turn [draw_view (se_strings E) s config page (pages ! page), Some (draw_page_dots page (length pages))]
         else None))
   | Waiting \<Rightarrow> (case sc_setup st of
       Some ssid \<Rightarrow> Some (draw_wifi_setup ssid accent)
     | None \<Rightarrow> if usb_connected then Some (draw_message ''USB READY'' ''Start host daemon'' accent)
         else Some (draw_message ''OFFLINE'' ''Connect USB host'' accent)))"

definition render :: "screen_env \<Rightarrow> statics \<Rightarrow> bool \<Rightarrow> daemon_state \<Rightarrow> nat \<Rightarrow> health_snapshot option \<Rightarrow> display_config
   \<Rightarrow> shutdown_display \<Rightarrow> bool \<Rightarrow> drawing" where
  "render E st usb_connected daemon page snapshot config shutdown show_about = (let accent = accent_of daemon snapshot in
     in_turn [Some [Clear (Rgb565 1 2 3), Fill (0, 0) 240 3 accent],
       if show_about \<and> daemon \<noteq> PoweringOff then Some (draw_about E (sc_station st) (sc_port st) config accent)
       else screen_body E st usb_connected daemon page snapshot config shutdown accent,
       Some [Present]])"

text \<open>The drawings of the main loop.\<close>

fun draw_output :: "screen_env \<Rightarrow> statics \<Rightarrow> draw \<Rightarrow> drawing" where
  "draw_output E st (DrawProgress previous_height height clear) = Some (draw_shutdown_progress previous_height height clear)"
| "draw_output E st (DrawScreen usb_connected daemon page snapshot config shutdown show_about) =
     render E st usb_connected daemon page snapshot config shutdown show_about"

end
