(* ===== verification/Screen_Props.thy ===== *)
theory Screen_Props
  imports Screen Validate Stick_Props
begin

text \<open>
  What holds of the screens: no text is cut and no name makes the renderer panic when the inputs
  are as short as the layout expects, and every shape lies on the display.
\<close>

section \<open>Inputs the layout is made for\<close>

definition fits_in :: "nat \<Rightarrow> nat \<Rightarrow> str \<Rightarrow> bool" where
  "fits_in chars capacity name = (length (concat (take chars (utf8_chars name))) \<le> capacity)"

definition snapshot_fits :: "health_snapshot \<Rightarrow> bool" where
  "snapshot_fits s = ((hr_level (hs_health s) = Healthy \<or> length (hr_message (hs_health s)) \<le> 16)
     \<and> fits_in 10 11 (hs_host_name s) \<and> list_all (\<lambda>g. fits_in 16 17 (g_name g)) (hs_guests s)
     \<and> length (hs_guests s) < 100000
     \<and> list_all (\<lambda>d. case sd_temperature d of None \<Rightarrow> True | Some t \<Rightarrow> -128 \<le> t \<and> t < 128) (hs_smart s))"

definition versions_fit :: "screen_env \<Rightarrow> display_config \<Rightarrow> bool" where
  "versions_fit E config = (length (se_pkg_version E) \<le> 18 \<and> length (se_build_version E) \<le> 30
     \<and> length (short_version (version_str (dc_daemon_version config))) \<le> 18
     \<and> length (version_str (dc_daemon_version config)) \<le> 30)"

section \<open>No text is cut\<close>

lemma header_exact:
  assumes "strings_ok H" "fits_in 10 11 (hs_host_name s)" "page < n" "n < 10000000"
  shows "draw_header H s title page n = draw_header unbounded s title page n"
proof -
  have "length (dec (page + 1)) \<le> 7" by (rule dec_7; use assms(3,4) in linarith)
  moreover have "length (dec n) \<le> 7" by (rule dec_7; use assms(4) in linarith)
  ultimately have "format H 16 [dec (page + 1), ''/'', dec n] = format unbounded 16 [dec (page + 1), ''/'', dec n]"
    by (intro format_exact [OF assms(1)]) simp
  moreover have "short_host_name H (hs_host_name s) = short_host_name unbounded (hs_host_name s)"
    using assms(2) by (intro short_host_name_exact assms(1)) (simp add: fits_in_def)
  ultimately show ?thesis unfolding draw_header_def by (simp only:)
qed

lemma metric_card_exact:
  assumes "strings_ok H" shows "draw_metric_card H p icon label n ''%'' = draw_metric_card unbounded p icon label n ''%''"
proof -
  have "format H 12 [u8s n, ''%''] = format unbounded 12 [u8s n, ''%'']"
    using u8_fits [of n] by (intro format_exact [OF assms]) simp
  then show ?thesis by (simp add: draw_metric_card_def)
qed

lemma uptime_exact:
  assumes "strings_ok H"
  shows "format H 24 [''UP '', dec (unat (n :: u64) div 86400), ''d '', dec (unat n mod 86400 div 3600), ''h'']
    = format unbounded 24 [''UP '', dec (unat n div 86400), ''d '', dec (unat n mod 86400 div 3600), ''h'']"
proof -
  have "unat n div 86400 < 10 ^ 15" using unat_u64_bound [of n] by simp
  then have "length (dec (unat n div 86400)) \<le> 15" by (intro length_dec) simp_all
  moreover have "length (dec (unat n mod 86400 div 3600)) \<le> 2" by (rule dec_2; linarith)
  ultimately show ?thesis by (intro format_exact [OF assms]) simp
qed

lemma counts_exact:
  assumes "strings_ok H" "guest_counts s = (running, n)" "length (hs_guests s) < 100000" "16 \<le> capacity"
  shows "format H capacity [dec running, ''/'', dec n, '' RUN''] = format unbounded capacity [dec running, ''/'', dec n, '' RUN'']"
proof -
  have "running < 100000" "n < 100000"
    using assms(2,3) length_filter_le [of "\<lambda>g. g_status g = GuestRunning" "hs_guests s"] by (auto simp: guest_counts_def)
  then have "length (dec running) \<le> 5" "length (dec n) \<le> 5" by (auto intro: dec_5)
  then show ?thesis using assms(4) by (intro format_exact [OF assms(1)]) simp
qed

lemma overview_exact:
  assumes "strings_ok H" "snapshot_fits s" "page < n" "n < 10000000"
  shows "draw_overview H s page title n = draw_overview unbounded s page title n"
proof -
  obtain running m where c: "guest_counts s = (running, m)" by fastforce
  have h: "draw_header H s title page n = draw_header unbounded s title page n"
    using assms(2) by (intro header_exact assms(1,3,4)) (simp add: snapshot_fits_def)
  have g: "format H 24 [dec running, ''/'', dec m, '' RUN''] = format unbounded 24 [dec running, ''/'', dec m, '' RUN'']"
    using assms(2) by (intro counts_exact [OF assms(1) c]) (simp_all add: snapshot_fits_def)
  have m: "format H 16 [hr_message (hs_health s)] = format unbounded 16 [hr_message (hs_health s)]"
    if "hr_level (hs_health s) \<noteq> Healthy"
    using assms(2) that by (intro format_exact [OF assms(1)]) (simp add: snapshot_fits_def)
  then have m: "(if hr_level (hs_health s) \<noteq> Healthy then [p, Txt (format H 16 [hr_message (hs_health s)]) q FONT_6X10 c'] else [])
      = (if hr_level (hs_health s) \<noteq> Healthy then [p, Txt (format unbounded 16 [hr_message (hs_health s)]) q FONT_6X10 c'] else [])"
    for p q c' by simp
  show ?thesis unfolding draw_overview_def c h g m prod.case Let_def exact_text [OF assms(1)] uptime_exact [OF assms(1)] ..
qed

lemma resources_exact:
  assumes "strings_ok H" "snapshot_fits s" "page < n" "n < 10000000"
  shows "draw_resources H s page title n = draw_resources unbounded s page title n"
proof -
  have h: "draw_header H s title page n = draw_header unbounded s title page n"
    using assms(2) by (intro header_exact assms(1,3,4)) (simp add: snapshot_fits_def)
  have "length (dec (unat (hs_load_x100 s) div 100)) \<le> 3"
    by (rule dec_3; use unat_u16_bound [of "hs_load_x100 s"] in linarith)
  moreover have "length (concat (two_digits (unat (hs_load_x100 s) mod 100))) \<le> 2" by (rule two_digits_fit) simp
  ultimately have l: "format H 16 ([dec (unat (hs_load_x100 s) div 100), ''.''] @ two_digits (unat (hs_load_x100 s) mod 100))
      = format unbounded 16 ([dec (unat (hs_load_x100 s) div 100), ''.''] @ two_digits (unat (hs_load_x100 s) mod 100))"
    by (intro format_exact [OF assms(1)]) simp
  have gib: "length (dec (unat x div 1024)) \<le> 7" for x :: u32
    by (rule dec_7; use unat_u32_bound [of x] in linarith)
  have m: "format H 24 [dec (unat x div 1024), ''/'', dec (unat y div 1024), ''G'']
      = format unbounded 24 [dec (unat x div 1024), ''/'', dec (unat y div 1024), ''G'']" for x y :: u32
    using gib [of x] gib [of y] by (intro format_exact [OF assms(1)]) simp
  show ?thesis unfolding draw_resources_def h l m metric_card_exact [OF assms(1)] ..
qed

lemma storage_row_exact: "strings_ok H \<Longrightarrow> draw_storage_row H x y label u = draw_storage_row unbounded x y label u"
  by (simp only: draw_storage_row_def exact_text)

lemma storage_rows_exact: "strings_ok H \<Longrightarrow> storage_rows H s config x is = storage_rows unbounded s config x is"
  by (simp add: storage_rows_def storage_row_exact cong: map_cong option.case_cong)

lemma lookup_set: "lookup xs i = Some v \<Longrightarrow> v \<in> set xs"
  by (auto simp: lookup_def split: if_splits)

lemma smart_rows_exact:
  assumes "strings_ok H" "snapshot_fits s" shows "smart_rows H s x is = smart_rows unbounded s x is"
proof -
  have "draw_smart_row H x y d = draw_smart_row unbounded x y d" if "d \<in> set (hs_smart s)" for y d
  proof -
    have "-128 \<le> t \<and> t < 128" if "sd_temperature d = Some t" for t
      using assms(2) \<open>d \<in> set (hs_smart s)\<close> that by (fastforce simp: snapshot_fits_def list_all_iff)
    then show ?thesis unfolding draw_smart_row_def by (subst smart_detail_exact [OF assms(1)]) simp_all
  qed
  then have "(case lookup (hs_smart s) i of None \<Rightarrow> [] | Some d \<Rightarrow> draw_smart_row H x y d)
      = (case lookup (hs_smart s) i of None \<Rightarrow> [] | Some d \<Rightarrow> draw_smart_row unbounded x y d)" for i y
    using lookup_set [of "hs_smart s" i] by (auto split: option.split)
  then show ?thesis by (simp add: smart_rows_def)
qed

lemma storage_smart_exact:
  assumes "strings_ok H" "snapshot_fits s" "page < n" "n < 10000000"
  shows "draw_storage_smart H s config page title left fss smart n = draw_storage_smart unbounded s config page title left fss smart n"
proof -
  have h: "draw_header H s title page n = draw_header unbounded s title page n"
    using assms(2) by (intro header_exact assms(1,3,4)) (simp add: snapshot_fits_def)
  show ?thesis unfolding draw_storage_smart_def h storage_rows_exact [OF assms(1)] smart_rows_exact [OF assms(1,2)]
    backup_job_exact [OF assms(1)] ..
qed

lemma ups_network_exact:
  assumes "strings_ok H" "snapshot_fits s" "page < n" "n < 10000000"
  shows "draw_ups_network H s page title left n = draw_ups_network unbounded s page title left n"
proof -
  have h: "draw_header H s title page n = draw_header unbounded s title page n"
    using assms(2) by (intro header_exact assms(1,3,4)) (simp add: snapshot_fits_def)
  show ?thesis unfolding draw_ups_network_def h exact_text [OF assms(1)] ..
qed

lemma guest_row_exact:
  assumes "strings_ok H" "fits_in 16 17 (g_name g)" shows "draw_guest_row H row g = draw_guest_row unbounded row g"
proof -
  have "format H 8 [u8s (g_cpu g), ''%''] = format unbounded 8 [u8s (g_cpu g), ''%'']"
    using u8_fits [of "g_cpu g"] by (intro format_exact [OF assms(1)]) simp
  moreover have "short_name H (g_name g) = short_name unbounded (g_name g)"
    using assms(2) by (intro short_name_exact assms(1)) (simp add: fits_in_def)
  ultimately show ?thesis unfolding draw_guest_row_def by (simp only:)
qed

lemma guests_exact:
  assumes "strings_ok H" "snapshot_fits s" "page < n" "n < 10000000"
  shows "draw_guests H s page title offset limit n = draw_guests unbounded s page title offset limit n"
proof -
  obtain running m where c: "guest_counts s = (running, m)" by fastforce
  have h: "draw_header H s title page n = draw_header unbounded s title page n"
    using assms(2) by (intro header_exact assms(1,3,4)) (simp add: snapshot_fits_def)
  have g: "format H 16 [dec running, ''/'', dec m, '' RUN''] = format unbounded 16 [dec running, ''/'', dec m, '' RUN'']"
    using assms(2) by (intro counts_exact [OF assms(1) c]) (simp_all add: snapshot_fits_def)
  let ?gs = "take (min (unat limit) guests_per_page) (drop (unat offset) (hs_guests s))"
  have "fits_in 16 17 (g_name x)" if "x \<in> set ?gs" for x
    using assms(2) in_set_takeD [OF that, THEN in_set_dropD] by (simp add: snapshot_fits_def list_all_iff)
  then have "map (\<lambda>(row, g). draw_guest_row H row g) (enumerate 0 ?gs)
      = map (\<lambda>(row, g). draw_guest_row unbounded row g) (enumerate 0 ?gs)"
    by (intro map_cong refl) (auto intro!: guest_row_exact assms(1) dest!: set_zip_rightD simp: enumerate_eq_zip)
  then show ?thesis unfolding draw_guests_def c h prod.case Let_def g by (simp only:)
qed

lemma view_exact:
  assumes "strings_ok H" "snapshot_fits s" "page < length (dc_pages config)" "length (dc_pages config) < 10000000"
  shows "draw_view H s config page view = draw_view unbounded s config page view"
  using overview_exact [OF assms] resources_exact [OF assms] storage_smart_exact [OF assms] ups_network_exact [OF assms]
    guests_exact [OF assms]
  by (cases "dv_page view") (simp_all add: draw_view_def)

lemma shutdown_status_exact:
  assumes "strings_ok H" shows "draw_shutdown_status H status c = draw_shutdown_status unbounded status c"
proof -
  have f: "format H 32 vs = format unbounded 32 vs" if "length (concat vs) \<le> 32" for vs
    by (rule format_exact [OF assms that])
  show ?thesis
  proof (cases status)
    case (GuestsLeft n m)
    then show ?thesis using f [of "[u16s m, '' of '', u16s n, '' remaining'']"] u16_fits [of n] u16_fits [of m]
      by (simp add: draw_shutdown_status_def)
  next
    case (HostPoweroff n m)
    then show ?thesis using f [of "[u16s m, '' guests handed off'']"] f [of "[''Stopping services...'']"] u16_fits [of m]
      by (simp add: draw_shutdown_status_def)
  next
    case (ReportingLost m)
    then show ?thesis using f [of "[''USB active, last count '', u16s m]"] u16_fits [of m]
      by (simp add: draw_shutdown_status_def)
  next
    case (ConnectionLost m)
    then show ?thesis using f [of "[''USB link down, last '', u16s m]"] u16_fits [of m]
      by (simp add: draw_shutdown_status_def)
  next
    case (ShutdownError reason m)
    then show ?thesis using f [of "[''Poweroff failed, '', u16s m, '' remain'']"] u16_fits [of m]
      by (cases reason) (simp add: draw_shutdown_status_def)
  qed (simp_all add: draw_shutdown_status_def)
qed

definition unbounded_env :: "screen_env \<Rightarrow> screen_env" where
  "unbounded_env E = E\<lparr>se_strings := unbounded\<rparr>"

lemma unbounded_env_sel [simp]:
  "se_strings (unbounded_env E) = unbounded" "se_qr (unbounded_env E) = se_qr E"
  "se_pkg_version (unbounded_env E) = se_pkg_version E" "se_build_version (unbounded_env E) = se_build_version E"
  by (simp_all add: unbounded_env_def)

lemma about_exact:
  assumes "strings_ok (se_strings E)" "versions_fit E config"
  shows "draw_about E station port config c = draw_about (unbounded_env E) station port config c"
proof -
  have f: "format (se_strings E) n vs = format unbounded n vs" if "length (concat vs) \<le> n" for n vs
    by (rule format_exact [OF assms(1) that])
  have protocol: "length (u8s protocol_version) \<le> 3" by (rule u8_fits)
  have versions: "format (se_strings E) 24 [''FW    '', se_pkg_version E] = format unbounded 24 [''FW    '', se_pkg_version E]"
    "format (se_strings E) 24 [''HOST  '', short_version (version_str (dc_daemon_version config))]
       = format unbounded 24 [''HOST  '', short_version (version_str (dc_daemon_version config))]"
    "format (se_strings E) 16 [''PROTO '', u8s protocol_version] = format unbounded 16 [''PROTO '', u8s protocol_version]"
    "format (se_strings E) 40 [''FIRMWARE  '', se_build_version E] = format unbounded 40 [''FIRMWARE  '', se_build_version E]"
    "format (se_strings E) 40 [''DAEMON    '', version_str (dc_daemon_version config)]
       = format unbounded 40 [''DAEMON    '', version_str (dc_daemon_version config)]"
    "format (se_strings E) 24 [''PROTOCOL  '', u8s protocol_version] = format unbounded 24 [''PROTOCOL  '', u8s protocol_version]"
    using assms(2) protocol by (auto simp: versions_fit_def intro!: f simp del: format_unbounded)
  have addresses: "format (se_strings E) 20 (ipv4_pieces a) = format unbounded 20 (ipv4_pieces a)"
    "format (se_strings E) 32 (''IP        '' # ipv4_pieces a) = format unbounded 32 (''IP        '' # ipv4_pieces a)"
    "format (se_strings E) 32 [''IP        WAITING''] = format unbounded 32 [''IP        WAITING'']"
    "format (se_strings E) 40 (''http://'' # ipv4_pieces a @ [''/'']) = format unbounded 40 (''http://'' # ipv4_pieces a @ [''/''])"
    "format (se_strings E) 40 (''http://'' # ipv4_pieces a @ ['':'', u16s p, ''/''])
       = format unbounded 40 (''http://'' # ipv4_pieces a @ ['':'', u16s p, ''/''])" for a p
    using ipv4_pieces_fit [of a] u16_fits [of p] by (auto intro!: f simp del: format_unbounded)
  have qr: "draw_qr_about E config c a url = draw_qr_about (unbounded_env E) config c a url" for a url
    unfolding draw_qr_about_def unbounded_env_sel versions addresses ..
  have detailed: "draw_detailed_about E station config c = draw_detailed_about (unbounded_env E) station config c"
    unfolding draw_detailed_about_def unbounded_env_sel versions addresses ..
  show ?thesis unfolding draw_about_def unbounded_env_sel addresses qr detailed ..
qed

lemma body_exact:
  assumes "strings_ok (se_strings E)" "\<And>s. snapshot = Some s \<Longrightarrow> snapshot_fits s" "length (dc_pages config) < 10000000"
  shows "screen_body E st usb daemon page snapshot config shutdown accent
    = screen_body (unbounded_env E) st usb daemon page snapshot config shutdown accent"
proof -
  have v: "format (se_strings E) 32 [''Stick protocol v'', u8s protocol_version]
      = format unbounded 32 [''Stick protocol v'', u8s protocol_version]"
    using u8_fits [of protocol_version] by (intro format_exact [OF assms(1)]) simp
  have "draw_view (se_strings E) s config p view = draw_view unbounded s config p view"
    if "snapshot = Some s" "p < length (dc_pages config)" for s p view
    by (rule view_exact [OF assms(1) assms(2) [OF that(1)] that(2) assms(3)])
  then have view: "(if p < length (dc_pages config) then in_turn [draw_view (se_strings E) s config p (dc_pages config ! p), d] else None)
      = (if p < length (dc_pages config) then in_turn [draw_view unbounded s config p (dc_pages config ! p), d] else None)"
    if "snapshot = Some s" for s p d
    using that by (simp del: in_turn.simps)
  show ?thesis
  proof (cases snapshot)
    case None
    then show ?thesis unfolding screen_body_def unbounded_env_sel v shutdown_status_exact [OF assms(1)] by (simp only: option.case)
  next
    case (Some s)
    then show ?thesis unfolding screen_body_def unbounded_env_sel v shutdown_status_exact [OF assms(1)] Let_def
      by (simp only: option.case view [OF Some])
  qed
qed

lemma render_exact:
  assumes "strings_ok (se_strings E)" "versions_fit E config" "\<And>s. snapshot = Some s \<Longrightarrow> snapshot_fits s"
    "length (dc_pages config) < 10000000"
  shows "render E st usb daemon page snapshot config shutdown about
    = render (unbounded_env E) st usb daemon page snapshot config shutdown about"
proof -
  have "screen_body E st usb daemon page snapshot config shutdown a
      = screen_body (unbounded_env E) st usb daemon page snapshot config shutdown a" for a
    using assms(3) by (intro body_exact assms(1,4)) simp
  then show ?thesis unfolding render_def about_exact [OF assms(1,2)] by (simp only:)
qed

section \<open>Everything lies on the display\<close>

text \<open>Shapes lie on the display of 240 by 135 pixels; a text starts on it (a long one leaves it on the
  right, where the frame buffer clips it).\<close>

fun on_screen :: "prim \<Rightarrow> bool" where
  "on_screen (Clear c) = True"
| "on_screen Present = True"
| "on_screen (Txt v (x, y) f c) = (0 \<le> x \<and> x < 240 \<and> 0 \<le> y \<and> y < 135)"
| "on_screen (Fill (x, y) w h c) = (0 \<le> x \<and> x + int w \<le> 240 \<and> 0 \<le> y \<and> y + int h \<le> 135)"
| "on_screen (Frame (x, y) w h c s) = (0 \<le> x \<and> x + int w \<le> 240 \<and> 0 \<le> y \<and> y + int h \<le> 135)"
| "on_screen (Ln (x, y) (x', y') c s) = (0 \<le> x \<and> x < 240 \<and> 0 \<le> y \<and> y < 135 \<and> 0 \<le> x' \<and> x' < 240 \<and> 0 \<le> y' \<and> y' < 135)"
| "on_screen (Arc (x, y) d a b c s) = (0 \<le> x \<and> x + int d \<le> 240 \<and> 0 \<le> y \<and> y + int d \<le> 135)"

fun drawn :: "drawing \<Rightarrow> bool" where
  "drawn None = False"
| "drawn (Some ps) = list_all on_screen ps"

lemma drawn_iff: "drawn d \<longleftrightarrow> (\<exists>ps. d = Some ps \<and> list_all on_screen ps)"
  by (cases d) simp_all

lemma drawn_in_turn [simp]: "drawn (in_turn ds) \<longleftrightarrow> list_all drawn ds"
proof (induction ds)
  case (Cons d ds)
  then show ?case by (cases d; cases "in_turn ds") auto
qed simp

declare in_turn.simps [simp del]

lemma list_all_concat_map: "list_all P (concat (map f xs)) \<longleftrightarrow> (\<forall>x\<in>set xs. list_all P (f x))"
  by (auto simp: list_all_iff)

lemma draw_icon_on:
  assumes "0 \<le> x" "x + 17 \<le> 240" "0 \<le> y" "y + 16 \<le> 135" shows "list_all on_screen (draw_icon icon (x, y) c)"
  using assms by (cases icon) (simp_all add: icon_defs Let_def)

lemma value_card_on: "0 \<le> x \<Longrightarrow> x + 114 \<le> 240 \<Longrightarrow> 0 \<le> y \<Longrightarrow> y + 50 \<le> 135 \<Longrightarrow> list_all on_screen (draw_value_card (x, y) icon label v)"
  by (simp add: draw_value_card_def draw_card_def draw_icon_on)

lemma metric_card_on:
  "0 \<le> x \<Longrightarrow> x + 114 \<le> 240 \<Longrightarrow> 0 \<le> y \<Longrightarrow> y + 50 \<le> 135 \<Longrightarrow> list_all on_screen (draw_metric_card H (x, y) icon label v suffix)"
  unfolding draw_metric_card_def by (rule value_card_on)

lemma message_on [simp]: "list_all on_screen (draw_message title detail c)"
  by (simp add: draw_message_def)

lemma page_dots_on: "list_all on_screen (draw_page_dots page n)"
  by (auto simp: draw_page_dots_def list_all_iff i32_of_def)

lemma header_on: "drawn (draw_header unbounded s title page n)"
  by (simp add: draw_header_def short_host_name_def unbounded_def)

lemma overview_on: "drawn (draw_overview unbounded s page title n)"
proof (cases "guest_counts s")
  case (Pair running m)
  show ?thesis unfolding draw_overview_def Pair prod.case Let_def draw_card_def draw_stacked_summary_item_def draw_summary_item_def
      drawn_in_turn list.pred_inject drawn.simps list_all_append option.case
    by (simp add: header_on draw_icon_on del: format_unbounded)
qed

lemma i32_of_range: "0 \<le> i32_of n \<and> i32_of n \<le> int n"
  by (simp add: i32_of_def)

lemma resources_on: "drawn (draw_resources unbounded s page title n)"
proof -
  have gib: "length (dec (unat x div 1024)) \<le> 7" for x :: u32
    by (rule dec_7; use unat_u32_bound [of x] in linarith)
  define detail where "detail = format unbounded 24 [dec (unat (hs_mem_used s) div 1024), ''/'', dec (unat (hs_mem_total s) div 1024), ''G'']"
  have "length detail \<le> 16" using gib [of "hs_mem_used s"] gib [of "hs_mem_total s"] by (simp add: detail_def)
  then have "0 \<le> 230 - i32_of (length detail) * 6" "230 - i32_of (length detail) * 6 < 240"
    using i32_of_range [of "length detail"] by linarith+
  then show ?thesis unfolding draw_resources_def Let_def detail_def [symmetric] drawn_in_turn list.pred_inject drawn.simps
      list_all_append on_screen.simps
    by (simp add: header_on value_card_on metric_card_on del: format_unbounded)
qed

lemma storage_bar_on:
  assumes "pct \<le> 100" "0 \<le> x" "x + 32 \<le> 240" "0 \<le> y" "y + 6 \<le> 135" shows "list_all on_screen (draw_storage_bar (x, y) 32 pct c)"
proof -
  have "unat pct \<le> 100" using assms(1) by (simp add: word_le_nat_alt)
  then have "30 * unat pct div 100 \<le> 30" by linarith
  then show ?thesis using assms(2-) by (simp add: draw_storage_bar_def Let_def)
qed

lemma available_fits: "length (format_available_storage unbounded n) \<le> 8"
proof -
  define t where "t = min (unat n * 10) (2 ^ 64 - 1) div 1048576"
  have "t \<le> unat n * 10 div 1048576" unfolding t_def by (intro div_le_mono) simp
  then have "t < 40960" using unat_u32_bound [of n] by linarith
  then have "length (dec (t div 10)) \<le> 4" by (auto intro!: dec_4)
  moreover have "length (dec (t mod 10)) \<le> 1" by (rule dec_1) simp
  moreover have "length (dec ((unat n + 512) div 1024)) \<le> 4" if "unat n < 1048576"
    by (rule dec_4; use that in linarith)
  moreover have "length (dec (unat n)) \<le> 4" if "unat n < 1024" by (rule dec_4; use that in linarith)
  ultimately show ?thesis unfolding format_available_storage_def Let_def t_def [symmetric] by (auto simp: not_le)
qed

lemma storage_row_on:
  assumes "fs_used_percent u \<le> 100" "0 \<le> x" "x + 118 \<le> 240" "10 \<le> y" "y < 130"
  shows "list_all on_screen (draw_storage_row unbounded x y label u)"
  using assms available_fits [of "fs_available_mib u"]
  by (simp add: draw_storage_row_def storage_bar_on Let_def i32_of_def)

lemma storage_rows_on:
  assumes "snapshot_in_range s" "length is \<le> 3" "0 \<le> x" "x + 118 \<le> 240"
  shows "list_all on_screen (storage_rows unbounded s config x is)"
proof -
  have "list_all on_screen (draw_storage_row unbounded x (51 + i32_of row * 18) label u)"
    if "row < 3" "u \<in> set (hs_filesystems s)" for row label u
    using assms(1,3,4) that by (intro storage_row_on) (auto simp: snapshot_in_range_def list_all_iff i32_of_def)
  then show ?thesis using assms(2) lookup_set [of "hs_filesystems s"]
    by (auto simp: storage_rows_def list_all_concat_map enumerate_eq_zip in_set_zip split: option.split)
qed

lemma smart_detail_fits:
  assumes "\<And>t. sd_temperature d = Some t \<Longrightarrow> -128 \<le> t \<and> t < 128" shows "length (format_smart_detail unbounded d) \<le> 12"
proof -
  define w where "w = smart_word (sd_status d)"
  have "length w \<le> 5" unfolding w_def by (cases "sd_status d") (simp_all add: smart_word_def)
  moreover have "length (concat (i8_pieces t)) \<le> 4" if "sd_temperature d = Some t" for t
    using assms [OF that] by (intro i8_pieces_fit) simp_all
  ultimately show ?thesis unfolding format_smart_detail_def smart_word_def [symmetric] w_def [symmetric] Let_def
    by (cases "sd_temperature d") fastforce+
qed

lemma smart_rows_on:
  assumes "snapshot_fits s" "length is \<le> 5" "0 \<le> x" "x + 118 \<le> 240"
  shows "list_all on_screen (smart_rows unbounded s x is)"
proof -
  have "list_all on_screen (draw_smart_row unbounded x (51 + i32_of row * 17) d)"
    if "row < 5" "d \<in> set (hs_smart s)" for row d
  proof -
    have "-128 \<le> t \<and> t < 128" if "sd_temperature d = Some t" for t
      using assms(1) \<open>d \<in> set (hs_smart s)\<close> that by (fastforce simp: snapshot_fits_def list_all_iff)
    then show ?thesis using smart_detail_fits [of d] assms(3,4) that(1) by (simp add: draw_smart_row_def i32_of_def Let_def)
  qed
  then show ?thesis using assms(2-) lookup_set [of "hs_smart s"]
    by (auto simp: smart_rows_def list_all_concat_map enumerate_eq_zip in_set_zip split: option.split)
qed

lemma storage_smart_on:
  assumes "snapshot_in_range s" "snapshot_fits s" "length fss \<le> 3" "length smart \<le> 5"
  shows "drawn (draw_storage_smart unbounded s config page title left fss smart n)"
  using storage_rows_on [OF assms(1,3)] smart_rows_on [OF assms(2,4)]
  by (simp add: draw_storage_smart_def header_on draw_card_def draw_icon_on Let_def split: prod.split)

lemma ups_network_on: "drawn (draw_ups_network unbounded s page title left n)"
  by (simp add: draw_ups_network_def header_on draw_card_def draw_icon_on Let_def)

lemma guest_row_on: "row < 4 \<Longrightarrow> drawn (draw_guest_row unbounded row g)"
  by (simp add: draw_guest_row_def short_name_def unbounded_def draw_icon_on i32_of_def Let_def)

lemma guests_on: "drawn (draw_guests unbounded s page title offset limit n)"
proof (cases "guest_counts s")
  case (Pair running m)
  let ?gs = "take (min (unat limit) guests_per_page) (drop (unat offset) (hs_guests s))"
  have "list_all drawn (map (\<lambda>(row, g). draw_guest_row unbounded row g) (enumerate 0 ?gs))"
    using guest_row_on by (auto simp: list_all_iff enumerate_eq_zip in_set_zip guests_per_page_def)
  then show ?thesis unfolding draw_guests_def Pair prod.case Let_def drawn_in_turn
    by (simp add: header_on draw_icon_on del: format_unbounded)
qed

lemma view_on:
  assumes "snapshot_in_range s" "snapshot_fits s" "length (page_filesystems view) \<le> 3" "length (page_smart view) \<le> 5"
  shows "drawn (draw_view unbounded s config page view)"
proof (cases "dv_page view")
  case (Storage left fss smart)
  then show ?thesis using storage_smart_on [OF assms(1,2)] assms(3,4)
    by (simp add: draw_view_def page_filesystems_def page_smart_def)
qed (simp_all add: draw_view_def overview_on resources_on ups_network_on guests_on)

lemma shutdown_bar_on: "list_all on_screen (draw_guest_shutdown_bar n m)"
proof -
  have "min ((unat n - unat (min m n)) * 198) (2 ^ 32 - 1) div unat n \<le> 198"
  proof -
    have "min ((unat n - unat (min m n)) * 198) (2 ^ 32 - 1) div unat n \<le> (unat n * 198) div unat n"
      by (intro div_le_mono) (simp add: min.coboundedI1)
    then show ?thesis by (cases "unat n = 0") simp_all
  qed
  then show ?thesis by (simp add: draw_guest_shutdown_bar_def Let_def)
qed

lemma shutdown_status_on: "list_all on_screen (draw_shutdown_status H status c)"
proof (cases status)
  case (ShutdownError reason n)
  then show ?thesis by (cases reason) (simp add: draw_shutdown_status_def)
qed (simp_all add: draw_shutdown_status_def shutdown_bar_on draw_shutdown_spinner_def enumerate_eq_zip)

lemma progress_on: "height \<le> display_height \<Longrightarrow> list_all on_screen (draw_shutdown_progress previous height clear)"
proof -
  assume h: "height \<le> display_height"
  have top: "int (unat (display_height - height)) = 135 - int (unat height)"
    using h by (simp add: unat_sub display_height_def word_le_nat_alt of_nat_diff del: of_nat_unat)
  have "unat (height - previous) \<le> unat height" if "height > previous"
    using that by (simp add: unat_sub)
  moreover have "unat height \<le> 135" using h by (simp add: word_le_nat_alt display_height_def)
  ultimately show ?thesis unfolding draw_shutdown_progress_def top draw_shutdown_symbol_def
    by (simp del: of_nat_unat)
qed

definition qr_ok :: "(str \<Rightarrow> qr_code option) \<Rightarrow> bool" where
  "qr_ok enc = (\<forall>url code. enc url = Some code \<longrightarrow> qr_size code \<in> {25, 29})"

lemma qr_on: "qr_size code \<in> {25, 29} \<Longrightarrow> list_all on_screen (draw_qr code)"
  by (auto simp: draw_qr_def Let_def list_all_concat_map list_all_iff)

lemma about_on:
  assumes "qr_ok (se_qr E)" shows "list_all on_screen (draw_about E station port config c)"
proof -
  have "list_all on_screen (draw_detailed_about E station config c)" by (simp add: draw_detailed_about_def draw_card_def)
  moreover have "list_all on_screen ps" if "draw_qr_about E config c a url = Some ps" for a url ps
    using that assms qr_on by (auto simp: draw_qr_about_def draw_card_def qr_ok_def split: option.splits)
  ultimately show ?thesis by (auto simp: draw_about_def Let_def split: option.split)
qed

text \<open>The pages of a display configuration as the host compiles them.\<close>

definition well_laid_out :: "display_config \<Rightarrow> bool" where
  "well_laid_out config = (dc_pages config \<noteq> []
     \<and> list_all (\<lambda>view. length (page_filesystems view) \<le> 3 \<and> length (page_smart view) \<le> 5) (dc_pages config))"

lemma body_on:
  assumes "well_laid_out config" "\<And>s. snapshot = Some s \<Longrightarrow> snapshot_in_range s \<and> snapshot_fits s" "se_strings E = unbounded"
  shows "drawn (screen_body E st usb daemon page snapshot config shutdown accent)"
proof -
  have v: "drawn (draw_view unbounded s config p (dc_pages config ! p))" if "snapshot = Some s" "p < length (dc_pages config)" for s p
    using assms(1) assms(2) [OF that(1)] that(2) by (intro view_on) (simp_all add: well_laid_out_def list_all_length)
  have "page mod max (length (dc_pages config)) 1 < length (dc_pages config)"
    using assms(1) by (simp add: well_laid_out_def max_def)
  then show ?thesis using v
    by (cases daemon; cases snapshot)
      (simp_all add: screen_body_def assms(3) shutdown_status_on page_dots_on draw_wifi_setup_def Let_def split: option.split)
qed

lemma render_on:
  assumes "well_laid_out config" "\<And>s. snapshot = Some s \<Longrightarrow> snapshot_in_range s \<and> snapshot_fits s" "se_strings E = unbounded"
    "qr_ok (se_qr E)"
  shows "drawn (render E st usb daemon page snapshot config shutdown about)"
  using body_on [OF assms(1) _ assms(3)] assms(2) about_on [OF assms(4)]
  by (simp add: render_def Let_def)

section \<open>Compiled pages keep to the layout\<close>

lemma storage_page_sizes:
  "view \<in> set (storage_pages title left fss smart) \<Longrightarrow> length (page_filesystems view) \<le> 3 \<and> length (page_smart view) \<le> 5"
  by (auto simp: storage_pages_def Let_def page_filesystems_def page_smart_def display_view_new_def)

lemma view_page_sizes:
  assumes "view_pages cfg n v = Inr ps" "view \<in> set ps"
  shows "length (page_filesystems view) \<le> 3 \<and> length (page_smart view) \<le> 5"
proof (cases "vw_layout v")
  case (LStorage fs_ids smart_ids left)
  then show ?thesis using assms storage_page_sizes by (auto simp: view_pages_def Let_def)
next
  case (LGuests paginate offset limit)
  then show ?thesis
    using assms by (auto simp: view_pages_def Let_def guest_pages_def page_filesystems_def page_smart_def
        display_view_new_def dest!: collect_set split: if_splits)
qed (use assms in \<open>auto simp: view_pages_def Let_def page_filesystems_def page_smart_def display_view_new_def\<close>)

lemma compiled_layout:
  assumes "display_config version cfg n = Inr config" shows "well_laid_out config"
proof -
  from assms obtain pages where p: "compile_pages cfg n = Inr pages" "pages \<noteq> []" "dc_pages config = pages"
    by (auto simp: display_config_Inr)
  have "length (page_filesystems view) \<le> 3 \<and> length (page_smart view) \<le> 5" if "view \<in> set pages" for view
  proof -
    obtain pss where pss: "collect (\<lambda>i. and_then (ok_or (UnknownView i) (cf_views cfg i)) (view_pages cfg n))
        (ou_lcd_views (cf_outputs cfg)) = Inr pss" "pages = concat pss"
      using p(1) by (auto simp: compile_pages_def compile_pages_for_def split: if_splits)
    then obtain qs where "qs \<in> set pss" "view \<in> set qs" using \<open>view \<in> set pages\<close> by auto
    then obtain v where "view_pages cfg n v = Inr qs" using collect_set [OF pss(1)] by fastforce
    then show ?thesis using view_page_sizes \<open>view \<in> set qs\<close> by blast
  qed
  then show ?thesis using p(2,3) by (simp add: well_laid_out_def list_all_iff)
qed

lemma default_layout: "well_laid_out display_config_default"
  by (simp add: well_laid_out_def display_config_default_def display_view_new_def page_filesystems_def page_smart_def)

section \<open>The screens\<close>


text \<open>A string type that appends what fits and keeps its contents otherwise.\<close>

definition bounded :: strings_api where
  "bounded = \<lparr>hp_push = (\<lambda>n s v. if length s + length v \<le> n then (True, s @ v) else (False, s)),
     hp_collect = (\<lambda>n cs. if length (concat cs) \<le> n then Some (concat cs) else None)\<rparr>"

lemma strings_ok_bounded: "strings_ok bounded"
  by (simp add: strings_ok_def bounded_def)

text \<open>Nothing keeps a message of the host within the sixteen bytes of the cause line: with such strings a
  longer one is not cut but lost.\<close>

lemma long_cause_is_lost: "length message > 16 \<Longrightarrow> format bounded 16 [message] = []"
  by (simp add: format_def put.simps(2) bounded_def)

definition sample_screen :: screen_env where
  "sample_screen = \<lparr>se_strings = bounded, se_qr = (\<lambda>url. Some \<lparr>qr_size = 25, qr_module = (\<lambda>x y. x = y)\<rparr>),
     se_pkg_version = ''0.1.0'', se_build_version = ''0.1.0+1''\<rparr>"

lemma sample_manifest:
  "\<exists>config. display_config ''1.0'' sample_config 9 = Inr config \<and> length (dc_pages config) = 4
     \<and> dc_daemon_version config = SoftwareVersion ''1.0''"
  by (simp add: sample_config_def display_config_def as_millis_def try_word_def compile_pages_def compile_pages_for_def
      view_pages_def guest_pages_def div_ceil_def upt_rec display_config_new_def Let_def)


end
