(* ===== verification/Frame_Buffer.thy ===== *)
theory Frame_Buffer
  imports Prelude
begin

text \<open>
  The frame buffer in PSRAM (\<open>firmware/src/framebuffer.rs\<close>): two bytes a pixel, big endian, row by row.
  The graphics library hands it pixels at any coordinates; a colour is its raw 16 bit value. \<open>None\<close>
  is a slice out of range. What drawing many pixels does to a picture is proved in a locale from
  the laws of one, and interpreted on the buffer.
\<close>

section \<open>The buffer\<close>

type_synonym pixel = "(int \<times> int) \<times> u16"

definition width :: nat where "width = 240"
definition height :: nat where "height = 135"
definition bytes_per_pixel :: nat where "bytes_per_pixel = 2"
definition buffer_size :: nat where "buffer_size = width * height * bytes_per_pixel"

definition screen_new :: "u8 list" where
  "screen_new = replicate buffer_size 0"

definition to_be_bytes :: "u16 \<Rightarrow> u8 list" where
  "to_be_bytes c = [ucast (drop_bit 8 c), ucast c]"

fun set_pixel :: "int \<times> int \<Rightarrow> u16 \<Rightarrow> u8 list \<Rightarrow> u8 list option" where
  "set_pixel (x, y) c data =
     (if x < 0 \<or> y < 0 then Some data
      else if nat x \<ge> width \<or> nat y \<ge> height then Some data
      else (let index = (nat y * width + nat x) * bytes_per_pixel in
        if index + bytes_per_pixel \<le> length data
        then Some (take index data @ to_be_bytes c @ drop (index + bytes_per_pixel) data) else None))"

fun draw_iter :: "pixel list \<Rightarrow> u8 list \<Rightarrow> u8 list option" where
  "draw_iter [] data = Some data"
| "draw_iter ((p, c) # ps) data = (case set_pixel p c data of None \<Rightarrow> None | Some data' \<Rightarrow> draw_iter ps data')"

text \<open>\<open>chunks_exact_mut(2)\<close> leaves an odd last byte alone.\<close>

definition clear_buffer :: "u16 \<Rightarrow> u8 list \<Rightarrow> u8 list" where
  "clear_buffer c data = concat (replicate (length data div bytes_per_pixel) (to_be_bytes c))
     @ drop (length data div bytes_per_pixel * bytes_per_pixel) data"

definition screen_size :: "nat \<times> nat" where
  "screen_size = (width, height)"

section \<open>Pictures\<close>

text \<open>A canvas shows a colour at each point of an area; setting a pixel succeeds everywhere and changes
  that point only, if it is in the area.\<close>

locale canvas =
  fixes inv :: "'s \<Rightarrow> bool" and area :: "'p \<Rightarrow> bool"
    and put :: "'p \<Rightarrow> 'c \<Rightarrow> 's \<Rightarrow> 's option" and look :: "'s \<Rightarrow> 'p \<Rightarrow> 'c"
  assumes put_total: "inv s \<Longrightarrow> \<exists>s'. put p c s = Some s' \<and> inv s'"
    and look_put: "inv s \<Longrightarrow> put p c s = Some s' \<Longrightarrow> area q \<Longrightarrow> look s' q = (if q = p then c else look s q)"
begin

fun put_all :: "('p \<times> 'c) list \<Rightarrow> 's \<Rightarrow> 's option" where
  "put_all [] s = Some s"
| "put_all ((p, c) # ps) s = (case put p c s of None \<Rightarrow> None | Some s' \<Rightarrow> put_all ps s')"

text \<open>Each point of the area shows the last colour put there.\<close>

lemma put_all_shows:
  "inv s \<Longrightarrow> \<exists>s'. put_all ps s = Some s' \<and> inv s' \<and> (\<forall>q. area q \<longrightarrow>
     look s' q = (case map_of (rev ps) q of None \<Rightarrow> look s q | Some c \<Rightarrow> c))"
proof (induction ps arbitrary: s)
  case (Cons a ps)
  obtain p c where a: "a = (p, c)" by fastforce
  obtain s1 where s1: "put p c s = Some s1" "inv s1" using put_total [OF Cons.prems] by blast
  obtain s' where s': "put_all ps s1 = Some s'" "inv s'"
      "\<forall>q. area q \<longrightarrow> look s' q = (case map_of (rev ps) q of None \<Rightarrow> look s1 q | Some c \<Rightarrow> c)"
    using Cons.IH [OF s1(2)] by blast
  have "look s' q = (case map_of (rev (a # ps)) q of None \<Rightarrow> look s q | Some c \<Rightarrow> c)" if "area q" for q
    using s'(3) that look_put [OF Cons.prems s1(1) that] by (auto simp: a map_add_def split: option.split)
  then show ?case using s'(1,2) s1(1) by (auto simp: a)
qed simp

end

section \<open>The buffer as a picture\<close>

definition pixel_at :: "u8 list \<Rightarrow> int \<times> int \<Rightarrow> u16" where
  "pixel_at data p = (let index = (nat (snd p) * width + nat (fst p)) * 2 in
     word_of_nat (unat (data ! index) * 256 + unat (data ! (index + 1))))"

definition in_view :: "int \<times> int \<Rightarrow> bool" where
  "in_view p = (0 \<le> fst p \<and> fst p < int width \<and> 0 \<le> snd p \<and> snd p < int height)"

definition buffer_ok :: "u8 list \<Rightarrow> bool" where
  "buffer_ok data = (length data = buffer_size)"

lemma splice: "i + 2 \<le> length d \<Longrightarrow> take i d @ [a, b] @ drop (i + 2) d = d[i := a, Suc i := b]"
proof -
  assume i: "i + 2 \<le> length d"
  then have "drop i d = d ! i # d ! Suc i # drop (i + 2) d" by (simp add: Cons_nth_drop_Suc)
  then have "d = take i d @ d ! i # d ! Suc i # drop (i + 2) d" by (metis append_take_drop_id)
  moreover have "(xs @ x # y # zs)[length xs := a, Suc (length xs) := b] = xs @ [a, b] @ zs" for xs zs and x y :: 'a
    by (simp add: list_update_append)
  ultimately show ?thesis using i by (metis add_leD1 length_take min.absorb2)
qed

definition place :: "int \<times> int \<Rightarrow> nat" where
  "place p = nat (snd p) * width + nat (fst p)"

lemma place_less: "in_view p \<Longrightarrow> place p < width * height"
proof -
  assume p: "in_view p"
  then have "nat (snd p) \<le> 134" "nat (fst p) < 240" by (auto simp: in_view_def width_def height_def)
  then have "nat (snd p) * 240 + nat (fst p) < 134 * 240 + 240" by (intro add_le_less_mono mult_le_mono1)
  then show ?thesis by (simp add: place_def width_def height_def)
qed

lemma place_inj: "in_view p \<Longrightarrow> in_view q \<Longrightarrow> place p = place q \<Longrightarrow> p = q"
proof -
  assume p: "in_view p" and q: "in_view q" and e: "place p = place q"
  have x: "nat (fst p) < 240" "nat (fst q) < 240" using p q by (auto simp: in_view_def width_def)
  have "(nat (snd p) * 240 + nat (fst p)) div 240 = (nat (snd q) * 240 + nat (fst q)) div 240"
    "(nat (snd p) * 240 + nat (fst p)) mod 240 = (nat (snd q) * 240 + nat (fst q)) mod 240"
    using e by (simp_all add: place_def width_def)
  then have "nat (snd p) = nat (snd q)" "nat (fst p) = nat (fst q)" using x by simp_all
  then show ?thesis using p q by (auto simp: in_view_def prod_eq_iff)
qed

lemma set_pixel_outside: "\<not> in_view p \<Longrightarrow> set_pixel p c d = Some d"
  by (cases p) (auto simp: in_view_def)

lemma set_pixel_inside:
  assumes "buffer_ok d" "in_view p"
  shows "set_pixel p c d = Some (d[2 * place p := ucast (drop_bit 8 c), Suc (2 * place p) := ucast c])"
proof -
  have "2 * place p + 2 \<le> length d"
    using assms(1) place_less [OF assms(2)] by (simp add: buffer_ok_def buffer_size_def bytes_per_pixel_def)
  then show ?thesis
    using assms(2) splice [of "2 * place p" d]
    by (cases p) (auto simp: in_view_def Let_def place_def bytes_per_pixel_def to_be_bytes_def mult.commute)
qed

lemma two_bytes: "word_of_nat (unat (ucast (drop_bit 8 c) :: u8) * 256 + unat (ucast c :: u8)) = (c :: u16)"
proof -
  have "unat c < 65536" using unsigned_less [of c] by simp
  then have "unat c div 256 < 256" by (simp add: less_mult_imp_div_less)
  then have "unat (ucast (drop_bit 8 c) :: u8) = unat c div 256" "unat (ucast c :: u8) = unat c mod 256"
    by (simp_all add: unsigned_ucast_eq unat_drop_bit_eq drop_bit_eq_div take_bit_eq_mod unat_div)
  then show ?thesis by (simp only: div_mult_mod_eq) simp
qed

lemma pixel_at_place: "pixel_at d p = word_of_nat (unat (d ! (2 * place p)) * 256 + unat (d ! Suc (2 * place p)))"
  by (simp only: pixel_at_def place_def Let_def mult.commute [of _ 2] Suc_eq_plus1)

interpretation screen: canvas buffer_ok in_view set_pixel pixel_at
proof
  fix d p c
  assume d: "buffer_ok d"
  then show "\<exists>d'. set_pixel p c d = Some d' \<and> buffer_ok d'"
    by (cases "in_view p") (auto simp: set_pixel_inside set_pixel_outside buffer_ok_def)
next
  fix d p c d' q
  assume d: "buffer_ok d" and set: "set_pixel p c d = Some d'" and q: "in_view q"
  show "pixel_at d' q = (if q = p then c else pixel_at d q)"
  proof (cases "in_view p")
    case True
    have l: "Suc (2 * place p) < length d" "Suc (2 * place q) < length d"
      using d place_less [OF True] place_less [OF q] by (simp_all add: buffer_ok_def buffer_size_def bytes_per_pixel_def)
    have d': "d' = d[2 * place p := ucast (drop_bit 8 c), Suc (2 * place p) := ucast c]"
      using set set_pixel_inside [OF d True] by simp
    show ?thesis
    proof (cases "q = p")
      case True
      then have "d' ! (2 * place q) = ucast (drop_bit 8 c)" "d' ! Suc (2 * place q) = ucast c"
        using l by (simp_all add: d' nth_list_update)
      then show ?thesis using True by (simp only: pixel_at_place two_bytes simp_thms if_True)
    next
      case False
      then have "place q \<noteq> place p" using place_inj [OF q True] by auto
      then have "2 * place q \<noteq> Suc (2 * place p)" "Suc (2 * place q) \<noteq> 2 * place p" "2 * place q \<noteq> 2 * place p" by presburger+
      then have "d' ! (2 * place q) = d ! (2 * place q)" "d' ! Suc (2 * place q) = d ! Suc (2 * place q)" by (simp_all add: d')
      then show ?thesis using False by (simp only: pixel_at_place if_False)
    qed
  next
    case False
    then show ?thesis using set q by (auto simp: set_pixel_outside)
  qed
qed

lemma draw_iter_put_all: "draw_iter ps d = screen.put_all ps d"
  by (induction ps arbitrary: d) (auto split: option.split)

lemma screen_new_ok: "buffer_ok screen_new"
  by (simp add: buffer_ok_def screen_new_def)

lemma clear_ok: "buffer_ok d \<Longrightarrow> buffer_ok (clear_buffer c d)"
  by (simp add: buffer_ok_def clear_buffer_def bytes_per_pixel_def to_be_bytes_def buffer_size_def width_def height_def
      length_concat sum_list_replicate)

lemma nth_pairs: "k < n \<Longrightarrow> concat (replicate n [a, b]) ! (2 * k) = a \<and> concat (replicate n [a, b]) ! Suc (2 * k) = b"
proof (induction n arbitrary: k)
  case (Suc n)
  then show ?case by (cases k) simp_all
qed simp

lemma clear_shows: "buffer_ok d \<Longrightarrow> in_view p \<Longrightarrow> pixel_at (clear_buffer c d) p = c"
proof -
  assume d: "buffer_ok d" and p: "in_view p"
  have k: "place p < length d div 2"
    using d place_less [OF p] by (simp add: buffer_ok_def buffer_size_def bytes_per_pixel_def)
  then have "clear_buffer c d ! (2 * place p) = ucast (drop_bit 8 c) \<and> clear_buffer c d ! Suc (2 * place p) = ucast c"
    using nth_pairs [OF k, of "ucast (drop_bit 8 c)" "ucast c"]
    by (simp add: clear_buffer_def nth_append bytes_per_pixel_def to_be_bytes_def length_concat sum_list_replicate)
  then show ?thesis by (simp only: pixel_at_place two_bytes)
qed

text \<open>(C29) The frame buffer shows what is drawn: clearing it and then drawing any pixels, at any
  coordinates, never slices out of range, and afterwards every point of the display shows the
  last colour drawn there, or the background; pixels outside leave no trace.\<close>

theorem frame_shows_last_colours:
  assumes "buffer_ok d"
  shows "\<exists>d'. draw_iter ps (clear_buffer background d) = Some d' \<and> buffer_ok d'
    \<and> (\<forall>p. in_view p \<longrightarrow> pixel_at d' p = (case map_of (rev ps) p of None \<Rightarrow> background | Some c \<Rightarrow> c))"
  using screen.put_all_shows [OF clear_ok [OF assms], of ps background] clear_shows [OF assms, of _ background]
  by (simp add: draw_iter_put_all cong: option.case_cong)

theorem frame_shows_last_colours_witness:
  "\<exists>d'. draw_iter [((3, 2), 7), ((-1, 2), 8), ((3, 2), 9), ((240, 0), 1)] (clear_buffer 5 screen_new) = Some d' \<and> buffer_ok d'
    \<and> pixel_at d' (3, 2) = 9 \<and> pixel_at d' (0, 1) = 5"
proof -
  obtain d' where d': "draw_iter [((3, 2), 7), ((-1, 2), 8), ((3, 2), 9), ((240, 0), 1)] (clear_buffer 5 screen_new) = Some d'" "buffer_ok d'"
      "\<forall>p. in_view p \<longrightarrow> pixel_at d' p = (case map_of (rev [((3, 2), 7), ((-1, 2), 8), ((3, 2), 9), ((240, 0), 1)]) p of
         None \<Rightarrow> 5 | Some c \<Rightarrow> c)"
    using frame_shows_last_colours [OF screen_new_ok, of "[((3, 2), 7), ((-1, 2), 8), ((3, 2), 9), ((240, 0), 1)]" 5] by blast
  have "in_view (3, 2)" "in_view (0, 1)" by (simp_all add: in_view_def width_def height_def)
  then have "pixel_at d' (3, 2) = 9" "pixel_at d' (0, 1) = 5" using d'(3) by simp_all
  then show ?thesis using d'(1,2) by blast
qed

end
