(* ===== verification/Mock_Host.thy ===== *)
theory Mock_Host
  imports Daemon Screen_Props
begin

text \<open>
  The mock host (\<open>mock-host/src/lib.rs\<close> and \<open>mock-host/src/main.rs\<close>): the made-up data, the choice of
  the serial device, and the loop that talks to a stick without a Proxmox host. An iteration is a
  function of what it reads, a \<open>mock_tick\<close>; the port is the log of \<open>Host_Shutdown\<close>. Unlike the
  daemon, the mock keeps its port for ever and ends with the first error.
\<close>

section \<open>Made-up data\<close>

definition made_up_guests :: "guest_summary list" where
  "made_up_guests = [
     guest_new 100 ''atlas'' VirtualMachine GuestRunning 23 3104 8192,
     guest_new 101 ''db-primary'' VirtualMachine GuestRunning 61 12480 16384,
     guest_new 102 ''paperless'' Container GuestRunning 8 768 2048,
     guest_new 103 ''old-backup'' VirtualMachine GuestStopped 0 0 4096,
     guest_new 104 ''home-assistant'' Container GuestRunning 17 1536 4096]"

definition made_up_health :: health_snapshot where
  "made_up_health = snapshot_new ''pve-01'' (18 * 24 * 60 * 60 + 4 * 60 * 60) 23 18688 32768 4 82
     [filesystem_new 6 (85 * 1024), filesystem_new 33 6186598, filesystem_new 60 3670016]
     BackupHealthy (Some (6 * 60 * 60)) True 2500 ''enp3s0'' Reachable (Some 0) [10, 0, 0, 12] made_up_guests
     \<lparr>ups_status = Online, ups_battery = Some 100, ups_load = Some 15, ups_runtime = Some 2160,
      ups_watts = Some 102, ups_stale = False\<rparr>
     [smart_device_new ''ROOT'' SmartHealthy (Some 38), smart_device_new ''HDD'' SmartHealthy (Some 31),
      smart_device_new ''BACKUP'' SmartHealthy (Some 30), smart_device_new ''SDD'' SmartHealthy (Some 34),
      smart_device_new ''SDE'' Sleeping None]"

section \<open>The device\<close>

record serial_port =
  sp_name :: str
  sp_usb :: "(u16 \<times> u16) option" \<comment> \<open>vendor and product id of a USB port\<close>

datatype device_error = EnumeratingDevices | NoStick | ManySticks "str list"

definition is_stick :: "serial_port \<Rightarrow> bool" where
  "is_stick port = (sp_usb port = Some (0x303a, 0x1001))"

definition resolve_device :: "str option \<Rightarrow> serial_port list option \<Rightarrow> device_error + str" where
  "resolve_device explicit available = (case explicit of
     Some device \<Rightarrow> Inr device
   | None \<Rightarrow> (case available of
       None \<Rightarrow> Inl EnumeratingDevices
     | Some ports \<Rightarrow> (case filter is_stick ports of
         [port] \<Rightarrow> Inr (sp_name port)
       | [] \<Rightarrow> Inl NoStick
       | matches \<Rightarrow> Inl (ManySticks (map sp_name matches)))))"

section \<open>The loop\<close>

record mock =
  mk_decoder :: frame_decoder
  mk_interval :: time
  mk_next_update :: time
  mk_nonce :: handshake_nonce
  mk_established :: bool
  mk_next_hello :: time

record mock_tick =
  mt_hello_at :: time
  mt_hello_sent_at :: time
  mt_update_at :: time
  mt_updated_at :: time
  mt_read :: read_result
  mt_input_at :: time
  mt_print_ok :: bool

record mock_site =
  ms_version :: str
  ms_ser :: serializer
  ms_de :: "u8 list \<Rightarrow> device_message option"
  ms_cobs :: "u8 list \<Rightarrow> u8 list option"

datatype mock_end = MockShutDown | PortError host_error | ReadError | DecoderPanic

type_synonym mock_turn = "io \<Rightarrow> ((mock_end + mock) \<times> io) option"

definition stay :: "mock \<Rightarrow> mock_turn" where
  "stay m = (\<lambda>io. Some (Inr m, io))"

definition stop :: "mock_end \<Rightarrow> mock_turn" where
  "stop e = (\<lambda>io. Some (Inl e, io))"

definition next_do :: "mock_turn \<Rightarrow> (mock \<Rightarrow> mock_turn) \<Rightarrow> mock_turn" where
  "next_do t f = (\<lambda>io. case t io of None \<Rightarrow> None | Some (Inl e, io') \<Rightarrow> Some (Inl e, io') | Some (Inr m, io') \<Rightarrow> f m io')"

text \<open>The \<open>?\<close> after a port operation.\<close>

definition or_stop :: "'a act \<Rightarrow> ('a \<Rightarrow> mock_turn) \<Rightarrow> mock_turn" where
  "or_stop op f = (\<lambda>io. case op io of None \<Rightarrow> None
     | Some (Inl e, io') \<Rightarrow> Some (Inl (PortError e), io') | Some (Inr a, io') \<Rightarrow> f a io')"

text \<open>The local variables before the loop: the time since the epoch gives the nonce.\<close>

definition mock_start :: "time \<Rightarrow> time \<Rightarrow> nat \<Rightarrow> mock" where
  "mock_start since_epoch now interval_seconds = \<lparr>mk_decoder = decoder_new max_device_frame_len,
     mk_interval = secs (max interval_seconds 1), mk_next_update = now,
     mk_nonce = HandshakeNonce (xor (of_nat (as_secs since_epoch)) (push_bit 32 (of_nat (since_epoch mod 1000000000)))),
     mk_established = False, mk_next_hello = now\<rparr>"

definition mock_hello :: "mock_site \<Rightarrow> mock_tick \<Rightarrow> mock \<Rightarrow> mock_turn" where
  "mock_hello site t m = (if \<not> mk_established m \<and> mt_hello_at t \<ge> mk_next_hello m then
       or_stop (write_host_message (ms_ser site) (HostHello (SoftwareVersion (ms_version site)) (mk_nonce m)))
         (\<lambda>_. stay (m\<lparr>mk_next_hello := mt_hello_sent_at t + secs 1\<rparr>))
     else stay m)"

definition mock_update :: "mock_site \<Rightarrow> mock_tick \<Rightarrow> mock \<Rightarrow> mock_turn" where
  "mock_update site t m = (if mk_established m \<and> mt_update_at t \<ge> mk_next_update m then
       or_stop (write_host_message (ms_ser site) (HealthSnapshot made_up_health))
         (\<lambda>_. stay (m\<lparr>mk_next_update := mt_updated_at t + mk_interval m\<rparr>))
     else stay m)"

definition mock_message :: "mock_site \<Rightarrow> mock_tick \<Rightarrow> mock \<Rightarrow> protocol_error + device_message \<Rightarrow> mock_turn" where
  "mock_message site t m msg = (case msg of
     Inl e \<Rightarrow> stay m
   | Inr message \<Rightarrow>
       if \<exists>version. message = DeviceHello version (Some (mk_nonce m)) then
         stay (if mk_established m then m else m\<lparr>mk_established := True, mk_next_update := mt_input_at t\<rparr>)
       else or_stop (handle (ms_ser site) (console_poweroff (mt_print_ok t) (ms_ser site) 500000000) True message)
         (\<lambda>done. if done then stop MockShutDown else stay m))"

fun mock_bytes :: "mock_site \<Rightarrow> mock_tick \<Rightarrow> u8 list \<Rightarrow> mock \<Rightarrow> mock_turn" where
  "mock_bytes site t [] m = stay m"
| "mock_bytes site t (b # bs) m = (case push max_device_frame_len (mk_decoder m) b of
     None \<Rightarrow> stop DecoderPanic
   | Some (decoder, None) \<Rightarrow> mock_bytes site t bs (m\<lparr>mk_decoder := decoder\<rparr>)
   | Some (decoder, Some frame) \<Rightarrow>
       next_do (mock_message site t (m\<lparr>mk_decoder := decoder\<rparr>) (and_then frame (decode (ms_de site) (ms_cobs site))))
         (mock_bytes site t bs))"

definition mock_read :: "mock_site \<Rightarrow> mock_tick \<Rightarrow> mock \<Rightarrow> mock_turn" where
  "mock_read site t m = (case mt_read t of
     Bytes bs \<Rightarrow> mock_bytes site t bs m | TimedOut \<Rightarrow> stay m | ReadFailed \<Rightarrow> stop ReadError)"

definition mock_step :: "mock_site \<Rightarrow> mock_tick \<Rightarrow> mock \<Rightarrow> mock_turn" where
  "mock_step site t m = next_do (mock_hello site t m) (\<lambda>m. next_do (mock_update site t m) (mock_read site t))"

fun mock_run :: "mock_site \<Rightarrow> mock_tick list \<Rightarrow> mock \<Rightarrow> mock_turn" where
  "mock_run site [] m = stay m"
| "mock_run site (t # ts) m = next_do (mock_step site t m) (mock_run site ts)"

section \<open>The loop is harmless\<close>

text \<open>What the mock may do to the outside: print, wait, and write the frames of four kinds of message.\<close>

definition mock_frame :: "mock_site \<Rightarrow> handshake_nonce \<Rightarrow> u8 list \<Rightarrow> bool" where
  "mock_frame site nonce f = (\<exists>message. encode (ms_ser site) message max_host_frame_len = Inr f
     \<and> (message = HostHello (SoftwareVersion (ms_version site)) nonce \<or> message = HealthSnapshot made_up_health
        \<or> message = ShutdownAccepted \<or> (\<exists>phase n k. message = ShutdownProgress phase n k)))"

fun mock_event :: "mock_site \<Rightarrow> handshake_nonce \<Rightarrow> io_event \<Rightarrow> bool" where
  "mock_event site nonce (Wrote f) = mock_frame site nonce f"
| "mock_event site nonce RanPoweroff = False"
| "mock_event site nonce ev = True"

text \<open>An operation that returns and only adds such events to the log, and a turn that also keeps the
  decoder well formed and the nonce.\<close>

definition tame :: "(io_event \<Rightarrow> bool) \<Rightarrow> 'a act \<Rightarrow> bool" where
  "tame P op = (\<forall>io. \<exists>r io' new. op io = Some (r, io') \<and> io_log io' = io_log io @ new \<and> list_all P new)"

definition good :: "handshake_nonce \<Rightarrow> mock_end + mock \<Rightarrow> bool" where
  "good nonce r = (case r of Inl e \<Rightarrow> e \<noteq> DecoderPanic
     | Inr m \<Rightarrow> decoder_ok max_device_frame_len (mk_decoder m) \<and> mk_nonce m = nonce)"

definition tame_turn :: "(io_event \<Rightarrow> bool) \<Rightarrow> handshake_nonce \<Rightarrow> mock_turn \<Rightarrow> bool" where
  "tame_turn P nonce t = (\<forall>io. \<exists>r io' new. t io = Some (r, io') \<and> good nonce r \<and> io_log io' = io_log io @ new \<and> list_all P new)"

named_theorems tame_rule

lemma tame_basic [tame_rule]:
  "tame P (ret a)" "tame P (throw e)" "P ev \<Longrightarrow> tame P (log_event ev)" "P ev \<Longrightarrow> tame P (port_op ev e)"
  by (auto simp: tame_def ret_def throw_def log_event_def port_op_def split: list.split)

lemma tame_then_do [tame_rule]: "tame P m \<Longrightarrow> (\<And>a. tame P (f a)) \<Longrightarrow> tame P (then_do m f)"
proof -
  assume m: "tame P m" and f: "\<And>a. tame P (f a)"
  show ?thesis unfolding tame_def
  proof
    fix io
    obtain r io1 new where 1: "m io = Some (r, io1)" "io_log io1 = io_log io @ new" "list_all P new"
      using m unfolding tame_def by blast
    show "\<exists>r io' new. then_do m f io = Some (r, io') \<and> io_log io' = io_log io @ new \<and> list_all P new"
    proof (cases r)
      case (Inl e)
      then show ?thesis using 1 by (auto simp: then_do_def)
    next
      case (Inr a)
      obtain r' io' new' where "f a io1 = Some (r', io')" "io_log io' = io_log io1 @ new'" "list_all P new'"
        using f unfolding tame_def by blast
      then show ?thesis using 1 Inr by (auto simp: then_do_def)
    qed
  qed
qed

lemma tame_catch_do [tame_rule]: "tame P m \<Longrightarrow> (\<And>r. tame P (f r)) \<Longrightarrow> tame P (catch_do m f)"
proof -
  assume m: "tame P m" and f: "\<And>r. tame P (f r)"
  show ?thesis unfolding tame_def
  proof
    fix io
    obtain r io1 new where 1: "m io = Some (r, io1)" "io_log io1 = io_log io @ new" "list_all P new"
      using m unfolding tame_def by blast
    obtain r' io' new' where "f r io1 = Some (r', io')" "io_log io' = io_log io1 @ new'" "list_all P new'"
      using f unfolding tame_def by blast
    then show "\<exists>r io' new. catch_do m f io = Some (r, io') \<and> io_log io' = io_log io @ new \<and> list_all P new"
      using 1 by (auto simp: catch_do_def)
  qed
qed

lemma tame_write [tame_rule]:
  "(\<And>f. encode ser m max_host_frame_len = Inr f \<Longrightarrow> P (Wrote f)) \<Longrightarrow> tame P (write_host_message ser m)"
  by (auto simp: write_host_message_def intro: tame_rule split: sum.splits)

lemma tame_progress [tame_rule]: "tame (mock_event site nonce) (write_shutdown_progress (ms_ser site) phase n k)"
  unfolding write_shutdown_progress_def by (intro tame_rule) (auto simp: mock_frame_def)

lemma tame_phases: "tame (mock_event site nonce) (write_phases (ms_ser site) delay phases)"
  by (induction "ms_ser site" delay phases rule: write_phases.induct) (auto intro!: tame_rule)

lemma tame_console: "tame (mock_event site nonce) (console_poweroff print_ok (ms_ser site) delay)"
  by (auto simp: console_poweroff_def intro!: tame_rule tame_phases)

lemma tame_handle:
  "tame (mock_event site nonce) (handle (ms_ser site) (console_poweroff print_ok (ms_ser site) delay) allow message)"
  by (cases message) (auto simp: handle_def mock_frame_def intro!: tame_rule tame_console split: sum.split)

lemma tame_stay: "good nonce (Inr m) \<Longrightarrow> tame_turn P nonce (stay m)"
  by (simp add: tame_turn_def stay_def)

lemma tame_stop: "e \<noteq> DecoderPanic \<Longrightarrow> tame_turn P nonce (stop e)"
  by (simp add: tame_turn_def stop_def good_def)

lemma tame_or_stop: "tame P op \<Longrightarrow> (\<And>a. tame_turn P nonce (f a)) \<Longrightarrow> tame_turn P nonce (or_stop op f)"
proof -
  assume op: "tame P op" and f: "\<And>a. tame_turn P nonce (f a)"
  show ?thesis unfolding tame_turn_def
  proof
    fix io
    obtain r io1 new where 1: "op io = Some (r, io1)" "io_log io1 = io_log io @ new" "list_all P new"
      using op unfolding tame_def by blast
    show "\<exists>r io' new. or_stop op f io = Some (r, io') \<and> good nonce r \<and> io_log io' = io_log io @ new \<and> list_all P new"
    proof (cases r)
      case (Inl e)
      then show ?thesis using 1 by (auto simp: or_stop_def good_def)
    next
      case (Inr a)
      obtain r' io' new' where "f a io1 = Some (r', io')" "good nonce r'" "io_log io' = io_log io1 @ new'" "list_all P new'"
        using f unfolding tame_turn_def by blast
      then show ?thesis using 1 Inr by (auto simp: or_stop_def)
    qed
  qed
qed

lemma tame_next_do:
  assumes t: "tame_turn P nonce t" and f: "\<And>m. good nonce (Inr m) \<Longrightarrow> tame_turn P nonce (f m)"
  shows "tame_turn P nonce (next_do t f)"
  unfolding tame_turn_def
proof
  fix io
  obtain r io1 new where 1: "t io = Some (r, io1)" "good nonce r" "io_log io1 = io_log io @ new" "list_all P new"
    using t unfolding tame_turn_def by blast
  show "\<exists>r io' new. next_do t f io = Some (r, io') \<and> good nonce r \<and> io_log io' = io_log io @ new \<and> list_all P new"
  proof (cases r)
    case (Inl e)
    then show ?thesis using 1 by (auto simp: next_do_def)
  next
    case (Inr m)
    obtain r' io' new' where "f m io1 = Some (r', io')" "good nonce r'" "io_log io' = io_log io1 @ new'" "list_all P new'"
      using f 1(2) Inr unfolding tame_turn_def by blast
    then show ?thesis using 1 Inr by (auto simp: next_do_def)
  qed
qed

lemma tame_mock_message:
  assumes "good nonce (Inr m)" shows "tame_turn (mock_event site nonce) nonce (mock_message site t m msg)"
proof (cases msg)
  case (Inl e)
  then show ?thesis using assms by (simp add: mock_message_def tame_stay)
next
  case (Inr message)
  have "good nonce (Inr (m\<lparr>mk_established := True, mk_next_update := mt_input_at t\<rparr>))" using assms by (simp add: good_def)
  then show ?thesis unfolding Inr mock_message_def sum.case
    using assms by (auto intro!: tame_stay tame_or_stop tame_handle tame_stop)
qed

lemma tame_mock_bytes:
  "good nonce (Inr m) \<Longrightarrow> tame_turn (mock_event site nonce) nonce (mock_bytes site t bs m)"
proof (induction bs arbitrary: m)
  case Nil
  then show ?case by (simp add: tame_stay)
next
  case (Cons b bs)
  then obtain d out where p: "push max_device_frame_len (mk_decoder m) b = Some (d, out)" "decoder_ok max_device_frame_len d"
    using push_ok [of max_device_frame_len "mk_decoder m" b] by (auto simp: good_def)
  have g: "good nonce (Inr (m\<lparr>mk_decoder := d\<rparr>))" using p(2) Cons.prems by (simp add: good_def)
  show ?case
  proof (cases out)
    case None
    then show ?thesis using p(1) Cons.IH [OF g] by simp
  next
    case (Some frame)
    then show ?thesis using p(1) tame_next_do [OF tame_mock_message [OF g], of site "mock_bytes site t bs"] Cons.IH by simp
  qed
qed

lemma tame_mock_step:
  assumes "good nonce (Inr m)" shows "tame_turn (mock_event site nonce) nonce (mock_step site t m)"
proof -
  have hello: "tame_turn (mock_event site nonce) nonce (mock_hello site t m)" if "good nonce (Inr m)" for m
    using that by (auto simp: mock_hello_def good_def mock_frame_def intro!: tame_or_stop tame_stay tame_rule)
  have update: "tame_turn (mock_event site nonce) nonce (mock_update site t m)" if "good nonce (Inr m)" for m
    using that by (auto simp: mock_update_def good_def mock_frame_def intro!: tame_or_stop tame_stay tame_rule)
  have "tame_turn (mock_event site nonce) nonce (mock_read site t m)" if "good nonce (Inr m)" for m
    using that tame_mock_bytes by (auto simp: mock_read_def intro: tame_stay tame_stop split: read_result.split)
  then show ?thesis unfolding mock_step_def by (intro tame_next_do hello update assms)
qed

lemma tame_mock_run: "good nonce (Inr m) \<Longrightarrow> tame_turn (mock_event site nonce) nonce (mock_run site ts m)"
proof (induction ts arbitrary: m)
  case Nil
  then show ?case by (simp add: tame_stay)
next
  case (Cons t ts)
  then show ?case by (auto intro!: tame_next_do tame_mock_step)
qed

lemma mock_start_good: "good (mk_nonce (mock_start epoch now n)) (Inr (mock_start epoch now n))"
  by (simp add: good_def mock_start_def decoder_new_ok)


text \<open>Once the handshake stands the mock never takes it back, nor greets again.\<close>

lemma established_stays:
  "mock_message site t m msg io = Some (Inr m', io') \<Longrightarrow> mk_established m \<Longrightarrow> mk_established m'"
  by (auto simp: mock_message_def stay_def or_stop_def stop_def split: sum.splits option.splits if_splits)

text \<open>The made-up data is what the display is laid out for.\<close>

lemma made_up_health_fits: "snapshot_fits made_up_health \<and> snapshot_in_range made_up_health"
  by (simp add: made_up_health_def made_up_guests_def snapshot_new_def snapshot_fits_def snapshot_in_range_def fits_in_def
      report_healthy_def report_new_def guest_new_def filesystem_new_def smart_device_new_def utf8_width_def)

end
