(* ===== verification/Command.thy ===== *)
theory Command
  imports Measure
begin

text \<open>
  Running a child process (\<open>command_output\<close> of \<open>host/src/lib.rs\<close>, \<open>ping_target\<close> of
  \<open>host/src/health.rs\<close>): the loop that polls it until its deadline, and what it gives. The process is a record of what the polls find and what the
  clock says after each. Joining the threads that read its pipes is not bounded by the deadline: the
  record holds what they read once the pipes are closed.
\<close>

section \<open>The loop\<close>

datatype poll = Exited "int option" | StillRunning | PollFailed

record child_process =
  cp_started :: time
  cp_poll :: "nat \<Rightarrow> poll"
  cp_clock :: "nat \<Rightarrow> time"
  cp_wait :: "int option option" \<comment> \<open>\<open>wait\<close> after \<open>kill\<close>\<close>
  cp_stdout :: "string option"
  cp_stderr :: "string option"

text \<open>The two sleeps between polls.\<close>

definition poll_interval :: time where
  "poll_interval = 20000000"

definition ping_interval :: time where
  "ping_interval = 50000000"

text \<open>The poll that ended the loop, whether the child was killed, and its status. How long the loop
  sleeps shows only in what the clock of the process says after each poll.\<close>

fun wait_for :: "nat \<Rightarrow> child_process \<Rightarrow> time \<Rightarrow> nat \<Rightarrow> (nat \<times> bool \<times> int option option) option" where
  "wait_for 0 c deadline k = None"
| "wait_for (Suc fuel) c deadline k = (case cp_poll c k of
     Exited code \<Rightarrow> Some (k, False, Some code)
   | StillRunning \<Rightarrow> if cp_clock c k < deadline then wait_for fuel c deadline (Suc k) else Some (k, True, cp_wait c)
   | PollFailed \<Rightarrow> Some (k, True, cp_wait c))"

text \<open>\<open>None\<close>: not returned within the fuel.\<close>

definition command_output :: "nat \<Rightarrow> child_process option \<Rightarrow> time \<Rightarrow> cmd_output option option" where
  "command_output fuel spawned timeout = (case spawned of
     None \<Rightarrow> Some None
   | Some c \<Rightarrow> (case wait_for fuel c (cp_started c + timeout) 0 of
       None \<Rightarrow> None
     | Some (_, _, None) \<Rightarrow> Some None
     | Some (_, _, Some code) \<Rightarrow> Some (case (cp_stdout c, cp_stderr c) of
         (Some out, Some err) \<Rightarrow> Some \<lparr>co_code = code, co_stdout = out, co_stderr = err\<rparr>
       | _ \<Rightarrow> None)))"

text \<open>\<open>ping_target\<close>: reachable when the child exits with success before it is killed.\<close>

definition ping_target :: "nat \<Rightarrow> child_process option \<Rightarrow> time \<Rightarrow> bool option" where
  "ping_target fuel spawned timeout = (case spawned of
     None \<Rightarrow> Some False
   | Some c \<Rightarrow> map_option (\<lambda>(_, killed, status). \<not> killed \<and> status = Some (Some 0))
       (wait_for fuel c (cp_started c + timeout) 0))"

section \<open>The deadline\<close>

text \<open>What is documented of the clock and of \<open>sleep\<close>: the clock does not go back, and sleeping takes at
  least its duration.\<close>

definition clock_ok :: "time \<Rightarrow> child_process \<Rightarrow> bool" where
  "clock_ok gap c = (0 < gap \<and> cp_started c \<le> cp_clock c 0 \<and> (\<forall>k. cp_clock c k + gap \<le> cp_clock c (Suc k)))"

lemma clock_advances: "clock_ok gap c \<Longrightarrow> cp_started c + k * gap \<le> cp_clock c k"
proof (induction k)
  case (Suc k)
  then show ?case using le_trans [of _ "cp_clock c k + gap" "cp_clock c (Suc k)"] by (simp add: clock_ok_def)
qed (simp add: clock_ok_def)

text \<open>The poll at which the loop ends.\<close>

definition last_poll :: "child_process \<Rightarrow> time \<Rightarrow> nat \<Rightarrow> bool" where
  "last_poll c deadline k = (cp_poll c k \<noteq> StillRunning \<or> deadline \<le> cp_clock c k)"

lemma wait_for_result:
  "\<not> last_poll c deadline k \<Longrightarrow> wait_for (Suc fuel) c deadline k = wait_for fuel c deadline (Suc k)"
  "last_poll c deadline k \<Longrightarrow> wait_for (Suc fuel) c deadline k = Some (case cp_poll c k of
     Exited code \<Rightarrow> (k, False, Some code) | _ \<Rightarrow> (k, True, cp_wait c))"
  by (auto simp: last_poll_def split: poll.split)

lemma wait_for_finds:
  assumes "last_poll c deadline n" "\<forall>j. k \<le> j \<and> j < n \<longrightarrow> \<not> last_poll c deadline j" "k \<le> n" "n - k < fuel"
  shows "wait_for fuel c deadline k = Some (case cp_poll c n of
     Exited code \<Rightarrow> (n, False, Some code) | _ \<Rightarrow> (n, True, cp_wait c))"
  using assms(2-)
proof (induction fuel arbitrary: k)
  case (Suc fuel)
  show ?case
  proof (cases "k = n")
    case True
    then show ?thesis using wait_for_result(2) [OF assms(1)] by simp
  next
    case False
    then have "\<not> last_poll c deadline k" using Suc.prems by simp
    moreover have "wait_for fuel c deadline (Suc k) = Some (case cp_poll c n of
        Exited code \<Rightarrow> (n, False, Some code) | _ \<Rightarrow> (n, True, cp_wait c))"
      using Suc.prems False by (intro Suc.IH) auto
    ultimately show ?thesis using wait_for_result(1) by simp
  qed
qed simp

lemma deadline_reached:
  assumes "clock_ok gap c" shows "\<exists>n \<le> timeout div gap + 1. last_poll c (cp_started c + timeout) n"
proof -
  let ?n = "timeout div gap + 1"
  have "0 < gap" using assms by (simp add: clock_ok_def)
  then have "timeout < ?n * gap" using dividend_less_div_times [of gap timeout] by simp
  then have "cp_started c + timeout \<le> cp_clock c ?n" using clock_advances [OF assms, of ?n] by linarith
  then show ?thesis by (auto simp: last_poll_def)
qed

text \<open>How the loop ends, whatever it sleeps between polls.\<close>

lemma wait_for_ends:
  assumes "clock_ok gap c" "timeout div gap + 1 < fuel"
  shows "\<exists>k killed status. wait_for fuel c (cp_started c + timeout) 0 = Some (k, killed, status)
    \<and> k \<le> timeout div gap + 1
    \<and> (\<forall>j < k. cp_poll c j = StillRunning \<and> cp_clock c j < cp_started c + timeout)
    \<and> (killed \<longleftrightarrow> (\<forall>code. cp_poll c k \<noteq> Exited code))
    \<and> (\<forall>code. cp_poll c k = Exited code \<longrightarrow> status = Some code)
    \<and> (killed \<and> cp_poll c k \<noteq> PollFailed \<longrightarrow> cp_started c + timeout \<le> cp_clock c k)"
proof -
  let ?d = "cp_started c + timeout"
  define n where "n = (LEAST n. last_poll c ?d n)"
  obtain m where m: "m \<le> timeout div gap + 1" "last_poll c ?d m" using deadline_reached [OF assms(1)] by blast
  then have n: "last_poll c ?d n" "n \<le> timeout div gap + 1"
    unfolding n_def by (auto intro: LeastI le_trans [OF Least_le])
  have before: "\<not> last_poll c ?d j" if "j < n" for j using that not_less_Least unfolding n_def by blast
  have w: "wait_for fuel c ?d 0 = Some (case cp_poll c n of Exited code \<Rightarrow> (n, False, Some code) | _ \<Rightarrow> (n, True, cp_wait c))"
    using n before assms(2) by (intro wait_for_finds) auto
  obtain killed status where ks: "wait_for fuel c ?d 0 = Some (n, killed, status)"
      "killed \<longleftrightarrow> (\<forall>code. cp_poll c n \<noteq> Exited code)" "\<forall>code. cp_poll c n = Exited code \<longrightarrow> status = Some code"
    using w by (cases "cp_poll c n") auto
  moreover have "cp_poll c j = StillRunning \<and> cp_clock c j < ?d" if "j < n" for j
    using before [OF that] by (simp add: last_poll_def not_le)
  moreover have "killed \<and> cp_poll c n \<noteq> PollFailed \<longrightarrow> ?d \<le> cp_clock c n"
    using ks(2) n(1) by (cases "cp_poll c n") (auto simp: last_poll_def)
  ultimately show ?thesis using n(2) by blast
qed

text \<open>A ping returns, and says reachable exactly when the child was seen to exit with success.\<close>

lemma ping_meets_deadline:
  assumes "clock_ok ping_interval c" "timeout div ping_interval + 1 < fuel"
  shows "\<exists>k \<le> timeout div ping_interval + 1.
    ping_target fuel (Some c) timeout = Some (cp_poll c k = Exited (Some 0))
    \<and> (\<forall>j < k. cp_poll c j = StillRunning \<and> cp_clock c j < cp_started c + timeout)"
proof -
  obtain k killed status where w: "wait_for fuel c (cp_started c + timeout) 0 = Some (k, killed, status)"
      "k \<le> timeout div ping_interval + 1" "\<forall>j < k. cp_poll c j = StillRunning \<and> cp_clock c j < cp_started c + timeout"
      "killed \<longleftrightarrow> (\<forall>code. cp_poll c k \<noteq> Exited code)" "\<forall>code. cp_poll c k = Exited code \<longrightarrow> status = Some code"
    using wait_for_ends [OF assms] by blast
  then have "ping_target fuel (Some c) timeout = Some (cp_poll c k = Exited (Some 0))"
    by (cases "cp_poll c k") (auto simp: ping_target_def)
  then show ?thesis using w by blast
qed


text \<open>A child that never exits, asked for a tenth of a second.\<close>

definition sample_child :: child_process where
  "sample_child = \<lparr>cp_started = 5, cp_poll = (\<lambda>k. StillRunning), cp_clock = (\<lambda>k. 6 + k * 25000000), cp_wait = Some None,
     cp_stdout = Some ''partial'', cp_stderr = Some []\<rparr>"


end
