(* ===== verification/Setup.thy ===== *)
theory Setup
  imports Web
begin

text \<open>
  Setting the stick up, from the browser's request to the next start: the request may arrive in any
  pieces, the settings it holds are stored, and the restarted firmware joins the network with them
  (\<open>provisioning_server\<close>, \<open>read_request\<close>, \<open>start\<close> and \<open>start_station\<close> of \<open>firmware/src/network.rs\<close>,
  and \<open>firmware/src/provisioning.rs\<close>).
\<close>

section \<open>Finding the end of the header\<close>

lemma starts_with_take: "starts_with p (take k s) \<Longrightarrow> starts_with p s"
  by (simp add: starts_with_def) (metis append_take_drop_id length_take min.cobounded1 min.absorb1 nat_le_linear take_all take_take)

lemma starts_with_length: "starts_with p s \<Longrightarrow> length p \<le> length s"
  by (metis starts_with_def length_take min.cobounded1)

lemma find_str_length: "find_str p s = Some i \<Longrightarrow> i + length p \<le> length s"
proof (induction s arbitrary: i)
  case (Cons c s)
  show ?case
  proof (cases "starts_with p (c # s)")
    case True
    then show ?thesis using Cons.prems starts_with_length [OF True] by simp
  next
    case False
    then show ?thesis using Cons by auto
  qed
qed (simp split: if_splits)

text \<open>What is found in a prefix is what is found in the whole.\<close>

lemma find_str_take: "find_str p (take k s) = Some i \<Longrightarrow> find_str p s = Some i"
proof (induction s arbitrary: k i)
  case (Cons c s)
  show ?case
  proof (cases k)
    case (Suc n)
    show ?thesis
    proof (cases "starts_with p (c # take n s)")
      case True
      then have "starts_with p (c # s)" using starts_with_take [of p "Suc n" "c # s"] by simp
      then show ?thesis using Cons.prems Suc True by simp
    next
      case False
      then obtain j where j: "find_str p (take n s) = Some j" "i = Suc j" using Cons.prems Suc by auto
      have "length p \<le> n" using find_str_length [OF j(1)] by simp
      then have "take (length p) (c # take n s) = take (length p) (c # s)" by (cases "length p") (simp_all add: min_def)
      then have "\<not> starts_with p (c # s)" using False by (simp add: starts_with_def)
      then show ?thesis using Cons.IH [OF j(1)] j(2) by simp
    qed
  qed (use Cons.prems in \<open>simp add: starts_with_def split: if_splits\<close>)
qed simp

lemma find_str_first: "find_str p (h @ butlast p) = None \<Longrightarrow> p \<noteq> [] \<Longrightarrow> find_str p (h @ p @ t) = Some (length h)"
proof (induction h)
  case Nil
  then show ?case by (cases p) (simp_all add: starts_with_def)
next
  case (Cons c h)
  have "\<not> starts_with p (c # h @ p @ t)"
  proof
    assume "starts_with p (c # h @ p @ t)"
    then have "take (length p) (c # h @ p @ t) = p" by (simp add: starts_with_def)
    moreover have "take (length p) (c # h @ p @ t) = take (length p) (c # h @ butlast p)"
    proof -
      have "c # h @ p @ t = (c # h @ butlast p) @ last p # t" using Cons.prems(2) by simp
      moreover have "length p \<le> length (c # h @ butlast p)" using Cons.prems(2) by simp
      ultimately show ?thesis by (simp only: take_append diff_is_0_eq' take_0 append_Nil2)
    qed
    ultimately have "starts_with p (c # h @ butlast p)" by (simp add: starts_with_def)
    then show False using Cons.prems(1) by simp
  qed
  then show ?case using Cons by (auto split: if_splits)
qed

section \<open>Reading the request\<close>

definition setup_request :: "string \<Rightarrow> provisioning \<Rightarrow> string" where
  "setup_request header p = header @ header_end_mark @ setup_body p"

text \<open>A header a browser may send: ASCII, ended by the first blank line, with the length of the body.\<close>

definition header_ok :: "string \<Rightarrow> provisioning \<Rightarrow> bool" where
  "header_ok header p = (starts_with ''POST /configure '' header \<and> list_all is_ascii header
     \<and> find_str header_end_mark (header @ butlast header_end_mark) = None
     \<and> content_length header = of_nat (length (setup_body p)))"

lemma form_encode_ascii: "list_all is_ascii (form_encode s)"
  unfolding list_all_iff by (rule ballI, drule form_encode_chars) (auto simp: is_alnum_def is_ascii_def Let_def)

lemma setup_request_ascii: "header_ok header p \<Longrightarrow> list_all is_ascii (setup_request header p)"
  by (simp add: header_ok_def setup_request_def setup_body_def header_end_mark_def form_encode_ascii)
    (simp add: is_ascii_def)

lemma setup_request_first:
  assumes "header_ok header p"
  shows "find_str header_end_mark (setup_request header p) = Some (length header)"
  unfolding setup_request_def
  by (rule find_str_first) (use assms in \<open>simp_all add: header_ok_def header_end_mark_def\<close>)

lemma starts_with_append: "starts_with p s \<Longrightarrow> starts_with p (s @ t)"
  using starts_with_length [of p s] by (simp add: starts_with_def)

lemma of_nat_u32_le: "a < 2 ^ 32 \<Longrightarrow> b < 2 ^ 32 \<Longrightarrow> (of_nat a :: u32) \<le> of_nat b \<longleftrightarrow> a \<le> b"
  by (simp add: word_le_nat_alt unsigned_of_nat take_bit_nat_eq_self)

lemma request_complete_iff:
  assumes "header_ok header p" "length (setup_request header p) < 2 ^ 32"
  shows "request_complete (take k (setup_request header p)) \<longleftrightarrow> length (setup_request header p) \<le> k"
proof -
  let ?r = "setup_request header p"
  let ?b = "take k ?r"
  note first = setup_request_first [OF assms(1)]
  have "list_all is_ascii ?b" using setup_request_ascii [OF assms(1)] by (metis append_take_drop_id list_all_append)
  then have utf8: "from_utf8 ?b = Some ?b" by (simp add: from_utf8_def utf8_valid_ascii)
  have len: "length ?r = length header + 4 + length (setup_body p)" by (simp add: setup_request_def header_end_mark_def)
  show ?thesis
  proof (cases "find_str header_end_mark ?b")
    case None
    then have "\<not> length ?r \<le> k" using first by auto
    then show ?thesis using utf8 None by (simp add: request_complete_def)
  next
    case (Some e)
    then have e: "e = length header" using find_str_take [of header_end_mark k ?r e] first by simp
    moreover have "e \<le> k" using find_str_length [OF Some] by simp
    ultimately have "take e ?b = header" by (simp add: setup_request_def min_def)
    then have "request_complete ?b \<longleftrightarrow> (of_nat (length ?r) :: u32) \<le> of_nat (length ?b)"
      using utf8 Some e assms(1) len by (simp add: request_complete_def header_ok_def)
    then show ?thesis using assms(2) by (simp add: of_nat_u32_le)
  qed
qed

lemma read_request_all:
  assumes "\<And>k. request_complete (take k r) \<longleftrightarrow> length r \<le> k" "length r \<le> capacity"
    and "chunks \<noteq> []" "[] \<notin> set chunks" "buffer @ concat chunks = r"
  shows "read_request capacity buffer (map Some chunks @ rest) = r"
  using assms(3-)
proof (induction chunks arbitrary: buffer)
  case (Cons c chunks)
  have room: "length buffer < capacity" "take (capacity - length buffer) c = c"
    using Cons.prems assms(2) by (cases c; auto)+
  have "c \<noteq> []" using Cons.prems(2) by auto
  have b: "buffer @ c = take (length (buffer @ c)) r" using Cons.prems(3) by auto
  show ?case
  proof (cases "chunks = []")
    case True
    then have "request_complete (buffer @ c)" using assms(1) [of "length r"] Cons.prems(3) by simp
    then show ?thesis using True room Cons.prems by (subst read_request.simps) (simp add: Let_def)
  next
    case False
    then have "length (buffer @ c) < length r" using Cons.prems(2,3) by (cases chunks) auto
    then have "\<not> request_complete (buffer @ c)" using b assms(1) [of "length (buffer @ c)"] by auto
    moreover have "read_request capacity (buffer @ c) (map Some chunks @ rest) = r"
      using Cons.prems False by (intro Cons.IH) simp_all
    ultimately show ?thesis using room \<open>c \<noteq> []\<close> by (subst read_request.simps) (simp add: Let_def)
  qed
qed simp

section \<open>The setup\<close>

definition saved_page :: str where
  "saved_page = write_response ''200 OK'' ''text/html; charset=utf-8''
     ''<h1>Saved</h1><p>Servatory is restarting and will join your Wi-Fi network.</p>''"

lemma serve_setup:
  assumes "header_ok header p" "is_valid p" "utf8_valid (pv_ssid p)" "utf8_valid (pv_password p)"
    and "length (setup_request header p) \<le> 3072" "concat chunks = setup_request header p" "[] \<notin> set chunks"
    and "save_provisioning F P p s = (True, s')"
  shows "serve_provisioning F P topic (map Some chunks @ rest) s = (saved_page, True, s')"
proof -
  let ?r = "setup_request header p"
  have "chunks \<noteq> []" using assms(6) by (auto simp: setup_request_def header_end_mark_def)
  then have read: "read_request 3072 [] (map Some chunks @ rest) = ?r"
    using assms(5-7) by (intro read_request_all request_complete_iff [OF assms(1)]) simp_all
  have utf8: "from_utf8 ?r = Some ?r"
    using setup_request_ascii [OF assms(1)] by (simp add: from_utf8_def utf8_valid_ascii)
  have start: "starts_with ''POST /configure '' ?r"
    using assms(1) unfolding header_ok_def setup_request_def by (blast intro: starts_with_append)
  note first = setup_request_first [OF assms(1)]
  have body: "drop (length header + 4) ?r = setup_body p" by (simp add: setup_request_def header_end_mark_def)
  show ?thesis
    unfolding serve_provisioning_def read utf8 Let_def using start first body parse_setup_body [OF assms(2-4)] assms(8)
    by (simp add: saved_page_def)
qed

text \<open>(C33) Setting the stick up works end to end: however the network cuts the browser's request into
  pieces, the entry it holds is stored and confirmed, and the next start loads exactly that entry,
  joins the network as a station and publishes under its topic.\<close>

theorem setup_completes:
  assumes "flash_ok F" "postcard_settings_ok P" "is_valid p" "utf8_valid (pv_ssid p)" "utf8_valid (pv_password p)"
    and "header_ok header p" "length (setup_request header p) \<le> 3072"
    and "concat chunks = setup_request header p" "[] \<notin> set chunks" "save_provisioning F P p s = (True, s')"
  shows "serve_provisioning F P topic (map Some chunks @ rest) s = (saved_page, True, s')
    \<and> load_settings F P s' = Some \<lparr>ss_provisioning = p, ss_network = None\<rparr>
    \<and> fst (start False (load_settings F P s') n) \<and> sh_topic (ns_state (snd (start False (load_settings F P s') n))) = Some (pv_topic p)"
proof -
  have "load_settings F P s' = Some \<lparr>ss_provisioning = p, ss_network = None\<rparr>"
    using assms(10) by (intro saved_loads [OF assms(1,2)]) (simp add: save_provisioning_def)
  then show ?thesis using serve_setup [OF assms(6,3,4,5,7,8,9,10)] by (simp add: start_def)
qed

definition sample_header :: string where
  "sample_header = ''POST /configure HTTP/1.1'' @ [CHR 0x0D, CHR 0x0A] @ ''Content-Length: 68''"

lemma sample_body_length: "length (setup_body sample_provisioning) = 68"
  by code_simp

lemma sample_content_length: "content_length sample_header = 68"
proof -
  have "lines sample_header = [''POST /configure HTTP/1.1'', ''Content-Length: 68'']"
    by code_simp
  moreover have "split_once (CHR '':'') ''POST /configure HTTP/1.1'' = None"
      "split_once (CHR '':'') ''Content-Length: 68'' = Some (''Content-Length'', '' 68'')"
    by code_simp+
  moreover have "eq_ignore_case ''Content-Length'' ''content-length''" by code_simp
  moreover have "trim '' 68'' = ''68''" by code_simp
  moreover have "parse_word ''68'' = Some (68 :: u32)"
    by (simp add: parse_word_def try_word_def parse_nat_def digits_val_def digit_val_def is_digit_def)
  ultimately show ?thesis by (simp add: content_length_def)
qed

lemma sample_header_ok: "header_ok sample_header sample_provisioning"
proof -
  have "starts_with ''POST /configure '' sample_header" by (simp add: sample_header_def starts_with_def)
  moreover have "list_all is_ascii sample_header" by (simp add: sample_header_def is_ascii_def)
  moreover have "find_str header_end_mark (sample_header @ butlast header_end_mark) = None"
    by (simp add: sample_header_def header_end_mark_def starts_with_def)
  moreover note sample_content_length
  ultimately show ?thesis by (simp add: header_ok_def sample_body_length)
qed

definition sample_request :: string where
  "sample_request = setup_request sample_header sample_provisioning"

theorem setup_completes_witness:
  "serve_provisioning sample_flash sample_postcard ''t'' (map Some [take 10 sample_request, drop 10 sample_request] @ [None]) (0, [])
      = (saved_page, True, 4096, settings_record [7])
    \<and> load_settings sample_flash sample_postcard (4096, settings_record [7])
      = Some \<lparr>ss_provisioning = sample_provisioning, ss_network = None\<rparr>"
proof -
  let ?r = "sample_request" and ?s = "(4096, settings_record [7])"
  have len: "length ?r = 116"
    by (simp add: sample_request_def setup_request_def sample_body_length sample_header_def header_end_mark_def)
  have "concat [take 10 ?r, drop 10 ?r] = ?r" "length ?r \<le> 3072" "[] \<notin> set [take 10 ?r, drop 10 ?r]" using len by auto
  moreover have "save_provisioning sample_flash sample_postcard sample_provisioning (0, []) = (True, ?s)"
    using sample_provisioning_valid
    by (simp add: save_provisioning_def save_def sample_postcard_def sample_flash_def sector_def max_record_len_def)
  moreover have "utf8_valid (pv_ssid sample_provisioning)" "utf8_valid (pv_password sample_provisioning)"
    by (rule utf8_valid_ascii, simp add: sample_provisioning_def is_ascii_def)+
  ultimately show ?thesis
    using setup_completes [OF sample_flash_ok sample_settings_postcard_ok sample_provisioning_valid _ _ sample_header_ok,
        folded sample_request_def, where chunks = "[take 10 ?r, drop 10 ?r]" and s = "(0, [])" and s' = ?s
          and topic = "''t''" and rest = "[None]" and n = "undefined :: (unit, unit) net_statics"]
    by blast
qed

end
