(* ===== verification/Net_Tasks.thy ===== *)
theory Net_Tasks
  imports Web
begin

text \<open>
  The network tasks of the firmware around its radio and network stack
  (\<open>firmware/src/network.rs\<close>): what the start gives the radio and which tasks it spawns
  (\<open>start_station\<close>, \<open>start_provisioning\<close>), one turn of each task's loop (\<open>station_connection\<close>,
  \<open>access_point_connection\<close>, \<open>dhcp_server\<close>, \<open>mdns_responder\<close>, \<open>http_server\<close>), and the HTTP server
  beside the manifest that the main loop may replace at any time. The radio, the stack and the
  servers are crates: what they return is an argument, what they are asked to do is the result.
\<close>

section \<open>The start\<close>

datatype radio_mode =
    StationMode str str bool \<comment> \<open>network name, password, open network\<close>
  | AccessPointMode str

datatype task =
    StationConnection
  | AccessPointConnection
  | NetTask
  | AddressTracker
  | HttpServer
  | MdnsResponder str
  | NotificationWorker
  | ManifestStore provisioning "network_config option"
  | DhcpServer
  | ProvisioningServer str

datatype ip_config = Dhcp str | Static "u8 list" nat

record boot =
  bt_radio :: radio_mode
  bt_ip :: ip_config
  bt_tasks :: "task list"
  bt_display :: "str option" \<comment> \<open>the network name of the provisioning display\<close>

text \<open>\<open>None\<close>: a panic. \<open>dhcp_capacity\<close> is that of the stack's host name, and \<open>radio_ok\<close> tells whether
  the radio starts.\<close>

definition start_station :: "nat \<Rightarrow> bool \<Rightarrow> stored_settings \<Rightarrow> boot option" where
  "start_station dhcp_capacity radio_ok settings = (let p = ss_provisioning settings in
     if length (pv_hostname p) > dhcp_capacity then None
     else if \<not> radio_ok then None
     else Some \<lparr>bt_radio = StationMode (pv_ssid p) (pv_password p) (pv_password p = []), bt_ip = Dhcp (pv_hostname p),
       bt_tasks = [StationConnection, NetTask, AddressTracker, HttpServer, MdnsResponder (pv_hostname p),
         NotificationWorker, ManifestStore p (ss_network settings)], bt_display = None\<rparr>)"

definition provisioning_ip :: "u8 list" where
  "provisioning_ip = [192, 168, 4, 1]"

text \<open>The format \<open>{:04X}\<close> of a \<open>u16\<close>.\<close>

definition hex4_upper :: "u16 \<Rightarrow> str" where
  "hex4_upper w = map (\<lambda>i. hex_digit (unat w div 16 ^ i mod 16)) (rev [0..<4])"

text \<open>\<open>heapless::String::push_str\<close> with its error ignored: all of the text or nothing.\<close>

definition push_ok :: "nat \<Rightarrow> str \<Rightarrow> str" where
  "push_ok capacity s = (if length s \<le> capacity then s else [])"

definition start_provisioning :: "bool \<Rightarrow> u64 \<Rightarrow> str \<Rightarrow> boot option" where
  "start_provisioning radio_ok seed ntfy_topic = (let ssid = ''Servatory-'' @ hex4_upper (ucast seed) in
     if \<not> radio_ok then None
     else Some \<lparr>bt_radio = AccessPointMode ssid, bt_ip = Static provisioning_ip 24,
       bt_tasks = [AccessPointConnection, NetTask, DhcpServer, ProvisioningServer ntfy_topic],
       bt_display = Some (push_ok 32 ssid)\<rparr>)"

text \<open>\<open>start\<close> as a whole: the settings in flash unless the button is held, and the random numbers for
  the seed and for a topic.\<close>

definition boot_network ::
  "nat \<Rightarrow> bool \<Rightarrow> 's flash_api \<Rightarrow> postcard_settings \<Rightarrow> bool \<Rightarrow> u32 \<times> u32 \<Rightarrow> u32 \<times> u32 \<times> u32 \<times> u32 \<Rightarrow> 's
   \<Rightarrow> ('m, 't) net_statics \<Rightarrow> (boot \<times> ('m, 't) net_statics) option" where
  "boot_network dhcp_capacity radio_ok F P force seeds topics s n = (let
       saved = (if force then None else load_settings F P s);
       (station, n') = start force saved n;
       seed = push_bit 32 (ucast (fst seeds)) OR ucast (snd seeds)
     in map_option (\<lambda>b. (b, n')) (case saved of
          Some settings \<Rightarrow> start_station dhcp_capacity radio_ok settings
        | None \<Rightarrow> (case topics of (a, b, c, d) \<Rightarrow> start_provisioning radio_ok seed (random_ntfy_topic a b c d))))"

section \<open>One turn of each task\<close>

text \<open>What a turn awaits, in order.\<close>

datatype await =
    Sleep time
  | AwaitConnected
  | AwaitDisconnected
  | AwaitStation
  | AwaitConfigUp
  | AwaitConfigDown
  | AwaitServer \<comment> \<open>a server that runs until its socket fails\<close>

definition station_connection :: "bool \<Rightarrow> await list" where
  "station_connection is_ok =
     AwaitConnected # (if is_ok then [AwaitDisconnected] else []) @ [Sleep (sec_us 5)]"

definition access_point_connection :: "await list" where
  "access_point_connection = [AwaitStation, Sleep (sec_us 1)]"

definition dhcp_server :: "await list" where
  "dhcp_server = [AwaitServer, Sleep (milli_us 500)]"

text \<open>The stack may be up without an address; then the turn ends at once. The server's end and the
  loss of the configuration race.\<close>

datatype mdns_end = ServerEnded | ConfigLost

definition mdns_responder :: "u8 list option \<Rightarrow> bool \<Rightarrow> mdns_end \<Rightarrow> await list" where
  "mdns_responder address bound ended = AwaitConfigUp # (case address of
     None \<Rightarrow> []
   | Some ipv4 \<Rightarrow> if \<not> bound then [Sleep (sec_us 1)]
       else (case ended of ServerEnded \<Rightarrow> [AwaitServer, Sleep (sec_us 1)] | ConfigLost \<Rightarrow> [AwaitConfigDown]))"

text \<open>The name and the address the responder answers with.\<close>

definition mdns_answers :: "str \<Rightarrow> u8 list option \<Rightarrow> bool \<Rightarrow> (str \<times> u8 list) option" where
  "mdns_answers hostname address bound = (case address of
     Some ipv4 \<Rightarrow> if bound then Some (hostname, ipv4) else None | None \<Rightarrow> None)"

definition http_server :: "shared_state \<Rightarrow> bool \<Rightarrow> await list" where
  "http_server st bound = (case http_listen st of
     None \<Rightarrow> [Sleep (sec_us 1)]
   | Some port \<Rightarrow> if \<not> bound then [Sleep (sec_us 1)] else [AwaitServer, Sleep (sec_us 1)])"

text \<open>Every turn gives the processor away, the mDNS task's when the stack is up with an address: a
  cooperative scheduler starves no task.\<close>

definition gives_way :: "await \<Rightarrow> bool" where
  "gives_way a = (case a of Sleep d \<Rightarrow> 0 < d | AwaitConfigUp \<Rightarrow> False | _ \<Rightarrow> True)"

lemma tasks_give_way:
  "list_ex gives_way (station_connection is_ok)" "list_ex gives_way access_point_connection"
  "list_ex gives_way dhcp_server" "list_ex gives_way (http_server st bound)"
  "list_ex gives_way (mdns_responder (Some ipv4) bound ended)"
  by (auto simp: station_connection_def access_point_connection_def dhcp_server_def http_server_def
      mdns_responder_def gives_way_def sec_us_def milli_us_def split: option.split mdns_end.split)

section \<open>The HTTP server beside the main loop\<close>

datatype http_phase = Looking | Serving u16 | Pausing

definition listened :: "('m, 't) net_statics \<Rightarrow> u16 list" where
  "listened n = (case http_listen (ns_state n) of None \<Rightarrow> [] | Some port \<Rightarrow> [port])"

text \<open>All runs of the server's loop while manifests come in and other tasks change what is not theirs;
  the last argument is the ports that manifests have enabled so far, the newest first.\<close>

inductive http_system :: "('m, network_config) channel_api \<Rightarrow> ('m, 't) net_statics
    \<Rightarrow> ('m, 't) net_statics \<Rightarrow> http_phase \<Rightarrow> u16 list \<Rightarrow> bool" for C n0 where
  Begin: "http_system C n0 n0 Looking (listened n0)"
| Manifest: "http_system C n0 n ph ps
    \<Longrightarrow> http_system C n0 (update_manifest C m n) ph (listened (update_manifest C m n) @ ps)"
| Other: "http_system C n0 n ph ps \<Longrightarrow> sh_manifest (ns_state n') = sh_manifest (ns_state n) \<Longrightarrow> ns_port n' = ns_port n
    \<Longrightarrow> http_system C n0 n' ph ps"
| Serve: "http_system C n0 n Looking ps \<Longrightarrow> http_listen (ns_state n) = Some port \<Longrightarrow> http_system C n0 n (Serving port) ps"
| NotBound: "http_system C n0 n Looking ps \<Longrightarrow> http_system C n0 n Pausing ps"
| Ended: "http_system C n0 n (Serving port) ps \<Longrightarrow> http_system C n0 n Pausing ps"
| Slept: "http_system C n0 n Pausing ps \<Longrightarrow> http_system C n0 n Looking ps"

section \<open>Booting\<close>

lemma loaded_valid: "load_settings F P s = Some v \<Longrightarrow> is_valid (ss_provisioning v)"
  by (auto simp: load_settings_def Let_def bind_eq_Some_conv split: if_splits)

lemma hex4_upper_class: "length (hex4_upper w) = 4" "list_all is_alnum (hex4_upper w)"
  by (simp_all add: hex4_upper_def list_all_iff hex_digit_alnum)

text \<open>(C32) The stick always starts: whatever the flash holds, valid settings or bytes of any kind, no
  check of the start fails once the radio works. With settings it joins exactly the stored network,
  asking for no password only when none is stored, with the stored host name for DHCP and mDNS;
  without them, or with the button held, it opens a network of its own whose name, fifteen
  characters or fewer, is exactly the one the screen shows, and offers a topic that is valid.\<close>

theorem stick_always_starts:
  assumes "32 \<le> dhcp_capacity"
  shows "\<exists>b n'. boot_network dhcp_capacity True F P force seeds topics s n = Some (b, n') \<and>
    (case (if force then None else load_settings F P s) of
       Some v \<Rightarrow> is_valid (ss_provisioning v)
         \<and> bt_radio b = StationMode (pv_ssid (ss_provisioning v)) (pv_password (ss_provisioning v)) (pv_password (ss_provisioning v) = [])
         \<and> bt_ip b = Dhcp (pv_hostname (ss_provisioning v)) \<and> MdnsResponder (pv_hostname (ss_provisioning v)) \<in> set (bt_tasks b)
         \<and> bt_display b = None \<and> sh_topic (ns_state n') = Some (pv_topic (ss_provisioning v))
     | None \<Rightarrow> \<exists>ssid topic. bt_radio b = AccessPointMode ssid \<and> bt_display b = Some ssid
         \<and> ssid \<noteq> [] \<and> length ssid \<le> 15 \<and> ProvisioningServer topic \<in> set (bt_tasks b) \<and> n' = n
         \<and> (\<forall>p. is_valid p \<longrightarrow> is_valid (p\<lparr>pv_topic := topic\<rparr>)))"
proof (cases "if force then None else load_settings F P s")
  case None
  then show ?thesis
    by (auto simp: boot_network_def start_def start_provisioning_def Let_def push_ok_def hex4_upper_class
        random_topic_valid split: prod.split)
next
  case (Some v)
  then have "is_valid (ss_provisioning v)" using loaded_valid by (metis option.distinct(1))
  moreover from this have "\<not> dhcp_capacity < length (pv_hostname (ss_provisioning v))"
    using assms by (simp add: is_valid_def)
  ultimately show ?thesis using Some by (auto simp: boot_network_def start_def start_station_def Let_def split: if_splits)
qed

theorem stick_always_starts_witness:
  "\<exists>b n'. boot_network 32 True sample_flash sample_postcard False (1, 2) (3, 4, 5, 6) (0, []) (undefined :: (unit, unit) net_statics) = Some (b, n')"
  using stick_always_starts [of 32 sample_flash sample_postcard False "(1, 2)" "(3, 4, 5, 6)" "(0, [])" "undefined :: (unit, unit) net_statics"]
  by auto

section \<open>The port\<close>

text \<open>The port the screen shows is always the one the manifest asks for, and whatever port the HTTP
  server serves was enabled by some manifest, though not always by the last.\<close>

lemma http_port_follows_manifest:
  assumes "http_system C n0 n ph ps" "http_listen (ns_state n0) = ns_port n0"
  shows "http_listen (ns_state n) = ns_port n \<and> set (listened n) \<subseteq> set ps
    \<and> (\<forall>port. ph = Serving port \<longrightarrow> port \<in> set ps)"
  using assms
proof (induction rule: http_system.induct)
  case (Manifest n ph ps m)
  then show ?case using http_follows_manifest [of C m n] by auto
next
  case (Other n ph ps n')
  moreover have "http_listen (ns_state n') = http_listen (ns_state n)" using Other.hyps by (simp add: http_listen_def)
  moreover from this have "listened n' = listened n" by (simp add: listened_def)
  ultimately show ?case by simp
next
  case (Serve n ps port)
  then have "port \<in> set (listened n)" by (simp add: listened_def)
  then show ?case using Serve by auto
qed auto

text \<open>A server that is serving goes on serving the old port when the port changes.\<close>

definition web_on :: "u16 \<Rightarrow> network_config" where
  "web_on port = \<lparr>net_http = http_config_new True ''stick'' port [], net_ntfy = sample_ntfy\<rparr>"

definition no_channel :: "(unit, network_config) channel_api" where
  "no_channel = \<lparr>ch_try_send = (\<lambda>c m. Inr ()), ch_try_receive = (\<lambda>c. None)\<rparr>"

definition web_statics :: "(unit, unit) net_statics" where
  "web_statics = \<lparr>ns_state = shared_new\<lparr>sh_manifest := Some (web_on 80)\<rparr>, ns_port = Some 80, ns_station = None,
     ns_manifests = (), ns_topics = ()\<rparr>"

lemma http_keeps_old_port:
  "http_system no_channel web_statics (update_manifest no_channel (web_on 8080) web_statics) (Serving 80) [8080, 80]
     \<and> ns_port (update_manifest no_channel (web_on 8080) web_statics) = Some 8080"
proof -
  have listen: "http_listen (ns_state web_statics) = Some 80" "listened web_statics = [80]"
    by (simp_all add: http_listen_def listened_def web_statics_def web_on_def http_config_new_def)
  have "http_system no_channel web_statics web_statics (Serving 80) [80]"
    using http_system.Serve [OF http_system.Begin [of no_channel web_statics] listen(1)] by (simp add: listen(2))
  from http_system.Manifest [OF this, of "web_on 8080"] show ?thesis
    by (simp add: update_manifest_def set_web_server_def listened_def http_listen_def web_statics_def web_on_def
        http_config_new_def Let_def)
qed

lemma http_port_follows_manifest_example:
  "\<exists>n. http_system no_channel web_statics n (Serving 80) [8080, 80] \<and> http_listen (ns_state n) = ns_port n"
  using http_keeps_old_port http_port_follows_manifest [of no_channel web_statics _ "Serving 80" "[8080, 80]"]
  by (fastforce simp: http_listen_def web_statics_def web_on_def http_config_new_def)

end
