(* ===== verification/Build_Checks.thy ===== *)
theory Build_Checks
  imports Web Measure Screen_Text
begin

text \<open>
  What the build decides before the firmware exists: the checks of the dashboard sources
  (\<open>firmware/build-checks.rs\<close>) and the build version (\<open>build-support.rs\<close>) that the device shows,
  sends and puts into its JSON documents as it is. Files and the output of \<open>git\<close> are arguments; a
  file read as bytes is a string, a character a byte.
\<close>

section \<open>The dashboard checks\<close>

definition max_dashboard_css_bytes :: nat where
  "max_dashboard_css_bytes = 16 * 1024"

definition max_dashboard_js_bytes :: nat where
  "max_dashboard_js_bytes = 4 * 1024"

definition check_limit :: "str \<Rightarrow> nat \<Rightarrow> nat \<Rightarrow> str + unit" where
  "check_limit name actual maximum = (if actual > maximum
     then Inl (name @ '' is '' @ dec actual @ '' bytes; firmware build limit is '' @ dec maximum @ '' bytes'')
     else Inr ())"

text \<open>\<open>slice::windows(n)\<close>.\<close>

definition windows :: "nat \<Rightarrow> string \<Rightarrow> string list" where
  "windows n s = map (\<lambda>i. take n (drop i s)) [0..<Suc (length s) - n]"

definition quoted :: "str \<Rightarrow> str" where
  "quoted s = [CHR 0x22] @ s @ [CHR 0x22]"

definition forbidden_sources :: "str list" where
  "forbidden_sources = [
     ''concat!('' @ quoted ''<style>'' @ '', include_str!('' @ quoted ''dashboard.css'' @ '')'',
     ''concat!('' @ quoted ''<script>'' @ '', include_str!('' @ quoted ''dashboard.js'' @ '')'',
     ''html.push_str(DASHBOARD_STYLE)'',
     ''html.push_str(DASHBOARD_SCRIPT)'']"

definition required_sources :: "str list" where
  "required_sources = [''href=/dashboard.css'', ''src=/dashboard.js'', ''data-snapshot-age'',
     ''DASHBOARD_BODY_CAPACITY'', ''DASHBOARD_RESPONSE.lock().await'']"

definition required_script :: "str list" where
  "required_script = [''function updateSnapshotAge()'', ''setInterval(updateSnapshotAge, 1000)'', ''refreshFailed = true'']"

definition backquoted :: "str \<Rightarrow> str" where
  "backquoted s = [CHR 0x60] @ s @ [CHR 0x60]"

definition validate_dashboard :: "str \<Rightarrow> string \<Rightarrow> string \<Rightarrow> str + unit" where
  "validate_dashboard network css javascript =
     and_then (check_limit ''dashboard.css'' (length css) max_dashboard_css_bytes) (\<lambda>_.
     and_then (check_limit ''dashboard.js'' (length javascript) max_dashboard_js_bytes) (\<lambda>_.
     and_then (each (\<lambda>forbidden. ensure (\<not> contains_str forbidden network)
         (''firmware dashboard assets must be served as static responses; '' @ backquoted forbidden
            @ '' would charge them to the constrained runtime heap'')) forbidden_sources) (\<lambda>_.
     and_then (each (\<lambda>required. ensure (contains_str required network)
         (''firmware dashboard memory invariant is missing '' @ backquoted required)) required_sources) (\<lambda>_.
     each (\<lambda>required. ensure (list_ex (\<lambda>window. window = required) (windows (length required) javascript))
         (''firmware dashboard freshness invariant is missing '' @ backquoted required)) required_script))))"

lemma windows_find: "p \<noteq> [] \<Longrightarrow> list_ex (\<lambda>w. w = p) (windows (length p) s) \<longleftrightarrow> contains_str p s"
proof (induction s)
  case Nil
  then show ?case by (cases p) (auto simp: windows_def contains_str_def)
next
  case (Cons c s)
  show ?case
  proof (cases "length p \<le> Suc (length s)")
    case True
    then have "windows (length p) (c # s) = take (length p) (c # s) # windows (length p) s"
      by (simp only: windows_def length_Cons Suc_diff_le [OF True] map_upt_Suc) simp
    then show ?thesis using Cons by (auto simp: contains_str_def starts_with_def)
  next
    case False
    then have "windows (length p) (c # s) = []" "windows (length p) s = []" by (simp_all add: windows_def)
    moreover have "\<not> starts_with p (c # s)" using False by (auto simp: starts_with_def)
    ultimately show ?thesis using Cons by (auto simp: contains_str_def)
  qed
qed

text \<open>A build that passes serves both assets from flash, within their limits, and keeps the markers of
  the memory and freshness invariants.\<close>

lemma validate_dashboard_accepts:
  "validate_dashboard network css javascript = Inr () \<longleftrightarrow>
     length css \<le> 16384 \<and> length javascript \<le> 4096
     \<and> list_all (\<lambda>p. \<not> contains_str p network) forbidden_sources
     \<and> list_all (\<lambda>p. contains_str p network) required_sources
     \<and> list_all (\<lambda>p. contains_str p javascript) required_script"
proof -
  have "[] \<notin> set required_script" by (simp add: required_script_def)
  then have "list_all (\<lambda>p. list_ex (\<lambda>w. w = p) (windows (length p) javascript)) required_script
      = list_all (\<lambda>p. contains_str p javascript) required_script"
    unfolding list_all_iff using windows_find by (metis (no_types, lifting))
  then show ?thesis
    by (auto simp: validate_dashboard_def check_limit_def max_dashboard_css_bytes_def max_dashboard_js_bytes_def
        and_then_eq_Inr each_Inr list_all_iff)
qed

section \<open>The build version\<close>

definition git_is_dirty :: "cmd_output option \<Rightarrow> bool" where
  "git_is_dirty status = is_some_and (\<lambda>out. co_success out \<and> co_stdout out \<noteq> []) status"

definition git_revision :: "cmd_output option \<Rightarrow> str option" where
  "git_revision rev_parse = do {
     out \<leftarrow> rev_parse;
     (if \<not> co_success out then None else do {
       text \<leftarrow> from_utf8 (co_stdout out);
       let revision = trim text;
       (if revision \<noteq> [] \<and> list_all (\<lambda>c. hex_val c \<noteq> None) revision then Some revision else None) }) }"

definition build_version :: "str \<Rightarrow> cmd_output option \<Rightarrow> cmd_output option \<Rightarrow> str" where
  "build_version package rev_parse status = package @ ''+g'' @ unwrap_or ''unknown'' (git_revision rev_parse)
     @ (if git_is_dirty status then ''.dirty'' else [])"

text \<open>The lines Cargo reads: what to watch, the branch that \<open>HEAD\<close> refers to included, and the version.\<close>

definition path_join :: "str \<Rightarrow> str \<Rightarrow> str" where
  "path_join d f = (if starts_with ''/'' f then f else if d = [] \<or> last d = CHR ''/'' then d @ f else d @ ''/'' @ f)"

definition watch_git_revision :: "str \<Rightarrow> str list \<Rightarrow> str option \<Rightarrow> str list" where
  "watch_git_revision repository extra_watch_paths head =
     map (\<lambda>path. ''cargo:rerun-if-changed='' @ path_join repository path)
       ([''.git/HEAD'', ''.git/packed-refs'', ''protocol/src''] @ extra_watch_paths)
     @ (case Option.bind head (\<lambda>value. strip_prefix ''ref: '' (trim value)) of
          Some reference \<Rightarrow> [''cargo:rerun-if-changed='' @ path_join (path_join repository ''.git'') reference]
        | None \<Rightarrow> [])"

definition emit_build_version :: "str \<Rightarrow> str list \<Rightarrow> str option \<Rightarrow> str \<Rightarrow> cmd_output option \<Rightarrow> cmd_output option \<Rightarrow> str list" where
  "emit_build_version repository extra_watch_paths head package rev_parse status =
     watch_git_revision repository extra_watch_paths head
     @ [''cargo:rustc-env=SERVATORY_BUILD_VERSION='' @ build_version package rev_parse status]"

text \<open>A text that needs no escape in JSON: no quotes, backslashes or control characters.\<close>

definition json_plain :: "str \<Rightarrow> bool" where
  "json_plain s = list_all (\<lambda>c. c \<noteq> CHR 0x22 \<and> c \<noteq> CHR 0x5C \<and> \<not> of_char c < (32 :: nat)) s"

lemma read_json_plain: "json_plain s \<Longrightarrow> read_json_string (s @ CHR 0x22 # r) = Some (s, r)"
  by (induction s) (auto simp: json_plain_def)

lemma hex_plain: "hex_val c \<noteq> None \<Longrightarrow> c \<noteq> CHR 0x22 \<and> c \<noteq> CHR 0x5C \<and> \<not> of_char c < (32 :: nat) \<and> c \<noteq> CHR ''+''"
  by (auto simp: hex_val_def Let_def split: if_splits)

lemma git_revision_plain: "git_revision out = Some r \<Longrightarrow> json_plain r"
  using hex_plain by (fastforce simp: git_revision_def bind_eq_Some_conv json_plain_def list_all_iff Let_def split: if_splits)

text \<open>The build version can be embedded: whatever \<open>git\<close> printed, or did not, the version of a package
  whose own version needs no escapes needs none either, so a client of the device document reads
  back exactly the version that was built, and the short form the screen shows is the package's.\<close>

lemma build_version_readable:
  assumes "json_plain package" "CHR ''+'' \<notin> set package"
  shows "\<exists>rest. read_json_string (drop 13 (device_json (build_version package rev_parse status) now st))
      = Some (build_version package rev_parse status, rest)
    \<and> short_version (build_version package rev_parse status) = package"
proof -
  let ?v = "build_version package rev_parse status"
  have "json_plain (unwrap_or ''unknown'' (git_revision rev_parse))"
    using git_revision_plain by (cases "git_revision rev_parse") (auto simp: json_plain_def)
  then have "json_plain ?v" using assms(1) by (auto simp: build_version_def json_plain_def)
  moreover have "\<exists>r. drop 13 (device_json ?v now st) = ?v @ CHR 0x22 # r" by (simp add: device_json_def Let_def)
  ultimately have "\<exists>rest. read_json_string (drop 13 (device_json ?v now st)) = Some (?v, rest)"
    using read_json_plain by metis
  moreover have "short_version ?v = package"
    using assms(2) unfolding short_version_def build_version_def
    by (subst takeWhile_append2) auto
  ultimately show ?thesis by blast
qed

definition sample_git :: "str \<Rightarrow> cmd_output option" where
  "sample_git out = Some \<lparr>co_code = Some 0, co_stdout = out, co_stderr = []\<rparr>"

lemma sample_build_version:
  "build_version ''0.3.1'' (sample_git (''0a1b2c3d4e'' @ [CHR 0x0A])) (sample_git ''M'') = ''0.3.1+g0a1b2c3d4e.dirty''"
  by code_simp

lemma build_version_readable_example:
  "\<exists>rest. read_json_string (drop 13 (device_json ''0.3.1+g0a1b2c3d4e.dirty'' 5 shared_new))
      = Some (''0.3.1+g0a1b2c3d4e.dirty'', rest) \<and> short_version ''0.3.1+g0a1b2c3d4e.dirty'' = ''0.3.1''"
  using build_version_readable [of "''0.3.1''" "sample_git (''0a1b2c3d4e'' @ [CHR 0x0A])" "sample_git ''M''" 5 shared_new]
  unfolding sample_build_version by (simp add: json_plain_def)

end
