(* ===== verification/Health_Slot.thy ===== *)
theory Health_Slot
  imports Probe "HOL-Library.Sublist"
begin

text \<open>
  How the daemon's main loop gets its measurements (\<open>spawn_health_collector\<close> and
  \<open>take_latest_health\<close> of \<open>host/src/main.rs\<close>): a thread collects a snapshot, puts it into a slot behind
  a mutex and sleeps; the main loop takes what is there when an update is due. The two run in any
  order. A lock that a panic poisoned ends the thread and hides the slot, as in the code.
\<close>

section \<open>The slot\<close>

record slot =
  sl_latest :: "health_snapshot option"
  sl_poisoned :: bool

text \<open>One round of the thread, up to its sleep; \<open>None\<close>: it returns.\<close>

definition collector_round :: "health_snapshot \<Rightarrow> slot \<Rightarrow> slot option" where
  "collector_round snapshot s = (if sl_poisoned s then None else Some (s\<lparr>sl_latest := Some snapshot\<rparr>))"

definition take_latest_health :: "slot \<Rightarrow> health_snapshot option \<times> slot" where
  "take_latest_health s = (if sl_poisoned s then (None, s) else (sl_latest s, s\<lparr>sl_latest := None\<rparr>))"

definition slot_new :: slot where
  "slot_new = \<lparr>sl_latest = None, sl_poisoned = False\<rparr>"

text \<open>All interleavings, with what was collected and what was taken, oldest first.\<close>

inductive slot_system :: "slot \<Rightarrow> health_snapshot list \<Rightarrow> health_snapshot list \<Rightarrow> bool" where
  Spawned: "slot_system slot_new [] []"
| Collected: "slot_system s collected taken \<Longrightarrow> collector_round snapshot s = Some s'
    \<Longrightarrow> slot_system s' (collected @ [snapshot]) taken"
| Taken: "slot_system s collected taken \<Longrightarrow> take_latest_health s = (Some snapshot, s')
    \<Longrightarrow> slot_system s' collected (taken @ [snapshot])"
| NothingThere: "slot_system s collected taken \<Longrightarrow> take_latest_health s = (None, s') \<Longrightarrow> slot_system s' collected taken"
| Poisoned: "slot_system s collected taken \<Longrightarrow> slot_system (s\<lparr>sl_poisoned := True\<rparr>) collected taken"

section \<open>Order\<close>

lemma collector_round_Some: "collector_round snapshot s = Some s' \<longleftrightarrow> \<not> sl_poisoned s \<and> s' = s\<lparr>sl_latest := Some snapshot\<rparr>"
  by (auto simp: collector_round_def)

lemma take_latest_Some:
  "take_latest_health s = (Some snapshot, s') \<longleftrightarrow> \<not> sl_poisoned s \<and> sl_latest s = Some snapshot \<and> s' = s\<lparr>sl_latest := None\<rparr>"
  by (auto simp: take_latest_health_def)

lemma take_latest_None: "take_latest_health s = (None, s') \<Longrightarrow> s' = s"
  by (cases s) (auto simp: take_latest_health_def split: if_splits)

lemma subseq_snoc: "subseq xs ys \<Longrightarrow> subseq (xs @ [y]) (ys @ [y])"
  by (simp add: list_emb_append_mono)

text \<open>(C39) The main loop gets the measurements in order and at most once: what it took is a subsequence
  of what was collected; a snapshot that waits is the newest one, and what was taken before it is a
  subsequence of what was collected before it, so nothing older is ever taken after it; and when
  nothing waits and something was taken, the last taken is the newest collected.\<close>

theorem snapshots_in_order:
  assumes "slot_system s collected taken"
  shows "subseq taken collected
    \<and> (\<forall>snapshot. sl_latest s = Some snapshot \<longrightarrow> (\<exists>before. collected = before @ [snapshot] \<and> subseq taken before))
    \<and> (sl_latest s = None \<longrightarrow> (taken = [] \<and> collected = []) \<or> (taken \<noteq> [] \<and> last taken = last collected \<and> collected \<noteq> []))"
  using assms
proof (induction rule: slot_system.induct)
  case (Collected s collected taken snapshot s')
  then show ?case by (auto simp: collector_round_Some intro: list_emb_append2)
next
  case (Taken s collected taken snapshot s')
  then obtain before where "collected = before @ [snapshot]" "subseq taken before" "s' = s\<lparr>sl_latest := None\<rparr>"
    by (auto simp: take_latest_Some)
  then show ?case by (auto intro: subseq_snoc)
next
  case (NothingThere s collected taken s')
  have "s' = s" by (rule take_latest_None) fact
  then show ?case using NothingThere.IH by simp
qed (auto simp: slot_new_def)

definition slot_snapshot :: "nat \<Rightarrow> health_snapshot" where
  "slot_snapshot cpu = snapshot_new ''pve'' 0 (of_nat cpu) 0 0 0 0 [] NoJob None True 1000 ''eth0'' Reachable None [10, 0, 0, 2] []
     ups_not_configured []"

text \<open>Two rounds before the main loop looks: the first snapshot is never seen.\<close>

theorem snapshots_in_order_witness:
  "slot_system slot_new [slot_snapshot 1, slot_snapshot 2] [slot_snapshot 2]
   \<and> subseq [slot_snapshot 2] [slot_snapshot 1, slot_snapshot 2]"
proof -
  have "slot_system (slot_new\<lparr>sl_latest := Some (slot_snapshot 1)\<rparr>) ([] @ [slot_snapshot 1]) []"
    by (rule slot_system.Collected [OF slot_system.Spawned]) (simp add: collector_round_def slot_new_def)
  then have "slot_system (slot_new\<lparr>sl_latest := Some (slot_snapshot 2)\<rparr>) (([] @ [slot_snapshot 1]) @ [slot_snapshot 2]) []"
    by (rule slot_system.Collected) (simp add: collector_round_def slot_new_def)
  then have "slot_system slot_new (([] @ [slot_snapshot 1]) @ [slot_snapshot 2]) ([] @ [slot_snapshot 2])"
    by (rule slot_system.Taken) (simp add: take_latest_health_def slot_new_def)
  from snapshots_in_order [OF this] this show ?thesis by simp
qed

end
