(* ===== verification/Board.thy ===== *)
theory Board
  imports Frame_Buffer Dashboard_Buffer
begin

text \<open>
  The board under the firmware: the power rail of the display behind the power management chip
  (\<open>enable_lcd_power\<close> and \<open>update_m5pm1_bits\<close> of \<open>firmware/src/main.rs\<close>), and the division of the
  memory (\<open>firmware/src/memory.rs\<close> and the assertion of \<open>firmware/src/network.rs\<close>). The I2C driver is a
  parameter, a record of its two transactions on a bus.
\<close>

unbundle bit_operations_syntax

section \<open>The power rail\<close>

text \<open>Write then read a number of bytes; write. Both at an address.\<close>

record ('b, 'e) i2c_api =
  i2c_write_read :: "u8 \<Rightarrow> u8 list \<Rightarrow> nat \<Rightarrow> 'b \<Rightarrow> ('e + u8 list) \<times> 'b"
  i2c_write :: "u8 \<Rightarrow> u8 list \<Rightarrow> 'b \<Rightarrow> ('e + unit) \<times> 'b"

definition m5pm1_address :: u8 where
  "m5pm1_address = 0x6e"

definition m5pm1_gpio2_mask :: u8 where
  "m5pm1_gpio2_mask = push_bit 2 1"

definition update_m5pm1_bits :: "('b, 'e) i2c_api \<Rightarrow> u8 \<Rightarrow> u8 \<Rightarrow> bool \<Rightarrow> 'b \<Rightarrow> ('e + unit) \<times> 'b" where
  "update_m5pm1_bits I register pins up b = (case i2c_write_read I m5pm1_address [register] 1 b of
     (Inl e, b') \<Rightarrow> (Inl e, b')
   | (Inr bytes, b') \<Rightarrow> let v = hd bytes in
       i2c_write I m5pm1_address [register, if up then v OR pins else v AND NOT pins] b')"

text \<open>The \<open>?\<close> between two operations.\<close>

definition and_next :: "('b \<Rightarrow> ('e + unit) \<times> 'b) \<Rightarrow> ('b \<Rightarrow> ('e + unit) \<times> 'b) \<Rightarrow> 'b \<Rightarrow> ('e + unit) \<times> 'b" where
  "and_next m k b = (case m b of (Inl e, b') \<Rightarrow> (Inl e, b') | (Inr u, b') \<Rightarrow> k b')"

definition enable_lcd_power :: "('b, 'e) i2c_api \<Rightarrow> 'b \<Rightarrow> ('e + unit) \<times> 'b" where
  "enable_lcd_power I =
     and_next (update_m5pm1_bits I 0x16 m5pm1_gpio2_mask False)
       (and_next (update_m5pm1_bits I 0x10 m5pm1_gpio2_mask True)
         (and_next (update_m5pm1_bits I 0x13 m5pm1_gpio2_mask False)
           (and_next (update_m5pm1_bits I 0x11 m5pm1_gpio2_mask True)
             (i2c_write I m5pm1_address [0x09, 0x00]))))"

text \<open>What is documented of a chip with registers: a transaction that succeeds reads the register, or
  writes that one.\<close>

definition registers_ok :: "('b, 'e) i2c_api \<Rightarrow> ('b \<Rightarrow> u8 \<Rightarrow> u8) \<Rightarrow> bool" where
  "registers_ok I reg =
     ((\<forall>r b bytes b'. i2c_write_read I m5pm1_address [r] 1 b = (Inr bytes, b') \<longrightarrow> bytes = [reg b r] \<and> reg b' = reg b)
      \<and> (\<forall>r v b b'. i2c_write I m5pm1_address [r, v] b = (Inr (), b') \<longrightarrow> reg b' = (reg b)(r := v)))"

lemma update_bits_effect:
  assumes "registers_ok I reg" "update_m5pm1_bits I r pins up b = (Inr (), b')"
  shows "reg b' = (reg b)(r := if up then reg b r OR pins else reg b r AND NOT pins)"
proof -
  obtain bytes b1 where r: "i2c_write_read I m5pm1_address [r] 1 b = (Inr bytes, b1)"
      "i2c_write I m5pm1_address [r, if up then hd bytes OR pins else hd bytes AND NOT pins] b1 = (Inr (), b')"
    using assms(2) by (auto simp: update_m5pm1_bits_def Let_def split: prod.splits sum.splits)
  moreover have "bytes = [reg b r]" "reg b1 = reg b" using assms(1) r(1) unfolding registers_ok_def by blast+
  moreover have "reg b' = (reg b1)(r := if up then hd bytes OR pins else hd bytes AND NOT pins)"
    using assms(1) r(2) unfolding registers_ok_def by blast
  ultimately show ?thesis by simp
qed

lemma and_next_Inr: "and_next m k b = (Inr (), b') \<Longrightarrow> \<exists>b1. m b = (Inr (), b1) \<and> k b1 = (Inr (), b')"
  by (auto simp: and_next_def split: prod.splits sum.splits)

text \<open>The pin that a mask names.\<close>

lemma gpio2_bit: "bit m5pm1_gpio2_mask n \<longleftrightarrow> n = 2"
  unfolding m5pm1_gpio2_mask_def bit_push_bit_iff by (auto simp: bit_1_iff)

lemma set_pin: "bit (v OR m5pm1_gpio2_mask) n \<longleftrightarrow> n = 2 \<or> bit v n" for v :: u8
  by (auto simp: bit_simps gpio2_bit)

lemma clear_pin: "bit (v AND NOT m5pm1_gpio2_mask) n \<longleftrightarrow> n \<noteq> 2 \<and> bit v n" for v :: u8
  by (auto simp: bit_simps gpio2_bit dest: bit_imp_le_length)

text \<open>The display gets its power: when the sequence succeeds, pin 2 of the power chip has its pin
  function, is an output, drives push-pull and is high, the chip's idle sleep is off, and no other
  pin or register has changed, whatever the chip was left in by earlier firmware.\<close>

lemma lcd_power_enabled:
  assumes "registers_ok I reg" "enable_lcd_power I b = (Inr (), b')"
  shows "(\<forall>n. bit (reg b' 0x16) n \<longleftrightarrow> n \<noteq> 2 \<and> bit (reg b 0x16) n)
    \<and> (\<forall>n. bit (reg b' 0x10) n \<longleftrightarrow> n = 2 \<or> bit (reg b 0x10) n)
    \<and> (\<forall>n. bit (reg b' 0x13) n \<longleftrightarrow> n \<noteq> 2 \<and> bit (reg b 0x13) n)
    \<and> (\<forall>n. bit (reg b' 0x11) n \<longleftrightarrow> n = 2 \<or> bit (reg b 0x11) n)
    \<and> reg b' 0x09 = 0 \<and> (\<forall>r. r \<notin> {0x16, 0x10, 0x13, 0x11, 0x09} \<longrightarrow> reg b' r = reg b r)"
proof -
  obtain b1 b2 b3 b4 where steps:
      "update_m5pm1_bits I 0x16 m5pm1_gpio2_mask False b = (Inr (), b1)" "update_m5pm1_bits I 0x10 m5pm1_gpio2_mask True b1 = (Inr (), b2)"
      "update_m5pm1_bits I 0x13 m5pm1_gpio2_mask False b2 = (Inr (), b3)" "update_m5pm1_bits I 0x11 m5pm1_gpio2_mask True b3 = (Inr (), b4)"
      "i2c_write I m5pm1_address [0x09, 0x00] b4 = (Inr (), b')"
    using assms(2) unfolding enable_lcd_power_def by (blast dest: and_next_Inr)
  note effects = update_bits_effect [OF assms(1) steps(1)] update_bits_effect [OF assms(1) steps(2)]
    update_bits_effect [OF assms(1) steps(3)] update_bits_effect [OF assms(1) steps(4)]
  have "reg b' = (reg b4)(0x09 := 0)" using assms(1) steps(5) by (auto simp: registers_ok_def)
  then have "reg b' = (reg b)(0x16 := reg b 0x16 AND NOT m5pm1_gpio2_mask, 0x10 := reg b 0x10 OR m5pm1_gpio2_mask,
      0x13 := reg b 0x13 AND NOT m5pm1_gpio2_mask, 0x11 := reg b 0x11 OR m5pm1_gpio2_mask, 0x09 := 0)"
    by (simp add: effects)
  then show ?thesis by (simp add: set_pin clear_pin)
qed

definition register_file :: "(u8 \<Rightarrow> u8, unit) i2c_api" where
  "register_file = \<lparr>i2c_write_read = (\<lambda>a bs n b. (Inr [b (hd bs)], b)),
     i2c_write = (\<lambda>a bs b. (Inr (), b(hd bs := bs ! 1)))\<rparr>"

lemma lcd_power_enabled_example:
  "\<exists>b'. enable_lcd_power register_file (\<lambda>r. 0xff) = (Inr (), b') \<and> b' 0x09 = 0 \<and> \<not> bit (b' 0x16) 2"
proof -
  have ok: "registers_ok register_file (\<lambda>b. b)" by (simp add: registers_ok_def register_file_def)
  obtain b' where b': "enable_lcd_power register_file (\<lambda>r. 0xff) = (Inr (), b')"
    by (simp add: enable_lcd_power_def and_next_def update_m5pm1_bits_def register_file_def)
  show ?thesis using lcd_power_enabled [OF ok b'] b' by auto
qed

section \<open>Memory\<close>

definition reclaimed_heap_bytes :: nat where
  "reclaimed_heap_bytes = 64 * 1024"

definition primary_heap_bytes :: nat where
  "primary_heap_bytes = 48 * 1024"

definition internal_heap_bytes :: nat where
  "internal_heap_bytes = reclaimed_heap_bytes + primary_heap_bytes"

definition zeroed_psram :: "nat \<Rightarrow> u8 list" where
  "zeroed_psram len = replicate len 0"

text \<open>The constants of the network tasks that live in these memories.\<close>

definition dashboard_dynamic_responses :: nat where
  "dashboard_dynamic_responses = 1"

definition min_non_dashboard_heap :: nat where
  "min_non_dashboard_heap = 80 * 1024"

definition notification_buffers :: "nat list" where
  "notification_buffers = [16384, 4096, 1024]"

text \<open>The assertion the compiler checks, and that the external memory holds what is allocated in it.\<close>

lemma heap_budget:
  "dashboard_body_capacity * dashboard_dynamic_responses + min_non_dashboard_heap \<le> internal_heap_bytes"
  by (simp add: dashboard_body_capacity_def dashboard_dynamic_responses_def min_non_dashboard_heap_def internal_heap_bytes_def
      reclaimed_heap_bytes_def primary_heap_bytes_def)

lemma psram_budget: "buffer_size + sum_list notification_buffers \<le> 8 * 1024 * 1024"
  by (simp add: buffer_size_def width_def height_def bytes_per_pixel_def notification_buffers_def)

end
