(* ===== verification/Repeats.thy ===== *)
theory Repeats
  imports Notify Validate
begin

text \<open>
  The repetition of critical notifications, from the configured interval (\<open>outputs.ntfy.repeat_critical\<close>,
  validated in nanoseconds and sent to the stick in whole seconds by \<open>host/src/config.rs\<close>) to the turns
  of the notification worker (\<open>firmware/src/network.rs\<close>) that announce it.
\<close>

text \<open>The clock readings of a run, in the order they are taken.\<close>

definition clock_readings :: "turn list \<Rightarrow> time list" where
  "clock_readings ts = concat (map (\<lambda>t. [tn_arm t, tn_due t, tn_rearm t]) ts)"

text \<open>A turn under a notification configuration while something critical is active.\<close>

definition critical_turn :: "ntfy_config \<Rightarrow> turn \<Rightarrow> bool" where
  "critical_turn config t = ((case sh_manifest (tn_state t) of None \<Rightarrow> False | Some m \<Rightarrow> net_ntfy m = config)
     \<and> list_ex (\<lambda>i. inc_level i = Critical) (notifiable_incidents (tn_state t) (tn_now t)))"

text \<open>Whether turn \<open>k\<close> of a run from the start of the worker announces what is still critical.\<close>

definition repeats_now :: "ntfy_config \<Rightarrow> u8 list \<Rightarrow> turn list \<Rightarrow> u64 \<Rightarrow> nat \<Rightarrow> bool" where
  "repeats_now config ca ts seed k = (let t = ts ! k in
     repeats_due config (notifiable_incidents (tn_state t) (tn_now t)) t (worker_run ca (take k ts) (worker_new seed)))"

section \<open>When the next repetition is due\<close>

lemma next_repeat_kept:
  "wk_next_repeat (publish_front ca config t w) = wk_next_repeat w"
  "wk_next_repeat (queue_recoveries config current w) = wk_next_repeat w"
  "wk_next_repeat (queue_incidents config current w) = wk_next_repeat w"
  "wk_next_repeat (queue_test b w) = wk_next_repeat w"
proof -
  have "wk_next_repeat (foldl (\<lambda>w i. if P w i then w\<lparr>wk_pending := push_pending (wk_pending w) (f i)\<rparr> else w) w xs)
      = wk_next_repeat w" for P and f and xs :: "incident list"
    by (induction xs arbitrary: w) simp_all
  then show "wk_next_repeat (queue_recoveries config current w) = wk_next_repeat w"
      "wk_next_repeat (queue_incidents config current w) = wk_next_repeat w"
    by (simp_all add: queue_recoveries_def queue_incidents_def)
  show "wk_next_repeat (publish_front ca config t w) = wk_next_repeat w"
    by (auto simp: publish_front_def Let_def split: list.split option.split)
  show "wk_next_repeat (queue_test b w) = wk_next_repeat w" by (simp add: queue_test_def)
qed

lemma repeats_due_kept: "repeats_due config current t (queue_incidents config current (queue_test b w)) = repeats_due config current t w"
  by (simp add: repeats_due_def next_repeat_kept split: option.split)

lemma next_repeat_queued:
  assumes "nc_repeat_critical config = Some seconds" "filter (\<lambda>i. inc_level i = Critical) current \<noteq> []"
  shows "wk_next_repeat (queue_repeats config current t w) = Some (if repeats_due config current t w
      then tn_rearm t + sec_us (unat seconds) else unwrap_or (tn_arm t + sec_us (unat seconds)) (wk_next_repeat w))"
  using assms by (simp add: queue_repeats_def repeats_due_def Let_def)

lemma next_repeat_turn:
  assumes "critical_turn config t" "nc_enabled config" "nc_repeat_critical config = Some seconds"
  shows "wk_next_repeat (worker_turn ca t w) = Some (if repeats_due config (notifiable_incidents (tn_state t) (tn_now t)) t w
      then tn_rearm t + sec_us (unat seconds) else unwrap_or (tn_arm t + sec_us (unat seconds)) (wk_next_repeat w))"
proof -
  obtain m where m: "sh_manifest (tn_state t) = Some m" "net_ntfy m = config"
    using assms(1) by (auto simp: critical_turn_def split: option.splits)
  have "filter (\<lambda>i. inc_level i = Critical) (notifiable_incidents (tn_state t) (tn_now t)) \<noteq> []"
    using assms(1) by (auto simp: critical_turn_def list_ex_iff filter_empty_conv)
  note queued = next_repeat_queued [OF assms(3) this]
  show ?thesis
    using worker_turn_enabled [of t m ca w] m assms(2) by (simp add: next_repeat_kept queued repeats_due_kept)
qed

lemma run_append: "worker_run ca (xs @ ys) w = worker_run ca ys (worker_run ca xs w)"
  by (simp add: worker_run_def)

lemma run_single: "worker_run ca [t] w = worker_turn ca t w"
  by (simp add: worker_run_def)

lemma next_repeat_after:
  assumes "list_all (critical_turn config) ts" "nc_enabled config" "nc_repeat_critical config = Some seconds"
    and "wk_next_repeat w = Some due" "bound \<le> due" "\<forall>t \<in> set ts. bound \<le> tn_rearm t + sec_us (unat seconds)"
  shows "\<exists>due. wk_next_repeat (worker_run ca ts w) = Some due \<and> bound \<le> due"
  using assms(1,6)
proof (induction ts rule: rev_induct)
  case Nil
  then show ?case using assms(4,5) by (simp add: worker_run_def)
next
  case (snoc t ts)
  then obtain due where "wk_next_repeat (worker_run ca ts w) = Some due" "bound \<le> due" by auto
  moreover have "critical_turn config t" using snoc.prems by simp
  ultimately show ?case
    using snoc.prems(2) next_repeat_turn [OF _ assms(2,3), of t ca "worker_run ca ts w"] by (simp add: run_append run_single)
qed

lemma next_repeat_at_once:
  assumes "list_all (critical_turn config) ts" "nc_enabled config" "nc_repeat_critical config = Some 0"
    and "sorted (clock_readings ts)" "k < length ts"
  shows "repeats_now config ca ts seed k"
  using assms(5)
proof (induction k)
  case 0
  then obtain t us where ts: "ts = t # us" by (cases ts) auto
  then have "tn_arm t \<le> tn_due t" using assms(4) by (simp add: clock_readings_def)
  then show ?case
    using assms(3) by (simp add: ts repeats_now_def repeats_due_def worker_run_def worker_new_def sec_us_def)
next
  case (Suc k)
  let ?w = "worker_run ca (take k ts) (worker_new seed)"
  have k: "k < length ts" "repeats_now config ca ts seed k" using Suc by simp_all
  have "critical_turn config (ts ! k)" using assms(1) k(1) by (simp add: list_all_length)
  from next_repeat_turn [OF this assms(2,3), of ca ?w]
  have n: "wk_next_repeat (worker_turn ca (ts ! k) ?w) = Some (tn_rearm (ts ! k))"
    using k(2) by (simp add: repeats_now_def Let_def sec_us_def)
  have "ts = take k ts @ ts ! k # ts ! Suc k # drop (Suc (Suc k)) ts"
    using Suc.prems by (metis Cons_nth_drop_Suc Suc_lessD append_take_drop_id)
  then have "sorted (clock_readings (take k ts @ ts ! k # ts ! Suc k # drop (Suc (Suc k)) ts))" using assms(4) by simp
  then have "tn_rearm (ts ! k) \<le> tn_due (ts ! Suc k)" by (simp add: clock_readings_def sorted_append)
  then show ?case
    using n assms(3) k(1) by (simp add: repeats_now_def repeats_due_def take_Suc_conv_app_nth run_append run_single)
qed

lemma readings_later:
  assumes "sorted (clock_readings ts)" "i < j" "j < length ts"
  shows "tn_rearm (ts ! i) \<le> tn_arm (ts ! j)" "tn_rearm (ts ! i) \<le> tn_rearm (ts ! j)"
proof -
  have "ts = take j ts @ ts ! j # drop (Suc j) ts" using assms(3) by (rule id_take_nth_drop)
  then have "sorted (clock_readings (take j ts @ ts ! j # drop (Suc j) ts))" using assms(1) by simp
  then have "\<forall>x \<in> set (clock_readings (take j ts)). x \<le> tn_arm (ts ! j) \<and> x \<le> tn_rearm (ts ! j)"
    by (auto simp: clock_readings_def sorted_append)
  moreover have "ts ! i \<in> set (take j ts)" using assms(2,3) by (auto simp: in_set_conv_nth intro: exI [of _ i])
  then have "tn_rearm (ts ! i) \<in> set (clock_readings (take j ts))" by (auto simp: clock_readings_def)
  ultimately show "tn_rearm (ts ! i) \<le> tn_arm (ts ! j)" "tn_rearm (ts ! i) \<le> tn_rearm (ts ! j)" by auto
qed

lemma repeats_spaced:
  assumes "list_all (critical_turn config) ts" "nc_enabled config" "nc_repeat_critical config = Some seconds"
    and "sorted (clock_readings ts)" "i < j" "j < length ts" "repeats_now config ca ts seed i" "repeats_now config ca ts seed j"
  shows "tn_rearm (ts ! i) + sec_us (unat seconds) \<le> tn_due (ts ! j)"
proof -
  let ?mid = "drop (Suc i) (take j ts)" and ?w = "worker_run ca (take i ts) (worker_new seed)"
  have i: "i < length ts" using assms(5,6) by simp
  have "critical_turn config (ts ! i)" using assms(1) i by (simp add: list_all_length)
  from next_repeat_turn [OF this assms(2,3), of ca ?w]
  have due: "wk_next_repeat (worker_turn ca (ts ! i) ?w) = Some (tn_rearm (ts ! i) + sec_us (unat seconds))"
    using assms(7) by (simp add: repeats_now_def Let_def)
  have "take j ts = take i ts @ ts ! i # ?mid"
    using assms(5,6) id_take_nth_drop [of i "take j ts"] by (simp add: min_def)
  then have run: "worker_run ca (take j ts) (worker_new seed) = worker_run ca ?mid (worker_turn ca (ts ! i) ?w)"
    using run_append [of ca "take i ts" "ts ! i # ?mid"] by (simp add: worker_run_def)
  have mid: "t \<in> set ?mid \<Longrightarrow> \<exists>k. i < k \<and> k < length ts \<and> t = ts ! k" for t
    using assms(6) by (auto simp: in_set_conv_nth) (metis add_Suc_right less_add_Suc1 less_diff_conv add.commute less_trans add_Suc)
  have "list_all (critical_turn config) ?mid" using mid assms(1) by (auto simp: list_all_iff dest!: mid)
  moreover have "\<forall>t \<in> set ?mid. tn_rearm (ts ! i) + sec_us (unat seconds) \<le> tn_rearm t + sec_us (unat seconds)"
    using mid readings_later(2) [OF assms(4)] by fastforce
  ultimately obtain due' where "wk_next_repeat (worker_run ca (take j ts) (worker_new seed)) = Some due'"
      "tn_rearm (ts ! i) + sec_us (unat seconds) \<le> due'"
    using next_repeat_after [OF _ assms(2,3) due order_refl] unfolding run by blast
  then show ?thesis using assms(3,8) by (simp add: repeats_now_def repeats_due_def)
qed

section \<open>Properties\<close>

text \<open>(C35) The interval a configuration asks for: while something critical stays active, two
  announcements that it is still active are at least that many whole seconds apart. Validation
  refuses an interval of zero, but the seconds are cut off on the way to the stick: with a positive
  interval below one second every turn of the worker announces every critical incident again.\<close>

theorem repeat_interval:
  assumes "validate_ntfy ntfy = Inr ()" "no_enabled ntfy" "no_repeat_critical ntfy = Some d"
    and "list_all (critical_turn (ntfy_config_of (Some ntfy))) ts" "sorted (clock_readings ts)"
  shows "0 < d
    \<and> (\<forall>j < length ts. \<forall>i < j. repeats_now (ntfy_config_of (Some ntfy)) ca ts seed i
        \<and> repeats_now (ntfy_config_of (Some ntfy)) ca ts seed j
        \<longrightarrow> tn_rearm (ts ! i) + sec_us (min (d div 1000000000) (2 ^ 32 - 1)) \<le> tn_due (ts ! j))
    \<and> (d < 1000000000 \<longrightarrow> (\<forall>k < length ts. \<forall>i \<in> set (notifiable_incidents (tn_state (ts ! k)) (tn_now (ts ! k))).
        inc_level i = Critical \<longrightarrow> repeat_notification (ntfy_config_of (Some ntfy)) i
          \<in> set (turn_notifications (ntfy_config_of (Some ntfy)) (notifiable_incidents (tn_state (ts ! k)) (tn_now (ts ! k)))
              (ts ! k) (worker_run ca (take k ts) (worker_new seed)))))"
proof -
  let ?config = "ntfy_config_of (Some ntfy)"
  let ?seconds = "clamp_word (whole_secs d) :: u32"
  have config: "nc_enabled ?config" "nc_repeat_critical ?config = Some ?seconds"
    using assms(2,3) by (simp_all add: ntfy_config_of_def ntfy_config_new_def)
  have seconds: "unat ?seconds = min (d div 1000000000) (2 ^ 32 - 1)"
    by (simp add: whole_secs_def unat_clamp_word)
  have "0 < d" using assms(1-3) by (auto simp: validate_ntfy_def split: if_splits)
  moreover have "\<forall>j < length ts. \<forall>i < j. repeats_now ?config ca ts seed i \<and> repeats_now ?config ca ts seed j
      \<longrightarrow> tn_rearm (ts ! i) + sec_us (min (d div 1000000000) (2 ^ 32 - 1)) \<le> tn_due (ts ! j)"
    using repeats_spaced [OF assms(4) config assms(5)] unfolding seconds by blast
  moreover have "\<forall>k < length ts. repeats_now ?config ca ts seed k" if "d < 1000000000"
  proof -
    have "nc_repeat_critical ?config = Some 0" using that seconds config(2) by (simp add: unat_eq_0)
    then show ?thesis using next_repeat_at_once [OF assms(4) config(1) _ assms(5)] by blast
  qed
  ultimately show ?thesis
    by (auto simp: repeats_now_def Let_def turn_notifications_def)
qed

text \<open>Half a second, and two turns five seconds apart with a full disk.\<close>

definition hasty_ntfy :: ntfy_output where
  "hasty_ntfy = \<lparr>no_enabled = True, no_server = ''https://ntfy.sh'', no_severities = [SevWarning, SevCritical],
     no_warning_priority = CfgHigh, no_critical_priority = CfgUrgent, no_recovery_priority = CfgDefault,
     no_notify_recovery = True, no_repeat_critical = Some 500000000, no_click_url = None\<rparr>"

definition hasty_turn :: "time \<Rightarrow> turn" where
  "hasty_turn now = \<lparr>tn_state = (tn_state (sample_turn [sample_incident ''disk'' Critical] True))
       \<lparr>sh_manifest := Some \<lparr>net_http = http_config_new True ''stick'' 80 [], net_ntfy = ntfy_config_of (Some hasty_ntfy)\<rparr>,
        sh_last_update := Some now\<rparr>,
     tn_test = False, tn_now = now, tn_arm = now, tn_due = now, tn_rearm = now, tn_post = (\<lambda>s r. True)\<rparr>"

theorem repeat_interval_witness:
  "let ts = [hasty_turn 1, hasty_turn 5000001]; config = ntfy_config_of (Some hasty_ntfy);
       i = sample_incident ''disk'' Critical in
   list_all (critical_turn config) ts \<and> (\<forall>k < 2. repeat_notification config i
     \<in> set (turn_notifications config [i] (ts ! k) (worker_run [1] (take k ts) (worker_new 7))))"
proof -
  let ?ts = "[hasty_turn 1, hasty_turn 5000001]" and ?i = "sample_incident ''disk'' Critical"
  have active: "notifiable_incidents (tn_state (hasty_turn n)) (tn_now (hasty_turn n)) = [?i]" for n
    by (simp add: notifiable_incidents_def active_incidents_def snapshot_age_def hasty_turn_def sample_turn_def
        set_incidents_def Let_def host_stale_after_def sec_us_def)
  have ntfy: "validate_ntfy hasty_ntfy = Inr ()" "no_enabled hasty_ntfy" "no_repeat_critical hasty_ntfy = Some 500000000"
    by (simp_all add: validate_ntfy_def hasty_ntfy_def starts_with_def)
  have turns: "critical_turn (ntfy_config_of (Some hasty_ntfy)) (hasty_turn n)" for n
    unfolding critical_turn_def active by (simp add: hasty_turn_def sample_incident_def incident_new_def)
  have ts: "list_all (critical_turn (ntfy_config_of (Some hasty_ntfy))) ?ts" using turns by simp
  have clocks: "sorted (clock_readings ?ts)" by (simp add: clock_readings_def hasty_turn_def)
  have "(?ts ! k) \<in> {hasty_turn 1, hasty_turn 5000001}" if "k < 2" for k
    using that by (cases k) auto
  then have at: "notifiable_incidents (tn_state (?ts ! k)) (tn_now (?ts ! k)) = [?i]" if "k < 2" for k
    using that active by fastforce
  have "inc_level ?i = Critical" by (simp add: sample_incident_def incident_new_def)
  then show ?thesis
    using repeat_interval [OF ntfy ts clocks, of "[1]" 7] ts at by (simp add: Let_def)
qed

end
