(* ===== verification/Readings.thy ===== *)
theory Readings
  imports Health_Rules Probe
begin

text \<open>
  The collector the daemon makes from its configuration (\<open>HealthCollector::new\<close> as \<open>main\<close> calls it and
  \<open>ConnectivityProbe::new\<close>), and the sequence of snapshots its thread collects: which reading of
  which source a snapshot shows, how old the reading can be, and which measurement of the health rules
  is the reading of which configured path.
\<close>

section \<open>From the configuration to the collector\<close>

record connectivity_probe =
  cpb_state :: probe_state
  cpb_target :: str
  cpb_timeout :: time

definition connectivity_probe_new :: "time \<Rightarrow> internet_config option \<Rightarrow> connectivity_probe" where
  "connectivity_probe_new now config = (let
     target = (case config of None \<Rightarrow> ''www.google.de'' | Some value \<Rightarrow> in_target value);
     timeout = (case config of None \<Rightarrow> secs 4 | Some value \<Rightarrow> in_timeout value);
     interval = (case config of None \<Rightarrow> secs 30 | Some value \<Rightarrow> in_interval value);
     settle = (case config of None \<Rightarrow> secs 3 | Some value \<Rightarrow> in_settle_delay value);
     retry = (case config of None \<Rightarrow> secs 5 | Some value \<Rightarrow> in_retry_delay value);
     failures = (case config of None \<Rightarrow> 2 | Some value \<Rightarrow> in_failures_before_failed value)
   in \<lparr>cpb_state = probe_new now interval settle retry failures, cpb_target = target, cpb_timeout = timeout\<rparr>)"

definition daemon_collector :: "'v host_env \<Rightarrow> time \<Rightarrow> sources_config \<Rightarrow> collector" where
  "daemon_collector env now sources =
     (let filesystem_paths = map fc_path (src_filesystems sources) in
      collector_new env now (uf_endpoint (src_ups sources)) (uf_failures_before_unavailable (src_ups sources))
        (src_smart_devices sources) filesystem_paths
        (cpb_state (connectivity_probe_new now (Some (src_internet sources)))) (src_task_history_limit sources))"

text \<open>What a round of the thread sees: the fuel of the interface walk, the host, the clock, the probe.\<close>

record 'v round =
  rd_fuel :: nat
  rd_env :: "'v host_env"
  rd_now :: time
  rd_probe :: "bool \<Rightarrow> probe_state \<Rightarrow> probe_state \<times> u32 option \<times> internet_status \<times> u32 option"

fun collect_rounds :: "'v round list \<Rightarrow> collector \<Rightarrow> health_snapshot list option" where
  "collect_rounds [] c = Some []"
| "collect_rounds (r # rs) c = (case collect_snapshot (rd_fuel r) (rd_env r) (rd_now r) (rd_probe r) c of
     None \<Rightarrow> None
   | Some (c', snapshot) \<Rightarrow> map_option (\<lambda>snapshots. snapshot # snapshots) (collect_rounds rs c'))"

section \<open>Cached readings\<close>

text \<open>A cached value: never read and due, or the reading of an earlier round, due one interval after it.\<close>

definition cached :: "time \<Rightarrow> time \<Rightarrow> ('v round \<Rightarrow> 'a option) \<Rightarrow> 'v round set \<Rightarrow> time \<Rightarrow> 'a \<Rightarrow> bool" where
  "cached start interval reading past due v = (past = {} \<and> due \<le> start
     \<or> (\<exists>r \<in> past. reading r = Some v \<and> due = rd_now r + interval))"

text \<open>In a round the value is recent: read in it, or in an earlier one less than an interval before.\<close>

definition recent :: "time \<Rightarrow> ('v round \<Rightarrow> 'a option) \<Rightarrow> 'v round set \<Rightarrow> time \<Rightarrow> 'a \<Rightarrow> bool" where
  "recent interval reading past now v = (\<exists>r \<in> past. reading r = Some v \<and> now < rd_now r + interval)"

lemma cached_step:
  assumes "cached start interval reading past due v" "start \<le> rd_now r" "0 < interval"
    and "if fst (refresh_due (rd_now r) due interval) then reading r = Some v' else v' = v"
  shows "cached start interval reading (insert r past) (snd (refresh_due (rd_now r) due interval)) v'"
    "recent interval reading (insert r past) (rd_now r) v'"
  using assms by (auto simp: cached_def recent_def refresh_due_def split: if_splits)

text \<open>All caches of the collector, for the sources they were made from.\<close>

definition filesystems_reading :: "str list \<Rightarrow> 'v round \<Rightarrow> filesystem_usage list option" where
  "filesystems_reading paths r = Some (map (read_filesystem_usage (rd_env r)) paths)"

definition smart_reading :: "smart_device_config list \<Rightarrow> 'v round \<Rightarrow> smart_device list option" where
  "smart_reading devices r = Some (read_smart (rd_env r) devices)"

definition backup_reading :: "str \<Rightarrow> u16 \<Rightarrow> 'v round \<Rightarrow> (backup_job_status \<times> u32 option) option" where
  "backup_reading host limit r = Some (read_backup_job_status (rd_env r) host (he_unix_secs (rd_env r)) limit)"

definition network_reading :: "'v round \<Rightarrow> network_snapshot option" where
  "network_reading r = read_network (rd_fuel r) (rd_env r)"

definition collector_caches :: "time \<Rightarrow> 'v round set \<Rightarrow> collector \<Rightarrow> bool" where
  "collector_caches start past c =
     (cached start (secs 10) network_reading past (hco_next_network c) (hco_network c)
      \<and> cached start (secs 30) (filesystems_reading (hco_filesystems c)) past (hco_next_filesystem c) (hco_usage c)
      \<and> cached start (secs 60) (backup_reading (hco_host_name c) (hco_history_limit c)) past (hco_next_backup c) (hco_backup c)
      \<and> cached start (secs 60) (smart_reading (hco_smart_devices c)) past (hco_next_smart c) (hco_smart c))"

definition same_sources :: "collector \<Rightarrow> collector \<Rightarrow> bool" where
  "same_sources c c' = (hco_filesystems c' = hco_filesystems c \<and> hco_smart_devices c' = hco_smart_devices c
     \<and> hco_host_name c' = hco_host_name c \<and> hco_history_limit c' = hco_history_limit c)"

text \<open>What a snapshot shows of the readings of the rounds so far.\<close>

definition shows_readings :: "'v round set \<Rightarrow> time \<Rightarrow> collector \<Rightarrow> health_snapshot \<Rightarrow> bool" where
  "shows_readings past now c s =
     (recent (secs 10) network_reading past now
        \<lparr>ns_interface = hs_interface s, ns_up = hs_network_up s, ns_mbps = hs_network_mbps s, ns_ipv4 = hs_ipv4 s\<rparr>
      \<and> recent (secs 30) (filesystems_reading (hco_filesystems c)) past now (hs_filesystems s)
      \<and> recent (secs 60) (backup_reading (hco_host_name c) (hco_history_limit c)) past now (hs_backup s, hs_backup_age s)
      \<and> recent (secs 60) (smart_reading (hco_smart_devices c)) past now (hs_smart s))"

text \<open>Each refresh as one update of the fields it owns.\<close>

lemma refresh_updates:
  "fst (refresh_cpu env c) = c\<lparr>hco_previous_cpu := read_cpu_times env\<rparr>"
  "refresh_filesystems env now c = c\<lparr>hco_next_filesystem := snd (refresh_due now (hco_next_filesystem c) (secs 30)),
     hco_usage := if fst (refresh_due now (hco_next_filesystem c) (secs 30))
       then map (read_filesystem_usage env) (hco_filesystems c) else hco_usage c\<rparr>"
  "refresh_backup env now c = c\<lparr>hco_next_backup := snd (refresh_due now (hco_next_backup c) (secs 60)),
     hco_backup := if fst (refresh_due now (hco_next_backup c) (secs 60))
       then read_backup_job_status env (hco_host_name c) (he_unix_secs env) (hco_history_limit c) else hco_backup c\<rparr>"
  "refresh_smart env now c = c\<lparr>hco_next_smart := snd (refresh_due now (hco_next_smart c) (secs 60)),
     hco_smart := if fst (refresh_due now (hco_next_smart c) (secs 60))
       then read_smart env (hco_smart_devices c) else hco_smart c\<rparr>"
  by (cases c; simp add: refresh_cpu_def refresh_filesystems_def refresh_backup_def refresh_smart_def refresh_due_def Let_def)+

lemma refresh_ups_update:
  "\<exists>due u snap. refresh_ups env now c = c\<lparr>hco_next_ups := due, hco_ups := u, hco_ups_snapshot := snap\<rparr>"
proof (cases "fst (refresh_due now (hco_next_ups c) (secs 10))")
  case True
  then show ?thesis
    by (intro exI [of _ "snd (refresh_due now (hco_next_ups c) (secs 10))"] exI [of _ "fst (ups_collect env (hco_ups c))"]
        exI [of _ "snd (ups_collect env (hco_ups c))"]) (simp add: refresh_ups_def Let_def split_beta)
next
  case False
  then show ?thesis
    by (intro exI [of _ "hco_next_ups c"] exI [of _ "hco_ups c"] exI [of _ "hco_ups_snapshot c"])
      (simp add: refresh_ups_def split_beta)
qed

lemma refresh_network_update:
  assumes "refresh_network fuel env now c = Some c'"
  shows "\<exists>n. c' = c\<lparr>hco_next_network := snd (refresh_due now (hco_next_network c) (secs 10)), hco_network := n\<rparr>
    \<and> (if fst (refresh_due now (hco_next_network c) (secs 10)) then read_network fuel env = Some n else n = hco_network c)"
  using assms by (auto simp: refresh_network_def refresh_due_def split: if_splits)

text \<open>A collection in terms of the network reading and of the three other caches.\<close>

lemma collect_effect:
  assumes "collect_snapshot fuel env now probe c = Some (c', s)"
  shows "\<exists>n. (if fst (refresh_due now (hco_next_network c) (secs 10)) then read_network fuel env = Some n else n = hco_network c)
    \<and> hco_network c' = n \<and> hco_next_network c' = snd (refresh_due now (hco_next_network c) (secs 10))
    \<and> n = \<lparr>ns_interface = hs_interface s, ns_up = hs_network_up s, ns_mbps = hs_network_mbps s, ns_ipv4 = hs_ipv4 s\<rparr>
    \<and> hco_usage c' = hco_usage (refresh_filesystems env now c) \<and> hco_next_filesystem c' = hco_next_filesystem (refresh_filesystems env now c)
    \<and> hco_backup c' = hco_backup (refresh_backup env now c) \<and> hco_next_backup c' = hco_next_backup (refresh_backup env now c)
    \<and> hco_smart c' = hco_smart (refresh_smart env now c) \<and> hco_next_smart c' = hco_next_smart (refresh_smart env now c)
    \<and> hs_filesystems s = hco_usage c' \<and> (hs_backup s, hs_backup_age s) = hco_backup c' \<and> hs_smart s = hco_smart c'
    \<and> same_sources c c'"
proof -
  have "map_option (assemble_snapshot env now probe (snd (refresh_cpu env c)) (read_memory env))
      (refresh_network fuel env now (fst (refresh_cpu env c))) = Some (c', s)"
    using assms by (simp add: collect_snapshot_def Let_def split_beta)
  then obtain c2 where c2: "refresh_network fuel env now (fst (refresh_cpu env c)) = Some c2"
      "(c', s) = assemble_snapshot env now probe (snd (refresh_cpu env c)) (read_memory env) c2" by auto
  obtain n where n: "c2 = c\<lparr>hco_previous_cpu := read_cpu_times env,
        hco_next_network := snd (refresh_due now (hco_next_network c) (secs 10)), hco_network := n\<rparr>"
      "if fst (refresh_due now (hco_next_network c) (secs 10)) then read_network fuel env = Some n else n = hco_network c"
    using refresh_network_update [OF c2(1)] by (auto simp: refresh_updates)
  obtain ps q w e where ps: "probe (ns_up (hco_network c2)) (hco_probe c2) = (ps, q, w, e)" by (metis prod.exhaust)
  obtain due u snap where ups: "refresh_ups env now (refresh_backup env now (refresh_filesystems env now (c2\<lparr>hco_probe := ps\<rparr>)))
      = refresh_backup env now (refresh_filesystems env now (c2\<lparr>hco_probe := ps\<rparr>))\<lparr>hco_next_ups := due, hco_ups := u, hco_ups_snapshot := snap\<rparr>"
    using refresh_ups_update by blast
  show ?thesis
    using c2(2) n(2) unfolding assemble_snapshot_def ps prod.case Let_def ups
    by (intro exI [of _ n]) (simp add: n(1) refresh_updates snapshot_new_def same_sources_def)
qed

lemma collect_caches:
  assumes "collector_caches start past c" "start \<le> rd_now r"
    and "collect_snapshot (rd_fuel r) (rd_env r) (rd_now r) (rd_probe r) c = Some (c', s)"
  shows "collector_caches start (insert r past) c' \<and> same_sources c c' \<and> shows_readings (insert r past) (rd_now r) c s"
proof -
  note effect = collect_effect [OF assms(3)]
  then have same: "same_sources c c'" by blast
  have secs: "0 < secs 10" "0 < secs 30" "0 < secs 60" by (simp_all add: secs_def)
  have caches: "cached start (secs 10) network_reading past (hco_next_network c) (hco_network c)"
      "cached start (secs 30) (filesystems_reading (hco_filesystems c)) past (hco_next_filesystem c) (hco_usage c)"
      "cached start (secs 60) (backup_reading (hco_host_name c) (hco_history_limit c)) past (hco_next_backup c) (hco_backup c)"
      "cached start (secs 60) (smart_reading (hco_smart_devices c)) past (hco_next_smart c) (hco_smart c)"
    using assms(1) by (simp_all add: collector_caches_def)
  have "if fst (refresh_due (rd_now r) (hco_next_network c) (secs 10)) then network_reading r = Some (hco_network c')
      else hco_network c' = hco_network c"
    using effect by (auto simp: network_reading_def)
  note network = cached_step [OF caches(1) assms(2) secs(1) this]
  have "if fst (refresh_due (rd_now r) (hco_next_filesystem c) (secs 30))
      then filesystems_reading (hco_filesystems c) r = Some (hco_usage c') else hco_usage c' = hco_usage c"
    using effect by (auto simp: filesystems_reading_def refresh_updates)
  note filesystems = cached_step [OF caches(2) assms(2) secs(2) this]
  have "if fst (refresh_due (rd_now r) (hco_next_backup c) (secs 60))
      then backup_reading (hco_host_name c) (hco_history_limit c) r = Some (hco_backup c') else hco_backup c' = hco_backup c"
    using effect by (auto simp: backup_reading_def refresh_updates)
  note backup = cached_step [OF caches(3) assms(2) secs(3) this]
  have "if fst (refresh_due (rd_now r) (hco_next_smart c) (secs 60))
      then smart_reading (hco_smart_devices c) r = Some (hco_smart c') else hco_smart c' = hco_smart c"
    using effect by (auto simp: smart_reading_def refresh_updates)
  note smart = cached_step [OF caches(4) assms(2) secs(3) this]
  have next_refresh: "hco_next_network c' = snd (refresh_due (rd_now r) (hco_next_network c) (secs 10))"
      "hco_next_filesystem c' = snd (refresh_due (rd_now r) (hco_next_filesystem c) (secs 30))"
      "hco_next_backup c' = snd (refresh_due (rd_now r) (hco_next_backup c) (secs 60))"
      "hco_next_smart c' = snd (refresh_due (rd_now r) (hco_next_smart c) (secs 60))"
    using effect by (auto simp: refresh_updates)
  have shown: "\<lparr>ns_interface = hs_interface s, ns_up = hs_network_up s, ns_mbps = hs_network_mbps s, ns_ipv4 = hs_ipv4 s\<rparr> = hco_network c'"
      "hs_filesystems s = hco_usage c'" "(hs_backup s, hs_backup_age s) = hco_backup c'" "hs_smart s = hco_smart c'"
    using effect by auto
  have sources: "hco_filesystems c' = hco_filesystems c" "hco_smart_devices c' = hco_smart_devices c"
      "hco_host_name c' = hco_host_name c" "hco_history_limit c' = hco_history_limit c"
    using same by (simp_all add: same_sources_def)
  show ?thesis
    using network filesystems backup smart same
    by (simp only: collector_caches_def shows_readings_def next_refresh shown sources simp_thms)
qed

text \<open>The rounds of a run, one after the other.\<close>

lemma same_sources_shows: "same_sources c c' \<Longrightarrow> shows_readings past now c' s \<longleftrightarrow> shows_readings past now c s"
  by (simp add: same_sources_def shows_readings_def)

lemma rounds_show_readings:
  assumes "collector_caches start past c" "list_all (\<lambda>r. start \<le> rd_now r) rs" "collect_rounds rs c = Some snapshots"
  shows "length snapshots = length rs
    \<and> (\<forall>k < length rs. shows_readings (past \<union> set (take (Suc k) rs)) (rd_now (rs ! k)) c (snapshots ! k))"
  using assms
proof (induction rs arbitrary: past c snapshots)
  case (Cons r rs)
  obtain c' s rest where first: "collect_snapshot (rd_fuel r) (rd_env r) (rd_now r) (rd_probe r) c = Some (c', s)"
      "collect_rounds rs c' = Some rest" "snapshots = s # rest"
    using Cons.prems(3) by (auto split: option.splits)
  have now: "start \<le> rd_now r" "list_all (\<lambda>r. start \<le> rd_now r) rs" using Cons.prems(2) by simp_all
  note step = collect_caches [OF Cons.prems(1) now(1) first(1)]
  then have rest: "length rest = length rs"
      "\<And>k. k < length rs \<Longrightarrow> shows_readings (insert r past \<union> set (take (Suc k) rs)) (rd_now (rs ! k)) c (rest ! k)"
    using Cons.IH [OF _ now(2) first(2), of "insert r past"] same_sources_shows by blast+
  have "shows_readings (past \<union> set (take (Suc k) (r # rs))) (rd_now ((r # rs) ! k)) c (snapshots ! k)" if "k < Suc (length rs)" for k
    using that step rest(2) first(3) by (cases k) (simp_all add: Un_commute)
  with rest(1) first(3) show ?case by simp
qed simp

lemma daemon_collector_fields:
  "hco_filesystems (daemon_collector env now sources) = map fc_path (src_filesystems sources)"
  "hco_smart_devices (daemon_collector env now sources) = src_smart_devices sources"
  "hco_host_name (daemon_collector env now sources) = read_host_name env"
  "hco_history_limit (daemon_collector env now sources) = src_task_history_limit sources"
  by (simp_all add: daemon_collector_def collector_new_def)

lemma daemon_collector_caches: "collector_caches now {} (daemon_collector env now sources)"
  by (simp add: collector_caches_def cached_def daemon_collector_def collector_new_def)

lemma position_distinct: "distinct (map g xs) \<Longrightarrow> i < length xs \<Longrightarrow> position (\<lambda>x. g x = g (xs ! i)) xs = Some i"
proof (induction xs arbitrary: i)
  case (Cons x xs)
  then show ?case by (cases i) (auto intro: rev_image_eqI [OF nth_mem])
qed simp

text \<open>A measurement of a configured filesystem is the reading of its own path.\<close>

lemma metric_of_path:
  assumes "distinct (map fc_id fss)" "hs_filesystems s = map (\<lambda>f. usage (fc_path f)) fss" "f \<in> set fss"
  shows "metric fss s (SelFilesystem (fc_id f) MountedField) = MBool (fs_mounted (usage (fc_path f)))"
    "metric fss s (SelFilesystem (fc_id f) UsedPercentField) = MNumber (f64_of_nat (unat (fs_used_percent (usage (fc_path f)))))"
proof -
  obtain i where i: "i < length fss" "f = fss ! i" using assms(3) by (metis in_set_conv_nth)
  have "position (\<lambda>g. fc_id g = fc_id f) fss = Some i" using position_distinct [OF assms(1) i(1)] i(2) by simp
  then show "metric fss s (SelFilesystem (fc_id f) MountedField) = MBool (fs_mounted (usage (fc_path f)))"
    "metric fss s (SelFilesystem (fc_id f) UsedPercentField) = MNumber (f64_of_nat (unat (fs_used_percent (usage (fc_path f)))))"
    using i by (simp_all add: metric_def assms(2) get_nth_def del: of_nat_unat)
qed

section \<open>Readings are current and of the right source\<close>


text \<open>Two rounds on a host without any answer, five seconds apart.\<close>

definition silent_round :: "time \<Rightarrow> unit round" where
  "silent_round now = \<lparr>rd_fuel = 1, rd_env = looping_env, rd_now = now, rd_probe = (\<lambda>up. probe_snapshot now up True [] now)\<rparr>"

lemma silent_collects: "\<exists>snapshots. collect_rounds (map silent_round ts) c = Some snapshots"
proof (induction ts arbitrary: c)
  case (Cons t ts)
  have "read_network 1 looping_env = Some network_default"
    by (simp add: read_network_def read_route_def parse_default_route_def looping_env_def)
  moreover have "rd_fuel (silent_round t) = 1" "rd_env (silent_round t) = looping_env" by (simp_all add: silent_round_def)
  ultimately have "collect_snapshot (rd_fuel (silent_round t)) (rd_env (silent_round t)) (rd_now (silent_round t))
      (rd_probe (silent_round t)) c \<noteq> None"
    by (simp add: collect_snapshot_def refresh_network_def split_beta)
  then obtain c' s where "collect_snapshot (rd_fuel (silent_round t)) (rd_env (silent_round t)) (rd_now (silent_round t))
      (rd_probe (silent_round t)) c = Some (c', s)" by auto
  moreover obtain snapshots where "collect_rounds (map silent_round ts) c' = Some snapshots" using Cons.IH by blast
  ultimately show ?case by simp
qed simp


end
