(* ===== verification/Tests_Protocol.thy ===== *)
theory Tests_Protocol
  imports Framing
begin

text \<open>
  The unit tests of the protocol crate (\<open>protocol/src/lib.rs\<close>, \<open>mod tests\<close>) on the model: each test
  function is a boolean definition of its name, the conjunction of its assertions with an unwrap that
  fails counted as false, and the lemma after it says that it holds. Serializer and parser are those of
  the framing; a test that measures real postcard output is left out.
\<close>

definition tests_guest :: "str \<Rightarrow> guest_summary" where
  "tests_guest name = guest_new 100 name VirtualMachine GuestRunning 23 3104 8192"

definition tests_snapshot :: "guest_summary list \<Rightarrow> health_snapshot" where
  "tests_snapshot guests = snapshot_new ''pve-01'' 86400 23 18688 32768 4 82
     [filesystem_new 6 (85 * 1024), filesystem_new 33 6186598, filesystem_new 60 3670016]
     BackupHealthy (Some 21600) True 2500 ''enp3s0'' Reachable (Some 0) [10, 0, 0, 12]
     guests ups_not_configured []"

section \<open>Round trips\<close>

definition round_trips ::
  "('m \<Rightarrow> nat \<Rightarrow> u8 list option) \<Rightarrow> (u8 list \<Rightarrow> 'm option) \<Rightarrow> (u8 list \<Rightarrow> u8 list option) \<Rightarrow> nat \<Rightarrow> 'm \<Rightarrow> bool" where
  "round_trips ser de cobs storage m = (case encode ser m storage of Inl e \<Rightarrow> False | Inr frame \<Rightarrow> decode de cobs frame = Inr m)"

lemma round_trips_iff: "postcard_ok ser de \<Longrightarrow> round_trips ser de cobs storage m \<longleftrightarrow> (\<exists>frame. encode ser m storage = Inr frame)"
  by (auto simp: round_trips_def decode_encode_frame split: sum.splits)

definition tests_host_messages :: "host_message list" where
  "tests_host_messages = [ShutdownAccepted, HealthSnapshot (tests_snapshot [tests_guest ''atlas'']),
     ShutdownProgress StoppingGuests 5 3, ShutdownFailed HostPoweroffFailure 2,
     HostHello (SoftwareVersion ''0.1.0'') (HandshakeNonce 0x1234)]"

definition tests_device_messages :: "device_message list" where
  "tests_device_messages = [ShutdownRequested, DeviceHello (SoftwareVersion ''0.1.0'') (Some (HandshakeNonce 0x1234))]"

definition messages_round_trip_as_typed_values where
  "messages_round_trip_as_typed_values host_ser host_de device_ser device_de cobs \<longleftrightarrow>
     list_all (round_trips host_ser host_de cobs max_host_frame_len) tests_host_messages
     \<and> list_all (round_trips device_ser device_de cobs 32) tests_device_messages"

lemma messages_round_trip_as_typed_values_holds:
  assumes "postcard_ok host_ser host_de" "postcard_ok device_ser device_de"
    and "\<forall>m \<in> set tests_host_messages. \<exists>f. encode host_ser m max_host_frame_len = Inr f"
    and "\<forall>m \<in> set tests_device_messages. \<exists>f. encode device_ser m 32 = Inr f"
  shows "messages_round_trip_as_typed_values host_ser host_de device_ser device_de cobs"
  using assms(3,4) by (simp add: messages_round_trip_as_typed_values_def list_all_iff round_trips_iff assms(1,2))

definition tests_manifest :: network_config where
  "tests_manifest = \<lparr>net_http = http_config_new True ''servatory'' 80 (dc_pages display_config_default),
     net_ntfy = ntfy_config_new True ''https://ntfy.sh'' \<lparr>sev_warning = True, sev_critical = True\<rparr> True
       PrioHigh PrioUrgent PrioDefault (Some 3600) (Some ''http://servatory.local/'')\<rparr>"

definition network_manifest_round_trips where
  "network_manifest_round_trips ser de cobs \<longleftrightarrow> round_trips ser de cobs max_host_frame_len (NetworkConfigMsg tests_manifest)"

lemma network_manifest_round_trips_holds:
  assumes "postcard_ok ser de" "encode ser (NetworkConfigMsg tests_manifest) max_host_frame_len = Inr f"
  shows "network_manifest_round_trips ser de cobs"
  using assms(2) by (simp add: network_manifest_round_trips_def round_trips_iff [OF assms(1)])

section \<open>Rule ids\<close>

definition rule_ids_are_validated_and_namespaced_from_stick_incidents :: bool where
  "rule_ids_are_validated_and_namespaced_from_stick_incidents \<longleftrightarrow>
     rule_id_new ''backup_failed'' = Inr (RuleId ''backup_failed'')
     \<and> rule_id_new '''' = Inl RuleIdError \<and> rule_id_new ''not a rule'' = Inl RuleIdError
     \<and> (case rule_id_new ''host_offline'' of Inl e \<Rightarrow> False | Inr i \<Rightarrow> Rule i \<noteq> Stick HostOffline)"

lemma rule_ids_are_validated_and_namespaced_from_stick_incidents_holds:
  "rule_ids_are_validated_and_namespaced_from_stick_incidents"
  by (simp add: rule_ids_are_validated_and_namespaced_from_stick_incidents_def rule_id_new_def max_rule_id_len_def is_alnum_def)

section \<open>The stream decoder\<close>

text \<open>The last result of a decoder of 32 bytes that is fed a frame byte by byte.\<close>

definition frame_decoder_handles_fragmentation where
  "frame_decoder_handles_fragmentation ser de cobs \<longleftrightarrow>
     (let expected = DeviceHello (SoftwareVersion ''0.2.0'') (Some (HandshakeNonce 81)) in
      case encode ser expected max_device_frame_len of Inl e \<Rightarrow> False
      | Inr frame \<Rightarrow> (case push_all (push 32) (decoder_new 32) frame of None \<Rightarrow> False
        | Some (d, outs) \<Rightarrow> outs \<noteq> [] \<and> list_all (\<lambda>r. case and_then r (decode de cobs) of Inl e \<Rightarrow> False | Inr m \<Rightarrow> True) outs
            \<and> and_then (last outs) (decode de cobs) = Inr expected))"

lemma frame_decoder_handles_fragmentation_holds:
  assumes "postcard_ok ser de" "encode ser (DeviceHello (SoftwareVersion ''0.2.0'') (Some (HandshakeNonce 81))) max_device_frame_len = Inr f"
    and "length f \<le> 32"
  shows "frame_decoder_handles_fragmentation ser de cobs"
proof -
  obtain body where body: "f = body @ [0]" "body \<noteq> []" "0 \<notin> set body"
    by (rule encode_delimited [OF assms(1,2)])
  have "segments cur (bs @ [0]) = ([cur @ bs], [])" if "0 \<notin> set bs" for cur and bs :: "u8 list"
    using that by (induction bs arbitrary: cur) auto
  then have "segments [] f = ([body], [])" using body by simp
  moreover have "classify 32 body = Inr f" using assms(3) body by (simp add: classify_def)
  moreover obtain d where "push_all (push 32) (decoder_new 32) f = Some (d, map (classify 32) (fst (segments [] f)))"
    using fd.run_frames [OF decoder_new_ok] by blast
  ultimately show ?thesis
    using assms(2) decode_encode_frame [OF assms(1,2)] by (simp add: frame_decoder_handles_fragmentation_def Let_def)
qed

definition decoder_recovers_after_oversized_frame :: bool where
  "decoder_recovers_after_oversized_frame \<longleftrightarrow>
     map_option snd (push_all (push 4) (decoder_new 4) [1, 1, 1, 1]) = Some []
     \<and> map_option snd (push_all (push 4) (decoder_new 4) [1, 1, 1, 1, 0]) = Some [Inl FrameTooLong]
     \<and> map_option snd (push_all (push 4) (decoder_new 4) [1, 1, 1, 1, 0, 1, 1]) = Some [Inl FrameTooLong]
     \<and> map_option (\<lambda>r. length (snd r)) (push_all (push 4) (decoder_new 4) [1, 1, 1, 1, 0, 1, 1, 0]) = Some 2"

lemma decoder_recovers_after_oversized_frame_holds: "decoder_recovers_after_oversized_frame"
  by (simp add: decoder_recovers_after_oversized_frame_def push_def decoder_new_def numeral_2_eq_2 Let_def)

section \<open>Versions\<close>

definition incompatible_version_is_rejected where
  "incompatible_version_is_rejected de cobs \<longleftrightarrow>
     decode de cobs (frame_magic @ [protocol_version + 1, 0xfe, 0xed, 0]) = Inl (UnsupportedVersion (protocol_version + 1))"

lemma incompatible_version_is_rejected_holds: "incompatible_version_is_rejected de cobs"
  by (simp add: incompatible_version_is_rejected_def decode_def frame_magic_def protocol_version_def)

text \<open>The frame is what COBS makes of a legacy envelope, whose first byte is the version 5.\<close>

definition legacy_envelope_reports_its_actual_version where
  "legacy_envelope_reports_its_actual_version de cobs frame \<longleftrightarrow> decode de cobs frame = Inl (UnsupportedVersion 5)"

lemma legacy_envelope_reports_its_actual_version_holds:
  assumes "cobs frame = Some (5 # payload)" "take 2 frame \<noteq> frame_magic"
  shows "legacy_envelope_reports_its_actual_version de cobs frame"
  using assms by (simp add: legacy_envelope_reports_its_actual_version_def decode_def)

section \<open>Snapshots\<close>

definition snapshots_use_dynamic_names_and_counts where
  "snapshots_use_dynamic_names_and_counts ser \<longleftrightarrow>
     (let long_name = ''guest-name-that-is-not-a-firmware-sized-array''; value = tests_snapshot (replicate 40 (tests_guest long_name)) in
      length (hs_guests value) = 40 \<and> g_name (hs_guests value ! 0) = long_name
      \<and> (case encode ser (HealthSnapshot value) max_host_frame_len of Inl e \<Rightarrow> False | Inr frame \<Rightarrow> length frame \<le> max_host_frame_len))"

lemma snapshots_use_dynamic_names_and_counts_holds:
  assumes "postcard_ok ser de"
    and "encode ser (HealthSnapshot (tests_snapshot (replicate 40 (tests_guest ''guest-name-that-is-not-a-firmware-sized-array''))))
      max_host_frame_len = Inr f"
  shows "snapshots_use_dynamic_names_and_counts ser"
proof -
  have "length f \<le> max_host_frame_len" by (rule encode_length [OF assms])
  moreover have "hs_guests (tests_snapshot gs) = gs" "g_name (tests_guest n) = n" for gs n
    by (simp_all add: tests_snapshot_def snapshot_new_def tests_guest_def guest_new_def)
  ultimately show ?thesis
    using assms(2) by (simp add: snapshots_use_dynamic_names_and_counts_def Let_def)
qed

end
