(* ===== verification/Deployed.thy ===== *)
theory Deployed
  imports Health_Rules
begin

text \<open>
  The configuration that ships with the daemon (\<open>deploy/servatory.yaml\<close>) as a value: it passes the
  validation, its view layouts parse to the layouts given, and its health policy, twenty-five rules, is
  compared with a description of the states in which a host is to be reported critical, to be
  reported with a warning, or healthy.
\<close>

section \<open>YAML scalars of the file\<close>

datatype yaml_scalar = YBool bool | YNumber u64

text \<open>What the accessors of a YAML value document for the values the file uses.\<close>

definition yaml_ok :: "yaml_scalar yaml_api \<Rightarrow> bool" where
  "yaml_ok Y = ((\<forall>s. ya_str Y (YString s) = Some s)
     \<and> (\<forall>b. ya_bool Y (YOther (YBool b)) = Some b \<and> \<not> ya_null Y (YOther (YBool b))))"

definition yaml_values :: "yaml_scalar yaml_api" where
  "yaml_values = \<lparr>ya_str = (\<lambda>v. case v of YString s \<Rightarrow> Some s | _ \<Rightarrow> None),
     ya_bool = (\<lambda>v. case v of YOther (YBool b) \<Rightarrow> Some b | _ \<Rightarrow> None),
     ya_u64 = (\<lambda>v. case v of YOther (YNumber n) \<Rightarrow> Some n | _ \<Rightarrow> None),
     ya_f64 = (\<lambda>v. case v of YOther (YNumber n) \<Rightarrow> Some (f64_of_nat (unat n)) | _ \<Rightarrow> None),
     ya_null = (\<lambda>v. False), ya_sequence = (\<lambda>v. case v of YSequence vs \<Rightarrow> Some vs | _ \<Rightarrow> None),
     ya_field = (\<lambda>v k. case v of YMapping kvs \<Rightarrow> map_of kvs (YString k) | _ \<Rightarrow> None)\<rparr>"

lemma yaml_values_ok: "yaml_ok yaml_values"
  by (simp add: yaml_ok_def yaml_values_def)

section \<open>The health policy\<close>

definition predicate_on :: "metric_selector \<Rightarrow> yaml_scalar predicate" where
  "predicate_on sel = \<lparr>pr_measurement = sel, pr_equals = None, pr_in = None, pr_at_least = None,
     pr_greater_than = None, pr_missing_or_greater_than = None\<rparr>"

definition equals_text :: "metric_selector \<Rightarrow> str \<Rightarrow> yaml_scalar condition" where
  "equals_text sel t = Predicate ((predicate_on sel)\<lparr>pr_equals := Some (YString t)\<rparr>)"

definition equals_bool :: "metric_selector \<Rightarrow> bool \<Rightarrow> yaml_scalar condition" where
  "equals_bool sel b = Predicate ((predicate_on sel)\<lparr>pr_equals := Some (YOther (YBool b))\<rparr>)"

definition in_texts :: "metric_selector \<Rightarrow> str list \<Rightarrow> yaml_scalar condition" where
  "in_texts sel ts = Predicate ((predicate_on sel)\<lparr>pr_in := Some (map YString ts)\<rparr>)"

definition at_least_number :: "metric_selector \<Rightarrow> rat \<Rightarrow> yaml_scalar condition" where
  "at_least_number sel n = Predicate ((predicate_on sel)\<lparr>pr_at_least := Some (Fin n)\<rparr>)"

definition above_number :: "metric_selector \<Rightarrow> rat \<Rightarrow> yaml_scalar condition" where
  "above_number sel n = Predicate ((predicate_on sel)\<lparr>pr_greater_than := Some (Fin n)\<rparr>)"

definition missing_or_above :: "metric_selector \<Rightarrow> time \<Rightarrow> yaml_scalar condition" where
  "missing_or_above sel t = Predicate ((predicate_on sel)\<lparr>pr_missing_or_greater_than := Some t\<rparr>)"

definition rule_of :: "severity \<Rightarrow> str \<Rightarrow> yaml_scalar condition \<Rightarrow> str \<Rightarrow> yaml_scalar health_rule" where
  "rule_of severity i condition message = \<lparr>rl_id = i, rl_severity = severity, rl_when = condition, rl_message = message\<rparr>"

definition deployed_critical_rules :: "yaml_scalar health_rule list" where
  "deployed_critical_rules = map (\<lambda>(i, condition, message). rule_of SevCritical i condition message)
    [(''ups_low_battery'', equals_text SelUpsStatus ''low_battery'', ''UPS LOW BATTERY''),
     (''ups_output_off'', equals_text SelUpsStatus ''output_off'', ''UPS OUTPUT OFF''),
     (''ups_replace_battery'', equals_text SelUpsStatus ''replace_battery'', ''UPS REPLACE BAT''),
     (''smart_failed'', Any [equals_text SelSmartStatus ''failed''], ''SMART FAILED''),
     (''link_down'', equals_bool SelNetworkUp False, ''LINK DOWN''),
     (''internet_failed'', equals_text SelInternetStatus ''failed'', ''PING FAILED''),
     (''root_missing'', equals_bool (SelFilesystem ''root'' MountedField) False, ''{filesystem.root.label} MISSING''),
     (''root_full'', above_number (SelFilesystem ''root'' UsedPercentField) 90, ''{filesystem.root.label} {value}% FULL''),
     (''hdd_missing'', equals_bool (SelFilesystem ''hdd'' MountedField) False, ''{filesystem.hdd.label} MISSING''),
     (''hdd_full'', above_number (SelFilesystem ''hdd'' UsedPercentField) 90, ''{filesystem.hdd.label} {value}% FULL''),
     (''backup_storage_missing'', equals_bool (SelFilesystem ''backup'' MountedField) False, ''{filesystem.backup.label} MISSING''),
     (''backup_storage_full'', above_number (SelFilesystem ''backup'' UsedPercentField) 90,
       ''{filesystem.backup.label} {value}% FULL''),
     (''backup_unknown'', equals_text SelBackupStatus ''unknown'', ''BACKUP UNKNOWN'')]"

definition deployed_warning_rules :: "yaml_scalar health_rule list" where
  "deployed_warning_rules = map (\<lambda>(i, condition, message). rule_of SevWarning i condition message)
    [(''ups_on_battery'', equals_text SelUpsStatus ''on_battery'', ''UPS ON BATTERY''),
     (''ups_bypass'', equals_text SelUpsStatus ''bypass'', ''UPS BYPASS''),
     (''ups_unavailable'', Any [equals_text SelUpsStatus ''unavailable'',
       All [equals_text SelUpsStatus ''unknown'', equals_bool SelUpsStale False]], ''UPS UNAVAILABLE''),
     (''smart_warning'', Any [in_texts SelSmartStatus [''warning'', ''unknown'']], ''SMART WARNING''),
     (''cpu_high'', at_least_number SelCpuPercent 85, ''CPU {value}%''),
     (''memory_high'', at_least_number SelMemoryPercent 90, ''MEMORY {value}%''),
     (''io_pressure_high'', at_least_number SelIoPressurePercent 50, ''IO PRESS {value}%''),
     (''backup_no_job'', equals_text SelBackupStatus ''no_job'', ''BACKUP NO JOB''),
     (''backup_failed'', equals_text SelBackupStatus ''failed'', ''BACKUP FAILED''),
     (''backup_stale'', equals_text SelBackupStatus ''stale'', ''BACKUP OVERDUE''),
     (''backup_healthy_but_overdue'', All [equals_text SelBackupStatus ''healthy'',
       missing_or_above SelBackupAge (86400 * 1000000000)], ''BACKUP OVERDUE''),
     (''backup_running_without_recent_success'', All [equals_text SelBackupStatus ''running'',
       missing_or_above SelBackupAge (86400 * 1000000000)], ''BACKUP OVERDUE'')]"

definition deployed_health :: "yaml_scalar health_config" where
  "deployed_health = \<lparr>hf_default_severity = SevHealthy, hf_default_message = ''HEALTHY'',
     hf_rules = deployed_critical_rules @ deployed_warning_rules\<rparr>"

section \<open>Sources, views and outputs\<close>

definition deployed_sources :: sources_config where
  "deployed_sources = \<lparr>
     src_filesystems = [\<lparr>fc_id = ''root'', fc_path = ''/'', fc_label = ''/''\<rparr>,
       \<lparr>fc_id = ''hdd'', fc_path = ''/mnt/pve/hdd'', fc_label = ''HDD''\<rparr>,
       \<lparr>fc_id = ''backup'', fc_path = ''/mnt/pve/backup'', fc_label = ''BACKUP''\<rparr>],
     src_smart_devices = [\<lparr>sdc_id = ''root'', sdc_path = ''/dev/sda'', sdc_label = ''ROOT''\<rparr>,
       \<lparr>sdc_id = ''hdd'', sdc_path = ''/dev/sdb'', sdc_label = ''HDD''\<rparr>,
       \<lparr>sdc_id = ''backup'', sdc_path = ''/dev/sdc'', sdc_label = ''BACKUP''\<rparr>,
       \<lparr>sdc_id = ''sdd'', sdc_path = ''/dev/sdd'', sdc_label = ''SDD''\<rparr>,
       \<lparr>sdc_id = ''sde'', sdc_path = ''/dev/sde'', sdc_label = ''SDE''\<rparr>],
     src_ups = \<lparr>uf_endpoint = Some ''eaton@localhost'', uf_failures_before_unavailable = 2\<rparr>,
     src_internet = \<lparr>in_target = ''www.google.de'', in_interval = 30000000000, in_timeout = 4000000000,
       in_settle_delay = 3000000000, in_retry_delay = 5000000000, in_failures_before_failed = 2\<rparr>,
     src_task_history_limit = 50\<rparr>"

abbreviation yaml_texts :: "str list \<Rightarrow> yaml_scalar yaml" where
  "yaml_texts ts \<equiv> YSequence (map YString ts)"

abbreviation yaml_map :: "(str \<times> yaml_scalar yaml) list \<Rightarrow> yaml_scalar yaml" where
  "yaml_map kvs \<equiv> YMapping (map (\<lambda>(k, v). (YString k, v)) kvs)"

text \<open>The views of the file, with their titles and layouts as they are written there.\<close>

definition deployed_layouts :: "(str \<times> str \<times> yaml_scalar yaml) list" where
  "deployed_layouts =
    [(''overview'', ''OVERVIEW'', yaml_map [(''columns'', yaml_map [(''left'', YString ''health''),
       (''right'', yaml_map [(''rows'', yaml_texts [''host_summary'', ''network_summary'', ''guest_summary''])])])]),
     (''resources'', ''RESOURCES'', yaml_map [(''grid'', yaml_map [(''columns'', YOther (YNumber 2)),
       (''children'', yaml_texts [''cpu'', ''memory'', ''io_pressure'', ''load_average''])])]),
     (''storage'', ''STORAGE + SMART'', yaml_map [(''columns'', yaml_map
       [(''left'', yaml_map [(''filesystems'', yaml_texts [''root'', ''hdd'', ''backup'']), (''footer'', YString ''proxmox_backup'')]),
        (''right'', yaml_map [(''smart'', yaml_texts [''root'', ''hdd'', ''backup'', ''sdd'', ''sde''])])])]),
     (''power_network'', ''UPS + ETHERNET'', yaml_map [(''columns'', yaml_map [(''left'', YString ''ups''),
       (''right'', YString ''network'')])]),
     (''guests'', ''GUESTS'', yaml_map [(''single'', yaml_map [(''guest_list'', yaml_map [(''paginate'', YOther (YBool True))])])])]"

definition deployed_views :: "(str \<times> view_config) list" where
  "deployed_views =
    [(''overview'', \<lparr>vw_title = ''OVERVIEW'', vw_layout = LOverview\<rparr>),
     (''resources'', \<lparr>vw_title = ''RESOURCES'', vw_layout = LResources\<rparr>),
     (''storage'', \<lparr>vw_title = ''STORAGE + SMART'',
       vw_layout = LStorage [''root'', ''hdd'', ''backup''] [''root'', ''hdd'', ''backup'', ''sdd'', ''sde''] True\<rparr>),
     (''power_network'', \<lparr>vw_title = ''UPS + ETHERNET'', vw_layout = LPowerNetwork True\<rparr>),
     (''guests'', \<lparr>vw_title = ''GUESTS'', vw_layout = LGuests True 0 4\<rparr>)]"

definition deployed_outputs :: outputs_config where
  "deployed_outputs = \<lparr>ou_lcd_views = map fst deployed_views,
     ou_http = Some \<lparr>ho_enabled = True, ho_hostname = ''servatory'', ho_port = 80, ho_views = map fst deployed_views\<rparr>,
     ou_ntfy = Some \<lparr>no_enabled = True, no_server = ''https://ntfy.sh'', no_severities = [SevWarning, SevCritical],
       no_warning_priority = CfgHigh, no_critical_priority = CfgUrgent, no_recovery_priority = CfgDefault,
       no_notify_recovery = True, no_repeat_critical = Some 3600000000000, no_click_url = Some ''http://servatory.local/''\<rparr>\<rparr>"

definition deployed_config :: "yaml_scalar config" where
  "deployed_config = \<lparr>cf_version = 2, cf_host = \<lparr>cfg_update_interval = 5000000000\<rparr>,
     cf_usb = \<lparr>usb_device = ''/dev/servatory'', usb_reconnect_interval = 1000000000\<rparr>,
     cf_shutdown = \<lparr>sh_enabled = True, sh_hold_time = 3000000000, sh_animation_delay = 200000000\<rparr>,
     cf_sources = deployed_sources, cf_health = deployed_health, cf_views = map_of deployed_views,
     cf_outputs = deployed_outputs\<rparr>"

section \<open>The file parses and validates\<close>

text \<open>The layouts of the file are those of \<open>deployed_views\<close>, and its durations are the numbers above.\<close>

lemma deployed_layouts_parse:
  "map (\<lambda>(i, title, layout). (i, map_option (\<lambda>l. \<lparr>vw_title = title, vw_layout = l\<rparr>)
      (case parse_view_layout yaml_values layout of Inl e \<Rightarrow> None | Inr l \<Rightarrow> Some l))) deployed_layouts
    = map (\<lambda>(i, v). (i, Some v)) deployed_views"
  by (simp add: deployed_layouts_def deployed_views_def parse_view_layout_def column_contains_def yaml_values_def
      try_word_def)

lemma deployed_durations:
  "parse_duration ''5s'' = Inr (cfg_update_interval (cf_host deployed_config))"
  "parse_duration ''3s'' = Inr (sh_hold_time (cf_shutdown deployed_config))"
  "parse_duration ''200ms'' = Inr (sh_animation_delay (cf_shutdown deployed_config))"
  "parse_duration ''24h'' = Inr (86400 * 1000000000)" "parse_duration ''1h'' = Inr 3600000000000"
  by (simp_all add: parse_duration_def is_digit_def parse_word_def parse_nat_def digits_val_def digit_val_def try_word_def Let_def from_secs_def
      from_millis_def deployed_config_def)

lemma deployed_rule_list: "hf_rules (cf_health deployed_config) = deployed_critical_rules @ deployed_warning_rules"
  by (simp add: deployed_config_def deployed_health_def)

lemmas deployed_conditions = equals_text_def equals_bool_def in_texts_def at_least_number_def above_number_def
  missing_or_above_def predicate_on_def

lemma deployed_ids_valid:
  "list_all valid_id (map rl_id deployed_critical_rules)" "list_all valid_id (map rl_id deployed_warning_rules)"
  by (simp_all add: deployed_critical_rules_def deployed_warning_rules_def rule_of_def valid_id_def max_rule_id_len_def is_alnum_def)

lemma deployed_ids_distinct: "distinct (map rl_id (deployed_critical_rules @ deployed_warning_rules))"
  by (simp add: deployed_critical_rules_def deployed_warning_rules_def rule_of_def)

lemma deployed_rules_valid:
  "list_all (\<lambda>r. validate_rule (src_filesystems deployed_sources) r = Inr ()) deployed_critical_rules"
  "list_all (\<lambda>r. validate_rule (src_filesystems deployed_sources) r = Inr ()) deployed_warning_rules"
  by (simp_all add: deployed_critical_rules_def deployed_warning_rules_def rule_of_def validate_each deployed_conditions
      validate_predicate_def comparisons_def deployed_sources_def)

lemma each_Inr_list_all: "each f xs = Inr () \<longleftrightarrow> list_all (\<lambda>x. f x = Inr ()) xs"
  by (induction xs) auto

lemma deployed_health_valid: "validate_health (src_filesystems (cf_sources deployed_config)) (cf_health deployed_config) = Inr ()"
proof -
  have "validate_ids (map rl_id (deployed_critical_rules @ deployed_warning_rules)) ''health rule'' = Inr ()"
    using deployed_ids_valid deployed_ids_distinct by (simp add: validate_ids_iff list_all_iff ball_Un)
  moreover have "each (validate_rule (src_filesystems deployed_sources)) (deployed_critical_rules @ deployed_warning_rules) = Inr ()"
    using deployed_rules_valid by (simp add: each_Inr_list_all)
  ultimately show ?thesis
    by (simp add: validate_health_def validate_each deployed_config_def deployed_health_def)
qed

lemma deployed_sources_valid: "validate_sources (cf_sources deployed_config) = Inr ()"
  by (simp add: deployed_config_def deployed_sources_def validate_sources_def validate_ids_def valid_id_def
      max_rule_id_len_def is_alnum_def validate_filesystem_def validate_smart_device_def starts_with_def)

lemma deployed_outputs_valid: "validate_outputs deployed_config = Inr ()"
  by (simp add: deployed_config_def deployed_outputs_def validate_outputs_def validate_http_def validate_ntfy_def
      deployed_views_def is_alnum_def starts_with_def)

text \<open>What the display shows for \<open>n\<close> guests: one page for each view, and one more for each further
  four guests.\<close>

definition deployed_pages :: "nat \<Rightarrow> display_view list" where
  "deployed_pages n = [display_view_new (DisplayLabel ''OVERVIEW'') Overview, display_view_new (DisplayLabel ''RESOURCES'') Resources,
     display_view_new (DisplayLabel ''STORAGE + SMART'') (Storage True [0, 1, 2] [0, 1, 2, 3, 4]),
     display_view_new (DisplayLabel ''UPS + ETHERNET'') (PowerNetwork True)]
     @ map (\<lambda>k. display_view_new (DisplayLabel ''GUESTS'') (Guests (of_nat (k * 4)) 4)) [0..<div_ceil (max n 1) 4]"

lemma guest_pages_list:
  assumes "n < 2 ^ 32"
  shows "guest_pages title n = Inr (map (\<lambda>k. display_view_new title (Guests (of_nat (k * 4)) 4)) [0..<div_ceil (max n 1) 4])"
proof -
  have "try_word (k * 4) = Some (of_nat (k * 4) :: u32)" if "k < div_ceil (max n 1) 4" for k
    using that assms by (simp add: try_word_def div_ceil_def)
  then have "collect (\<lambda>index. and_then (ok_or (Bail ''out of range integral type conversion attempted'') (try_word (index * 4)))
      (\<lambda>offset. Inr (display_view_new title (Guests offset 4)))) ks
    = Inr (map (\<lambda>k. display_view_new title (Guests (of_nat (k * 4)) 4)) ks)" if "set ks \<subseteq> {..<div_ceil (max n 1) 4}" for ks
    using that by (induction ks) simp_all
  then show ?thesis by (simp add: guest_pages_def lessThan_atLeast0)
qed

lemma deployed_compiles:
  assumes "n < 2 ^ 32"
  shows "compile_pages_for deployed_config (map fst deployed_views) n out = Inr (deployed_pages n)"
  by (simp add: compile_pages_for_def deployed_config_def deployed_views_def view_pages_def guest_pages_list [OF assms]
      deployed_pages_def resolve_indices_def resolve_index_def filesystem_index_def smart_index_def deployed_sources_def
      try_word_def storage_pages_def div_ceil_def upt_rec)

definition deployed_display :: "str \<Rightarrow> nat \<Rightarrow> display_config" where
  "deployed_display version n = \<lparr>dc_hold_ms = 3000, dc_delay_ms = 200, dc_daemon_version = SoftwareVersion version,
     dc_labels = [DisplayLabel ''/'', DisplayLabel ''HDD'', DisplayLabel ''BACKUP''], dc_pages = deployed_pages n\<rparr>"

lemma deployed_display_config:
  assumes "n < 2 ^ 32"
  shows "display_config version deployed_config n = Inr (deployed_display version n)"
proof -
  have "compile_pages deployed_config n = Inr (deployed_pages n)"
    using deployed_compiles [OF assms] by (simp add: compile_pages_def deployed_config_def deployed_outputs_def)
  moreover have "sh_hold_time (cf_shutdown deployed_config) = 3000000000" "sh_animation_delay (cf_shutdown deployed_config) = 200000000"
      "map (\<lambda>f. DisplayLabel (fc_label f)) (src_filesystems (cf_sources deployed_config))
        = [DisplayLabel ''/'', DisplayLabel ''HDD'', DisplayLabel ''BACKUP'']" "deployed_pages n \<noteq> []"
    by (simp_all add: deployed_config_def deployed_sources_def deployed_pages_def)
  ultimately show ?thesis
    by (simp add: display_config_def as_millis_def try_word_def display_config_new_def deployed_display_def)
qed

definition deployed_network :: "nat \<Rightarrow> network_config" where
  "deployed_network n = \<lparr>net_http = http_config_new True ''servatory'' 80 (deployed_pages n),
     net_ntfy = ntfy_config_new True ''https://ntfy.sh'' \<lparr>sev_warning = True, sev_critical = True\<rparr> True
       PrioHigh PrioUrgent PrioDefault (Some 3600) (Some ''http://servatory.local/'')\<rparr>"

lemma deployed_network_config:
  assumes "n < 2 ^ 32"
  shows "network_config deployed_config n = Inr (deployed_network n)"
proof -
  have "ou_http (cf_outputs deployed_config) = Some \<lparr>ho_enabled = True, ho_hostname = ''servatory'', ho_port = 80,
      ho_views = map fst deployed_views\<rparr>"
    by (simp add: deployed_config_def deployed_outputs_def)
  moreover have "ntfy_config_of (ou_ntfy (cf_outputs deployed_config)) = net_ntfy (deployed_network n)"
    by (simp add: deployed_config_def deployed_outputs_def ntfy_config_of_def deployed_network_def whole_secs_def clamp_word_def try_word_def)
  ultimately show ?thesis
    using deployed_compiles [OF assms] by (simp add: network_config_def deployed_network_def)
qed

lemma deployed_valid_iff:
  "validate ser version deployed_config = Inr () \<longleftrightarrow>
    (\<exists>f. encode ser (DisplayConfigMsg (deployed_display version 0)) max_host_frame_len = Inr f)
    \<and> (\<exists>f. encode ser (NetworkConfigMsg (deployed_network 0)) max_host_frame_len = Inr f)"
proof -
  have "validate_timing deployed_config = Inr ()"
    by (simp add: validate_timing_def deployed_config_def)
  moreover have "validate_manifest_sizes ser version deployed_config = Inr () \<longleftrightarrow>
      (\<exists>f. encode ser (DisplayConfigMsg (deployed_display version 0)) max_host_frame_len = Inr f)
      \<and> (\<exists>f. encode ser (NetworkConfigMsg (deployed_network 0)) max_host_frame_len = Inr f)"
    by (auto simp: validate_manifest_sizes_def deployed_display_config deployed_network_config fits_frame_def split: sum.splits)
  ultimately show ?thesis
    using deployed_sources_valid deployed_health_valid deployed_outputs_valid by (simp add: validate_iff)
qed

section \<open>What the policy means\<close>

definition filesystem_trouble :: "health_snapshot \<Rightarrow> nat \<Rightarrow> bool" where
  "filesystem_trouble s i = (case get_nth (hs_filesystems s) i of None \<Rightarrow> False
     | Some u \<Rightarrow> \<not> fs_mounted u \<or> 90 < unat (fs_used_percent u))"

definition critical_state :: "health_snapshot \<Rightarrow> bool" where
  "critical_state s = (ups_status (hs_ups s) \<in> {LowBattery, OutputOff, ReplaceBattery}
     \<or> (\<exists>d \<in> set (hs_smart s). sd_status d = SmartFailed)
     \<or> \<not> hs_network_up s \<or> hs_internet s = NetFailed
     \<or> filesystem_trouble s 0 \<or> filesystem_trouble s 1 \<or> filesystem_trouble s 2
     \<or> hs_backup s = BackupUnknown)"

definition backup_overdue :: "health_snapshot \<Rightarrow> bool" where
  "backup_overdue s = (case hs_backup_age s of None \<Rightarrow> True | Some age \<Rightarrow> 86400 < unat age)"

definition warning_state :: "health_snapshot \<Rightarrow> bool" where
  "warning_state s = (ups_status (hs_ups s) \<in> {OnBattery, Bypass, Unavailable}
     \<or> (ups_status (hs_ups s) = UpsUnknown \<and> \<not> ups_stale (hs_ups s))
     \<or> (\<exists>d \<in> set (hs_smart s). sd_status d \<in> {SmartWarning, SmartUnknown})
     \<or> 85 \<le> unat (hs_cpu s) \<or> 90 \<le> unat (memory_percent s) \<or> 50 \<le> unat (hs_io_pressure s)
     \<or> hs_backup s \<in> {NoJob, BackupFailed, BackupStale}
     \<or> (hs_backup s \<in> {BackupHealthy, BackupRunning} \<and> backup_overdue s))"

text \<open>Each kind of condition, over the snapshot.\<close>

lemma status_names:
  "ups_status_name x = ''low_battery'' \<longleftrightarrow> x = LowBattery" "ups_status_name x = ''output_off'' \<longleftrightarrow> x = OutputOff"
  "ups_status_name x = ''replace_battery'' \<longleftrightarrow> x = ReplaceBattery" "ups_status_name x = ''on_battery'' \<longleftrightarrow> x = OnBattery"
  "ups_status_name x = ''bypass'' \<longleftrightarrow> x = Bypass" "ups_status_name x = ''unavailable'' \<longleftrightarrow> x = Unavailable"
  "ups_status_name x = ''unknown'' \<longleftrightarrow> x = UpsUnknown"
  "smart_status_name y = ''failed'' \<longleftrightarrow> y = SmartFailed" "smart_status_name y = ''warning'' \<longleftrightarrow> y = SmartWarning"
  "smart_status_name y = ''unknown'' \<longleftrightarrow> y = SmartUnknown"
  "internet_status_name z = ''failed'' \<longleftrightarrow> z = NetFailed"
  "backup_status_name b = ''unknown'' \<longleftrightarrow> b = BackupUnknown" "backup_status_name b = ''no_job'' \<longleftrightarrow> b = NoJob"
  "backup_status_name b = ''failed'' \<longleftrightarrow> b = BackupFailed" "backup_status_name b = ''stale'' \<longleftrightarrow> b = BackupStale"
  "backup_status_name b = ''healthy'' \<longleftrightarrow> b = BackupHealthy" "backup_status_name b = ''running'' \<longleftrightarrow> b = BackupRunning"
  by (cases x; simp; fail | cases y; simp; fail | cases z; simp; fail | cases b; simp; fail)+

lemma text_conditions:
  assumes "yaml_ok Y"
  shows "matches_condition Y fss s (equals_text SelUpsStatus t) \<longleftrightarrow> ups_status_name (ups_status (hs_ups s)) = t"
    "matches_condition Y fss s (equals_text SelInternetStatus t) \<longleftrightarrow> internet_status_name (hs_internet s) = t"
    "matches_condition Y fss s (equals_text SelBackupStatus t) \<longleftrightarrow> backup_status_name (hs_backup s) = t"
    "matches_condition Y fss s (equals_text SelSmartStatus t) \<longleftrightarrow> (\<exists>d \<in> set (hs_smart s). smart_status_name (sd_status d) = t)"
    "matches_condition Y fss s (in_texts SelSmartStatus ts) \<longleftrightarrow> (\<exists>d \<in> set (hs_smart s). smart_status_name (sd_status d) \<in> set ts)"
    "matches_condition Y fss s (equals_bool SelUpsStale b) \<longleftrightarrow> ups_stale (hs_ups s) = b"
    "matches_condition Y fss s (equals_bool SelNetworkUp b) \<longleftrightarrow> hs_network_up s = b"
  using assms by (auto simp: yaml_ok_def deployed_conditions matches_selector_def matches_predicate_def metric_def metric_equals_def
      list_ex_iff)

lemma unsigned_u8_le: "(numeral k :: rat) \<le> of_nat (unat (w :: u8)) \<longleftrightarrow> numeral k \<le> unat w"
  by (metis of_nat_le_iff of_nat_numeral)

lemma unsigned_u8_less: "(numeral k :: rat) < of_nat (unat (w :: u8)) \<longleftrightarrow> numeral k < unat w"
  by (metis of_nat_less_iff of_nat_numeral)

lemma number_conditions:
  "matches_condition Y fss s (at_least_number SelCpuPercent (numeral k)) \<longleftrightarrow> numeral k \<le> unat (hs_cpu s)"
  "matches_condition Y fss s (at_least_number SelMemoryPercent (numeral k)) \<longleftrightarrow> numeral k \<le> unat (memory_percent s)"
  "matches_condition Y fss s (at_least_number SelIoPressurePercent (numeral k)) \<longleftrightarrow> numeral k \<le> unat (hs_io_pressure s)"
  by (simp_all only: deployed_conditions matches_condition.simps matches_selector_def matches_predicate_def metric_def
      predicate.simps metric_selector.simps option.simps number_satisfies_def metric.simps f64_of_u8 f64_cmp_Fin unsigned_u8_le)

lemma backup_condition:
  "matches_condition Y fss s (missing_or_above SelBackupAge (86400 * 1000000000)) \<longleftrightarrow> backup_overdue s"
  using backup_age_rule_exact [of 86400 Y fss s] by (simp add: deployed_conditions backup_overdue_def)

lemma filesystem_conditions:
  assumes "yaml_ok Y" "position (\<lambda>f. fc_id f = i) fss = Some k"
  shows "matches_condition Y fss s (equals_bool (SelFilesystem i MountedField) False)
      \<longleftrightarrow> (\<exists>u. get_nth (hs_filesystems s) k = Some u \<and> \<not> fs_mounted u)"
    "matches_condition Y fss s (above_number (SelFilesystem i UsedPercentField) (numeral n))
      \<longleftrightarrow> (\<exists>u. get_nth (hs_filesystems s) k = Some u \<and> numeral n < unat (fs_used_percent u))"
proof -
  show "matches_condition Y fss s (equals_bool (SelFilesystem i MountedField) False)
      \<longleftrightarrow> (\<exists>u. get_nth (hs_filesystems s) k = Some u \<and> \<not> fs_mounted u)"
    using assms by (auto simp: yaml_ok_def deployed_conditions matches_selector_def matches_predicate_def metric_def
        metric_equals_def split: option.split)
  show "matches_condition Y fss s (above_number (SelFilesystem i UsedPercentField) (numeral n))
      \<longleftrightarrow> (\<exists>u. get_nth (hs_filesystems s) k = Some u \<and> numeral n < unat (fs_used_percent u))"
    using assms(2) by (simp add: deployed_conditions matches_selector_def matches_predicate_def metric_def number_satisfies_def
        f64_of_u8 unsigned_u8_less del: of_nat_unat split: option.split)
qed

lemma deployed_positions:
  "position (\<lambda>f. fc_id f = ''root'') (src_filesystems deployed_sources) = Some 0"
  "position (\<lambda>f. fc_id f = ''hdd'') (src_filesystems deployed_sources) = Some 1"
  "position (\<lambda>f. fc_id f = ''backup'') (src_filesystems deployed_sources) = Some 2"
  by (simp_all add: deployed_sources_def)

lemma filesystem_trouble_iff:
  "filesystem_trouble s i \<longleftrightarrow> (\<exists>u. get_nth (hs_filesystems s) i = Some u \<and> \<not> fs_mounted u)
     \<or> (\<exists>u. get_nth (hs_filesystems s) i = Some u \<and> 90 < unat (fs_used_percent u))"
  by (auto simp: filesystem_trouble_def split: option.splits)

lemma critical_rules_match:
  assumes "yaml_ok Y"
  shows "(\<exists>r \<in> set deployed_critical_rules. matches_condition Y (src_filesystems deployed_sources) s (rl_when r)) \<longleftrightarrow> critical_state s"
  by (simp add: deployed_critical_rules_def rule_of_def text_conditions [OF assms] status_names
      filesystem_conditions [OF assms deployed_positions(1)] filesystem_conditions [OF assms deployed_positions(2)]
      filesystem_conditions [OF assms deployed_positions(3)] critical_state_def filesystem_trouble_iff disj_ac)

lemma warning_rules_match:
  assumes "yaml_ok Y"
  shows "(\<exists>r \<in> set deployed_warning_rules. matches_condition Y (src_filesystems deployed_sources) s (rl_when r)) \<longleftrightarrow> warning_state s"
  by (auto simp add: deployed_warning_rules_def rule_of_def text_conditions [OF assms] status_names
      number_conditions backup_condition [simplified] warning_state_def)

text \<open>The level of a report is the highest level of a rule that matches.\<close>

lemma report_level:
  assumes "evaluate_health Y cfg s = Some (report, is)"
  shows "hr_level report = (let matching = filter (\<lambda>r. matches_condition Y (src_filesystems (cf_sources cfg)) s (rl_when r))
        (hf_rules (cf_health cfg)) in
      if matching = [] then severity_level (hf_default_severity (cf_health cfg))
      else Max (set (map (\<lambda>r. severity_level (rl_severity r)) matching)))"
proof -
  let ?m = "filter (\<lambda>r. matches_condition Y (src_filesystems (cf_sources cfg)) s (rl_when r)) (hf_rules (cf_health cfg))"
  have r: "report = primary_report (cf_health cfg) is"
      "rule_incidents Y (src_filesystems (cf_sources cfg)) s (hf_rules (cf_health cfg)) = Some is"
    using assms by (auto simp: evaluate_health_def)
  have levels: "map inc_level is = map (\<lambda>r. severity_level (rl_severity r)) ?m"
    using rule_incidents_ids [OF r(2)] by (auto simp: list_all2_conv_all_nth list_eq_iff_nth_eq)
  show ?thesis
  proof (cases "is = []")
    case True
    then have "?m = []" using levels by simp
    with True show ?thesis by (simp add: r(1) primary_report_def report_new_def)
  next
    case False
    then obtain i where i: "foldl more_severe None is = Some i" "first_most_severe is i"
      using foldl_more_severe by blast
    have "inc_level i = Max (inc_level ` set is)"
    proof (rule sym, rule Max_eqI)
      show "\<And>l. l \<in> inc_level ` set is \<Longrightarrow> l \<le> inc_level i" "inc_level i \<in> inc_level ` set is"
        using i(2) by (auto simp: first_most_severe_def order_le_less)
    qed simp
    also have "inc_level ` set is = set (map (\<lambda>r. severity_level (rl_severity r)) ?m)"
      unfolding levels [symmetric] by simp
    finally show ?thesis
      using False levels i(1) by (auto simp: r(1) primary_report_def report_new_def Let_def)
  qed
qed

lemma deployed_levels:
  assumes "yaml_ok Y" "evaluate_health Y deployed_config s = Some (report, is)"
  shows "hr_level report = (if critical_state s then Critical else if warning_state s then Warning else Healthy)"
proof -
  let ?M = "\<lambda>r. matches_condition Y (src_filesystems deployed_sources) s (rl_when r)"
  let ?m = "filter ?M (deployed_critical_rules @ deployed_warning_rules)"
  let ?levels = "set (map (\<lambda>r. severity_level (rl_severity r)) ?m)"
  have severities: "\<forall>r \<in> set deployed_critical_rules. rl_severity r = SevCritical"
      "\<forall>r \<in> set deployed_warning_rules. rl_severity r = SevWarning"
    by (auto simp: deployed_critical_rules_def deployed_warning_rules_def rule_of_def)
  have levels: "?levels = (if critical_state s then {Critical} else {}) \<union> (if warning_state s then {Warning} else {})"
    using severities critical_rules_match [OF assms(1), of s] warning_rules_match [OF assms(1), of s] by (auto simp: image_iff)
  have none: "?m = [] \<longleftrightarrow> \<not> critical_state s \<and> \<not> warning_state s"
    using critical_rules_match [OF assms(1), of s] warning_rules_match [OF assms(1), of s] by (auto simp: filter_empty_conv)
  have "hr_level report = (if ?m = [] then Healthy else Max ?levels)"
    using report_level [OF assms(2)] by (simp add: deployed_rule_list Let_def deployed_config_def deployed_health_def)
  then show ?thesis
    unfolding levels none by (auto simp: max_def less_eq_health_level_def)
qed

section \<open>The messages of the policy\<close>

text \<open>A number of one byte is written with at most three digits.\<close>

lemma byte_text: "length (f64_fmt0 (f64_of_nat (unat (w :: u8)))) \<le> 3"
proof -
  have "unat w < 10 ^ 3" using unsigned_less [of w, where ?'a = nat] by simp
  then have "length (dec (unat w)) \<le> 3" by (rule length_dec [rotated]) simp
  moreover have "f64_fmt0 (Fin (of_nat (unat w))) = dec (unat w)"
    using round_even_of_int [of "int (unat w)"] by (simp add: f64_fmt0_def del: round_even_of_int of_nat_unat)
  ultimately show ?thesis by (simp only: f64_of_u8)
qed

lemma zero_text: "length (f64_fmt0 (Fin 0)) \<le> 3"
  using byte_text [of 0] by (simp add: f64_of_nat_def to_f64_def)

lemma value_texts:
  assumes "3 \<le> k"
  shows "length (f64_fmt0 (unwrap_or (Fin 0) (metrics_for_value fss s (at_least_number SelCpuPercent n)))) \<le> k"
    "length (f64_fmt0 (unwrap_or (Fin 0) (metrics_for_value fss s (at_least_number SelMemoryPercent n)))) \<le> k"
    "length (f64_fmt0 (unwrap_or (Fin 0) (metrics_for_value fss s (at_least_number SelIoPressurePercent n)))) \<le> k"
    "length (f64_fmt0 (unwrap_or (Fin 0) (metrics_for_value fss s (above_number (SelFilesystem i UsedPercentField) n)))) \<le> k"
  using byte_text zero_text assms
  by (auto simp: deployed_conditions metric_def split: option.split intro: order_trans [OF _ assms])

lemmas message_steps = rule_of_def render_message_def replace_label_def Let_def contains_str_def starts_with_def label_placeholder_def

lemma deployed_messages:
  "list_all (\<lambda>r. render_message (src_filesystems deployed_sources) s r \<noteq> []
     \<and> length (render_message (src_filesystems deployed_sources) s r) \<le> 16) deployed_critical_rules"
  "list_all (\<lambda>r. render_message (src_filesystems deployed_sources) s r \<noteq> []
     \<and> length (render_message (src_filesystems deployed_sources) s r) \<le> 16) deployed_warning_rules"
  by (simp_all add: deployed_critical_rules_def deployed_warning_rules_def deployed_sources_def message_steps value_texts)

lemma list_all2_right: "list_all2 P xs ys \<Longrightarrow> y \<in> set ys \<Longrightarrow> \<exists>x \<in> set xs. P x y"
  by (induction rule: list_all2_induct) auto

lemma deployed_incident_messages:
  assumes "evaluate_health Y deployed_config s = Some (report, is)" "i \<in> set is"
  shows "inc_message i \<noteq> [] \<and> length (inc_message i) \<le> 16"
proof -
  have "rule_incidents Y (src_filesystems deployed_sources) s (deployed_critical_rules @ deployed_warning_rules) = Some is"
    using assms(1) by (auto simp: evaluate_health_def deployed_config_def deployed_health_def)
  from list_all2_right [OF rule_incidents_ids [OF this] assms(2)]
  obtain r where r: "r \<in> set deployed_critical_rules \<union> set deployed_warning_rules"
      "inc_message i = render_message (src_filesystems deployed_sources) s r" by auto
  from r(1) show ?thesis unfolding r(2) using deployed_messages [of s] unfolding list_all_iff by blast
qed

text \<open>(C16) The policy that ships says what it is meant to: for every snapshot the evaluation returns,
  the report is critical exactly when the UPS, a disk, the link, the Internet, a filesystem or the
  backup is in a critical state, otherwise a warning exactly when one of the warning states holds,
  and otherwise the default; and every message of an incident, with its label and value filled in, is
  not empty and fits the sixteen bytes of the cause line on the overview screen.\<close>

theorem deployed_policy_exact:
  assumes "yaml_ok Y"
  shows "\<exists>report is. evaluate_health Y deployed_config s = Some (report, is)
    \<and> hr_level report = (if critical_state s then Critical else if warning_state s then Warning else Healthy)
    \<and> (is = [] \<longleftrightarrow> \<not> critical_state s \<and> \<not> warning_state s)
    \<and> (\<forall>i \<in> set is. inc_message i \<noteq> [] \<and> length (inc_message i) \<le> 16)"
proof -
  have "\<forall>r \<in> set (deployed_critical_rules @ deployed_warning_rules). valid_rule_id (rl_id r)"
    using deployed_ids_valid by (auto simp: list_all_iff valid_id_rule_id)
  then obtain "is" where "is": "rule_incidents Y (src_filesystems deployed_sources) s
      (deployed_critical_rules @ deployed_warning_rules) = Some is"
    using rule_incidents_total by blast
  then obtain report where report: "evaluate_health Y deployed_config s = Some (report, is)"
    by (simp add: evaluate_health_def deployed_config_def deployed_health_def)
  have "is = [] \<longleftrightarrow> filter (\<lambda>r. matches_condition Y (src_filesystems deployed_sources) s (rl_when r))
      (deployed_critical_rules @ deployed_warning_rules) = []"
    using list_all2_lengthD [OF rule_incidents_ids [OF "is"]] by (metis length_0_conv)
  then have "is = [] \<longleftrightarrow> \<not> critical_state s \<and> \<not> warning_state s"
    using critical_rules_match [OF assms, of s] warning_rules_match [OF assms, of s] by (auto simp: filter_empty_conv)
  then show ?thesis
    using report deployed_levels [OF assms report] deployed_incident_messages [OF report] by blast
qed

text \<open>A healthy host, and the same host with its backup disk at 95 per cent.\<close>

definition calm_snapshot :: health_snapshot where
  "calm_snapshot = snapshot_new ''pve-01'' 86400 23 16384 32768 4 82
     [filesystem_new 20 81920, filesystem_new 30 7168000, filesystem_new 40 4096000]
     BackupHealthy (Some 21600) True 2500 ''enp3s0'' Reachable (Some 0) [10, 0, 0, 12] [] ups_not_configured []"

theorem deployed_policy_exact_witness:
  "(\<exists>report is. evaluate_health yaml_values deployed_config calm_snapshot = Some (report, is) \<and> hr_level report = Healthy \<and> is = [])
    \<and> (\<exists>report is. evaluate_health yaml_values deployed_config
        (calm_snapshot\<lparr>hs_filesystems := [filesystem_new 20 81920, filesystem_new 30 7168000, filesystem_new 95 4096]\<rparr>) = Some (report, is)
      \<and> hr_level report = Critical \<and> is \<noteq> [])"
proof -
  let ?full = "calm_snapshot\<lparr>hs_filesystems := [filesystem_new 20 81920, filesystem_new 30 7168000, filesystem_new 95 4096]\<rparr>"
  note states = critical_state_def warning_state_def filesystem_trouble_def calm_snapshot_def snapshot_new_def filesystem_new_def
    ups_not_configured_def backup_overdue_def memory_percent_def try_word_def
  have "\<not> critical_state calm_snapshot" "\<not> warning_state calm_snapshot" "critical_state ?full"
    by (simp_all add: states)
  then show ?thesis
    using deployed_policy_exact [OF yaml_values_ok, of calm_snapshot] deployed_policy_exact [OF yaml_values_ok, of ?full] by auto
qed

end
