(* ===== verification/Tests_Health.thy ===== *)
theory Tests_Health
  imports Probe
begin

text \<open>
  The unit tests of the readings (\<open>host/src/health.rs\<close>, \<open>mod tests\<close>) on the model: each test function is
  a boolean definition of its name, the conjunction of its assertions, and the lemma after it says that
  it holds. A JSON text is given as the tree \<open>serde_json\<close> makes of it, a directory of files as what the
  file system answers; the test that runs real processes is left out.
\<close>

section \<open>Evaluating text\<close>

lemma trim_plain: "plain_word w \<Longrightarrow> trim w = w" "plain_word w \<Longrightarrow> trim (CHR '' '' # w) = w"
proof -
  have drop: "dropWhile is_white (map (\<lambda>c. [c]) w) = map (\<lambda>c. [c]) w" if "\<forall>c \<in> set w. \<not> is_white [c]" for w
    using that by (cases w) auto
  have concat: "concat (map (\<lambda>c. [c]) w) = w" for w :: str by (induction w) auto
  assume w: "plain_word w"
  then have a: "list_all is_ascii w" "\<forall>c \<in> set w. \<not> is_white [c]" by (auto simp: plain_word_def list_all_iff)
  then show "trim w = w" "trim (CHR '' '' # w) = w"
    using drop [of w] drop [of "rev w"] concat [of w]
    by (simp_all add: trim_def utf8_chars_ascii is_ascii_def rev_map del: utf8_chars.simps concat_map_singleton)
qed

lemmas plain_text = plain_word_def is_ascii_def is_white_def

definition text_lines :: "str list \<Rightarrow> str" where
  "text_lines ls = concat (map (\<lambda>l. l @ [CHR 0x0A]) ls)"

lemma lines_text:
  assumes "list_all (\<lambda>l. CHR 0x0A \<notin> set l \<and> (l = [] \<or> last l \<noteq> CHR 0x0D)) ls"
  shows "lines (text_lines ls) = ls"
  using assms by (induction ls) (auto simp: text_lines_def lines_def lines_from_line strip_cr_def)

lemmas number_steps = parse_word_def parse_nat_def digits_val_def digit_val_def is_digit_def try_word_def

section \<open>The refresh schedule\<close>

definition refresh_schedule_only_becomes_due_at_its_deadline :: "time \<Rightarrow> bool" where
  "refresh_schedule_only_becomes_due_at_its_deadline now =
     (let (due0, next0) = refresh_due now now (secs 30);
          (due1, next1) = refresh_due (now + secs 29) next0 (secs 30);
          (due2, next2) = refresh_due (now + secs 30) next1 (secs 30)
      in due0 \<and> \<not> due1 \<and> due2)"

lemma refresh_schedule_only_becomes_due_at_its_deadline_holds: "refresh_schedule_only_becomes_due_at_its_deadline now"
  by (simp add: refresh_schedule_only_becomes_due_at_its_deadline_def refresh_due_def secs_def)

section \<open>Text of \<open>df\<close> and \<open>upsc\<close>\<close>

definition parses_df_usage_and_available_space :: bool where
  "parses_df_usage_and_available_space \<longleftrightarrow>
     (case parse_filesystem_usage (text_lines [''Filesystem 1024-blocks Used Available Capacity Mounted on'',
         ''/dev/sdc1 9767546464 5476083304 3758096384 60% /mnt/pve/backup'']) ''/mnt/pve/backup'' of
       None \<Rightarrow> False | Some usage \<Rightarrow> fs_mounted usage \<and> fs_used_percent usage = 60 \<and> fs_available_mib usage = 3670016)
     \<and> parse_filesystem_usage (text_lines [''Filesystem 1024-blocks Used Available Capacity Mounted on'',
         ''/dev/mapper/pve-root 98559220 5000000 87000000 6% /'']) ''/mnt/pve/backup'' = None"

lemma df_words:
  "split_whitespace ''/dev/sdc1 9767546464 5476083304 3758096384 60% /mnt/pve/backup''
    = [''/dev/sdc1'', ''9767546464'', ''5476083304'', ''3758096384'', ''60%'', ''/mnt/pve/backup'']"
  "split_whitespace ''/dev/mapper/pve-root 98559220 5000000 87000000 6% /''
    = [''/dev/mapper/pve-root'', ''98559220'', ''5000000'', ''87000000'', ''6%'', ''/'']"
  using split_whitespace_unwords [of "[''/dev/sdc1'', ''9767546464'', ''5476083304'', ''3758096384'', ''60%'', ''/mnt/pve/backup'']"]
    split_whitespace_unwords [of "[''/dev/mapper/pve-root'', ''98559220'', ''5000000'', ''87000000'', ''6%'', ''/'']"]
  by (simp_all add: plain_text)

lemma parses_df_usage_and_available_space_holds: "parses_df_usage_and_available_space"
  by (simp add: parses_df_usage_and_available_space_def parse_filesystem_usage_def lines_text df_words number_steps
      trim_end_char_def filesystem_new_def clamp_word_def)

definition parses_read_only_nut_status_and_estimated_power :: bool where
  "parses_read_only_nut_status_and_estimated_power \<longleftrightarrow>
     (case parse_upsc (text_lines [''battery.charge: 100'', ''battery.runtime: 2160'', ''ups.load: 15'', ''ups.realpower: 102'',
         ''ups.status: OL'']) of
       None \<Rightarrow> False
     | Some snapshot \<Rightarrow> ups_status snapshot = Online \<and> ups_battery snapshot = Some 100 \<and> ups_load snapshot = Some 15
         \<and> ups_runtime snapshot = Some 2160 \<and> ups_watts snapshot = Some 102 \<and> \<not> ups_stale snapshot)"

lemma upsc_trims:
  "trim ''battery.charge'' = ''battery.charge''" "trim ''battery.runtime'' = ''battery.runtime''" "trim ''ups.load'' = ''ups.load''"
  "trim ''ups.realpower'' = ''ups.realpower''" "trim ''ups.status'' = ''ups.status''"
  "trim '' 100'' = ''100''" "trim '' 2160'' = ''2160''" "trim '' 15'' = ''15''" "trim '' 102'' = ''102''" "trim '' OL'' = ''OL''"
  by (rule trim_plain, simp add: plain_text)+

lemma upsc_numbers:
  "parse_percent_u8 ''100'' = Some 100" "parse_percent_u8 ''15'' = Some 15"
  "(parse_word ''2160'' :: u32 option) = Some 2160" "map_option bounded_u16 (parse_f64 ''102'') = Some 102"
proof -
  have "parse_f64 ''100'' = Some (Fin 100)" "parse_f64 ''15'' = Some (Fin 15)" "parse_f64 ''102'' = Some (Fin 102)"
    using parse_f64_digits [of "''100''"] parse_f64_digits [of "''15''"] parse_f64_digits [of "''102''"]
    by (simp_all add: is_digit_def digits_val_def digit_val_def)
  moreover have "\<lfloor>201 / 2 :: rat\<rfloor> = 100" "\<lfloor>31 / 2 :: rat\<rfloor> = 15" "\<lfloor>205 / 2 :: rat\<rfloor> = 102"
    by (rule floor_unique; simp)+
  then have "percent (Fin 100) = 100" "percent (Fin 15) = 15" "bounded_u16 (Fin 102) = 102"
    by (simp_all add: percent_def bounded_u16_def f64_clamp_def f64_round_def f64_as_uint_def clamp_word_def try_word_def)
  ultimately show "parse_percent_u8 ''100'' = Some 100" "parse_percent_u8 ''15'' = Some 15"
      "map_option bounded_u16 (parse_f64 ''102'') = Some 102"
    by (simp_all add: parse_percent_u8_def)
  show "(parse_word ''2160'' :: u32 option) = Some 2160" by (simp add: number_steps)
qed

lemma upsc_flags: "split_whitespace ''OL'' = [''OL'']"
  using split_whitespace_unwords [of "[''OL'']"] by (simp add: plain_text)

lemma parses_read_only_nut_status_and_estimated_power_holds: "parses_read_only_nut_status_and_estimated_power"
  by (simp add: parses_read_only_nut_status_and_estimated_power_def parse_upsc_def upsc_value_def lines_text upsc_trims
      upsc_numbers upsc_status_def upsc_flags)

definition nut_status_uses_the_most_urgent_flag :: bool where
  "nut_status_uses_the_most_urgent_flag \<longleftrightarrow>
     map_option ups_status (parse_upsc (text_lines [''ups.status: OB LB DISCHRG''])) = Some LowBattery
     \<and> map_option ups_status (parse_upsc (text_lines [''ups.status: OL RB''])) = Some ReplaceBattery"

lemma urgent_flags:
  "trim '' OB LB DISCHRG'' = ''OB LB DISCHRG''" "trim '' OL RB'' = ''OL RB''"
  "split_whitespace ''OB LB DISCHRG'' = [''OB'', ''LB'', ''DISCHRG'']" "split_whitespace ''OL RB'' = [''OL'', ''RB'']"
proof -
  show "trim '' OB LB DISCHRG'' = ''OB LB DISCHRG''" "trim '' OL RB'' = ''OL RB''"
    by (simp_all add: trim_def utf8_chars_ascii is_ascii_def is_white_def del: utf8_chars.simps)
  show "split_whitespace ''OB LB DISCHRG'' = [''OB'', ''LB'', ''DISCHRG'']" "split_whitespace ''OL RB'' = [''OL'', ''RB'']"
    using split_whitespace_unwords [of "[''OB'', ''LB'', ''DISCHRG'']"] split_whitespace_unwords [of "[''OL'', ''RB'']"]
    by (simp_all add: plain_text)
qed

lemma nut_status_uses_the_most_urgent_flag_holds: "nut_status_uses_the_most_urgent_flag"
  by (simp add: nut_status_uses_the_most_urgent_flag_def parse_upsc_def upsc_value_def lines_text upsc_trims urgent_flags upsc_status_def)

section \<open>JSON trees\<close>

datatype json_tree = TreeBool bool | TreeInt int | TreeReal rat | TreeText str | TreeArray "json_tree list"
  | TreeObject "(str \<times> json_tree) list"

fun tree_walk :: "json_tree \<Rightarrow> str list \<Rightarrow> json_tree option" where
  "tree_walk t [] = Some t"
| "tree_walk (TreeObject kvs) (k # ks) = Option.bind (map_of kvs k) (\<lambda>t. tree_walk t ks)"
| "tree_walk t (k # ks) = None"

text \<open>The accessors \<open>serde_json\<close> documents, over given texts and their trees.\<close>

definition tree_api :: "(string \<times> json_tree) list \<Rightarrow> json_tree json_api" where
  "tree_api texts = \<lparr>j_parse = map_of texts, j_null = TreeObject [],
     j_get = (\<lambda>t k. tree_walk t [k]), j_pointer = (\<lambda>t p. tree_walk t (tl (split_char (CHR ''/'') p))),
     j_str = (\<lambda>t. case t of TreeText s \<Rightarrow> Some s | _ \<Rightarrow> None),
     j_u64 = (\<lambda>t. case t of TreeInt n \<Rightarrow> (if n < 0 then None else try_word (nat n)) | _ \<Rightarrow> None),
     j_i64 = (\<lambda>t. case t of TreeInt n \<Rightarrow> (if - (2 ^ 63) \<le> n \<and> n < 2 ^ 63 then Some n else None) | _ \<Rightarrow> None),
     j_f64 = (\<lambda>t. case t of TreeInt n \<Rightarrow> Some (to_f64 (of_int n)) | TreeReal r \<Rightarrow> Some (to_f64 r) | _ \<Rightarrow> None),
     j_bool = (\<lambda>t. case t of TreeBool b \<Rightarrow> Some b | _ \<Rightarrow> None),
     j_array = (\<lambda>t. case t of TreeArray ts \<Rightarrow> Some ts | _ \<Rightarrow> None),
     j_is_number = (\<lambda>t. case t of TreeInt n \<Rightarrow> True | TreeReal r \<Rightarrow> True | _ \<Rightarrow> False)\<rparr>"

lemmas tree_steps = tree_api_def json_field_str_def json_field_u64_def backup_job_enabled_def local_node_def

section \<open>SMART and backups\<close>

definition parses_smart_temperature_from_json_variants :: bool where
  "parses_smart_temperature_from_json_variants \<longleftrightarrow>
     smart_temperature (tree_api []) (TreeObject [(''temperature'', TreeObject [(''current'', TreeInt 31)])]) = Some 31
     \<and> smart_temperature (tree_api []) (TreeObject [(''ata_smart_attributes'', TreeObject [(''table'', TreeArray
         [TreeObject [(''name'', TreeText ''Temperature_Celsius''), (''raw'', TreeObject [(''value'', TreeInt 38)])]])])]) = Some 38"

lemma parses_smart_temperature_from_json_variants_holds: "parses_smart_temperature_from_json_variants"
  by (simp add: parses_smart_temperature_from_json_variants_def smart_temperature_def tree_api_def)

definition backup_texts :: "json_tree list \<Rightarrow> json_tree list \<Rightarrow> json_tree json_api" where
  "backup_texts jobs tasks = tree_api [(''jobs'', TreeArray jobs), (''tasks'', TreeArray tasks)]"

definition backup_status_uses_latest_successful_vzdump_age :: bool where
  "backup_status_uses_latest_successful_vzdump_age \<longleftrightarrow>
     parse_backup_job_status (backup_texts
       [TreeObject [(''id'', TreeText ''nightly''), (''enabled'', TreeInt 1), (''node'', TreeText ''pve-01'')]]
       [TreeObject [(''node'', TreeText ''pve-01''), (''starttime'', TreeInt 1799978000), (''endtime'', TreeInt 1799978400),
         (''status'', TreeText ''OK'')]]) ''jobs'' ''tasks'' ''pve-01'' 1800000000
     = (BackupHealthy, Some 21600)"

definition newer_failed_backup_overrides_a_recent_success :: bool where
  "newer_failed_backup_overrides_a_recent_success \<longleftrightarrow>
     parse_backup_job_status (backup_texts
       [TreeObject [(''id'', TreeText ''nightly''), (''enabled'', TreeBool True)]]
       [TreeObject [(''starttime'', TreeInt 100), (''endtime'', TreeInt 110), (''status'', TreeText ''OK'')],
        TreeObject [(''starttime'', TreeInt 120), (''endtime'', TreeInt 130), (''status'', TreeText ''ERROR: disk full'')]])
       ''jobs'' ''tasks'' ''pve-01'' 200
     = (BackupFailed, Some 90)"

definition backup_age_is_reported_without_applying_health_policy :: bool where
  "backup_age_is_reported_without_applying_health_policy \<longleftrightarrow>
     parse_backup_job_status (backup_texts [TreeObject [(''id'', TreeText ''nightly'')]]
       [TreeObject [(''starttime'', TreeInt 1), (''endtime'', TreeInt 100), (''status'', TreeText ''OK'')]])
       ''jobs'' ''tasks'' ''pve-01'' 86501
     = (BackupHealthy, Some 86401)"

definition disabled_or_remote_jobs_do_not_count :: bool where
  "disabled_or_remote_jobs_do_not_count \<longleftrightarrow>
     parse_backup_job_status (backup_texts
       [TreeObject [(''id'', TreeText ''disabled''), (''enabled'', TreeInt 0)],
        TreeObject [(''id'', TreeText ''remote''), (''node'', TreeText ''pve-02'')]] []) ''jobs'' ''tasks'' ''pve-01'' 100
     = (NoJob, None)"

lemmas backup_steps = parse_backup_job_status_def backup_texts_def tree_steps try_word_def clamp_word_def sat_sub_def

lemma backup_status_uses_latest_successful_vzdump_age_holds: "backup_status_uses_latest_successful_vzdump_age"
  by (simp add: backup_status_uses_latest_successful_vzdump_age_def backup_steps)

lemma newer_failed_backup_overrides_a_recent_success_holds: "newer_failed_backup_overrides_a_recent_success"
  by (simp add: newer_failed_backup_overrides_a_recent_success_def backup_steps)

lemma backup_age_is_reported_without_applying_health_policy_holds: "backup_age_is_reported_without_applying_health_policy"
  by (simp add: backup_age_is_reported_without_applying_health_policy_def backup_steps)

lemma disabled_or_remote_jobs_do_not_count_holds: "disabled_or_remote_jobs_do_not_count"
  by (simp add: disabled_or_remote_jobs_do_not_count_def backup_steps)

section \<open>Guests\<close>

definition parses_proxmox_guest_json :: bool where
  "parses_proxmox_guest_json \<longleftrightarrow>
     (let guests = parse_guests (tree_api [(''resources'', TreeArray
        [TreeObject [(''vmid'', TreeInt 100), (''node'', TreeText ''pve-01''), (''name'', TreeText ''atlas''), (''type'', TreeText ''qemu''),
           (''status'', TreeText ''running''), (''cpu'', TreeReal (23 / 100)), (''mem'', TreeInt 3254779904), (''maxmem'', TreeInt 8589934592)],
         TreeObject [(''vmid'', TreeInt 102), (''node'', TreeText ''pve-01''), (''name'', TreeText ''paperless''), (''type'', TreeText ''lxc''),
           (''status'', TreeText ''stopped'')],
         TreeObject [(''vmid'', TreeInt 200), (''node'', TreeText ''pve-02''), (''name'', TreeText ''remote''), (''type'', TreeText ''qemu''),
           (''status'', TreeText ''running'')]])]) ''resources'' ''pve-01''
      in length guests = 2 \<and> g_name (guests ! 0) = ''atlas'' \<and> g_cpu (guests ! 0) = 23 \<and> g_mem_total (guests ! 0) = 8192
       \<and> g_kind (guests ! 1) = Container \<and> g_status (guests ! 1) = GuestStopped)"

text \<open>The double nearest to 0.23, and its product with 100.\<close>

lemma share_logs: "floor_log2 (23 / 100) = - 3" "floor_log2 (8286623314361713 / 36028797018963968 * 100) = 4"
proof -
  have q: "quotient_of (23 / 100) = (23, 100)" "quotient_of (8286623314361713 / 36028797018963968 * 100) = (207165582859042825, 9007199254740992)"
    by code_simp+
  have b: "bitlen 23 = 5" "bitlen 100 = 7" "bitlen 207165582859042825 = 58" "bitlen 9007199254740992 = 54"
    by code_simp+
  show "floor_log2 (23 / 100) = - 3" "floor_log2 (8286623314361713 / 36028797018963968 * 100) = 4"
    unfolding floor_log2_def q by (simp_all add: b pow2_def)
qed

lemma cpu_share: "percent (f64_mul (to_f64 (23 / 100)) (Fin 100)) = 23"
proof -
  have f: "\<lfloor>23 * 36028797018963968 / 100 :: rat\<rfloor> = 8286623314361712" "\<lfloor>207165582859042825 / 32 :: rat\<rfloor> = 6473924464345088"
      "\<lfloor>47 / 2 :: rat\<rfloor> = 23"
    by (rule floor_unique; simp)+
  from f have "to_f64 (23 / 100) = Fin (8286623314361713 / 36028797018963968)"
    by (simp add: to_f64_def share_logs pow2_def round_even_def)
  moreover have "to_f64 (8286623314361713 / 36028797018963968 * 100) = Fin 23"
    using f by (simp add: to_f64_def share_logs [simplified] pow2_def round_even_def Let_def)
  ultimately show ?thesis
    using f by (simp add: f64_mul_def percent_def f64_clamp_def f64_round_def f64_as_uint_def clamp_word_def try_word_def)
qed

lemma parses_proxmox_guest_json_holds: "parses_proxmox_guest_json"
  by (simp add: parses_proxmox_guest_json_def parse_guests_def parse_guest_def tree_steps try_word_def clamp_word_def
      bytes_to_mib_def guest_new_def cpu_share)

section \<open>Routes and links\<close>

definition parses_routed_interface_and_source_address :: bool where
  "parses_routed_interface_and_source_address \<longleftrightarrow>
     parse_ip_route (''8.8.8.8 via 192.168.1.1 dev vmbr0 src 192.168.1.50 uid 0'' @ [CHR 0x0A]) = Some (''vmbr0'', [192, 168, 1, 50])"

lemma split_whitespace_line:
  assumes "\<forall>w \<in> set ws. plain_word w"
  shows "split_whitespace (unwords ws @ [CHR 0x0A]) = ws"
proof -
  have "words_of w (gs @ [[CHR 0x0A]]) = words_of w gs" for w gs
    by (induction w gs rule: words_of.induct) (simp_all add: is_white_def [of "[CHR 0x0A]"])
  moreover have "list_all is_ascii (unwords ws @ [CHR 0x0A])" using unwords_ascii [OF assms] by (simp add: is_ascii_def)
  ultimately have "split_whitespace (unwords ws @ [CHR 0x0A]) = split_whitespace (unwords ws)"
    by (simp add: split_whitespace_def utf8_chars_ascii unwords_ascii [OF assms])
  then show ?thesis using split_whitespace_unwords [OF assms] by simp
qed

lemma route_words:
  "split_whitespace (''8.8.8.8 via 192.168.1.1 dev vmbr0 src 192.168.1.50 uid 0'' @ [CHR 0x0A])
    = [''8.8.8.8'', ''via'', ''192.168.1.1'', ''dev'', ''vmbr0'', ''src'', ''192.168.1.50'', ''uid'', ''0'']"
  using split_whitespace_line [of "[''8.8.8.8'', ''via'', ''192.168.1.1'', ''dev'', ''vmbr0'', ''src'', ''192.168.1.50'', ''uid'', ''0'']"]
  by (simp add: plain_text)

lemma parses_routed_interface_and_source_address_holds: "parses_routed_interface_and_source_address"
  unfolding parses_routed_interface_and_source_address_def parse_ip_route_def Let_def route_words
  by (simp add: parse_ipv4_def parse_octet_def number_steps)

definition fallback_route_uses_lowest_metric_default :: bool where
  "fallback_route_uses_lowest_metric_default \<longleftrightarrow>
     parse_default_route (text_lines [''Iface Destination Gateway Flags RefCnt Use Metric Mask MTU Window IRTT'',
       ''eno1 00000000 0101A8C0 0003 0 0 200 00000000 0 0 0'', ''vmbr0 00000000 0101A8C0 0003 0 0 100 00000000 0 0 0'']) = Some ''vmbr0''"

lemma route_entries:
  "route_entry ''eno1 00000000 0101A8C0 0003 0 0 200 00000000 0 0 0'' = Some (200, ''eno1'')"
  "route_entry ''vmbr0 00000000 0101A8C0 0003 0 0 100 00000000 0 0 0'' = Some (100, ''vmbr0'')"
proof -
  have "split_whitespace ''eno1 00000000 0101A8C0 0003 0 0 200 00000000 0 0 0''
      = [''eno1'', ''00000000'', ''0101A8C0'', ''0003'', ''0'', ''0'', ''200'', ''00000000'', ''0'', ''0'', ''0'']"
    using split_whitespace_unwords [of "[''eno1'', ''00000000'', ''0101A8C0'', ''0003'', ''0'', ''0'', ''200'', ''00000000'', ''0'', ''0'', ''0'']"]
    by (simp add: plain_text)
  then show "route_entry ''eno1 00000000 0101A8C0 0003 0 0 200 00000000 0 0 0'' = Some (200, ''eno1'')"
    by (simp add: route_entry_def parse_hex_def hex_val_def number_steps)
  have "split_whitespace ''vmbr0 00000000 0101A8C0 0003 0 0 100 00000000 0 0 0''
      = [''vmbr0'', ''00000000'', ''0101A8C0'', ''0003'', ''0'', ''0'', ''100'', ''00000000'', ''0'', ''0'', ''0'']"
    using split_whitespace_unwords [of "[''vmbr0'', ''00000000'', ''0101A8C0'', ''0003'', ''0'', ''0'', ''100'', ''00000000'', ''0'', ''0'', ''0'']"]
    by (simp add: plain_text)
  then show "route_entry ''vmbr0 00000000 0101A8C0 0003 0 0 100 00000000 0 0 0'' = Some (100, ''vmbr0'')"
    by (simp add: route_entry_def parse_hex_def hex_val_def number_steps)
qed

lemma fallback_route_uses_lowest_metric_default_holds: "fallback_route_uses_lowest_metric_default"
  by (simp add: fallback_route_uses_lowest_metric_default_def parse_default_route_def lines_text route_entries)

text \<open>The directory the test sets up.\<close>

definition bridge_files :: "(str \<times> str) list" where
  "bridge_files = [(''/net/enp3s0/carrier'', ''1'' @ [CHR 0x0A]), (''/net/enp3s0/speed'', ''2500'' @ [CHR 0x0A]),
     (''/net/tap100i0/carrier'', ''1'' @ [CHR 0x0A]), (''/net/tap100i0/speed'', ''10000'' @ [CHR 0x0A])]"

definition bridge_env :: "json_tree host_env" where
  "bridge_env = \<lparr>he_file = map_of bridge_files,
     he_dir = (\<lambda>p. if p = ''/net/vmbr0/brif'' then Some [''tap100i0'', ''enp3s0''] else if p = ''/net/tap100i0'' then Some [''carrier'', ''speed'']
       else if p = ''/net/enp3s0'' then Some [''device'', ''carrier'', ''speed''] else None),
     he_exists = (\<lambda>p. p \<in> {''/net/vmbr0'', ''/net/enp3s0'', ''/net/tap100i0'', ''/net/enp3s0/device''}),
     he_run = (\<lambda>_ _. None), he_json = tree_api [], he_unix_secs = None\<rparr>"

definition bridge_resolution_prefers_physical_port_over_faster_tap :: bool where
  "bridge_resolution_prefers_physical_port_over_faster_tap \<longleftrightarrow>
     resolve_physical_interface 4 bridge_env ''/net'' ''vmbr0'' = Some (Some ''enp3s0'')
     \<and> read_link bridge_env ''/net'' ''enp3s0'' = (True, 2500)"

lemma bridge_link: "read_link bridge_env ''/net'' ''enp3s0'' = (True, 2500)" "read_link bridge_env ''/net'' ''tap100i0'' = (True, 10000)"
proof -
  have "trim (CHR ''1'' # [CHR 0x0A]) = ''1''" "trim (''2500'' @ [CHR 0x0A]) = ''2500''" "trim (''10000'' @ [CHR 0x0A]) = ''10000''"
    by (simp_all add: trim_def utf8_chars_ascii is_ascii_def is_white_def del: utf8_chars.simps)
  then show "read_link bridge_env ''/net'' ''enp3s0'' = (True, 2500)" "read_link bridge_env ''/net'' ''tap100i0'' = (True, 10000)"
    by (simp_all add: read_link_def path_join_def starts_with_def bridge_env_def bridge_files_def number_steps)
qed

lemma bridge_walk:
  "resolve_interface (Suc n) bridge_env ''/net'' ''enp3s0'' [''vmbr0''] = Some (Some ''enp3s0'', [''vmbr0'', ''enp3s0''])"
  "resolve_interface (Suc n) bridge_env ''/net'' ''tap100i0'' [''vmbr0''] = Some (Some ''tap100i0'', [''vmbr0'', ''tap100i0''])"
  by (simp_all add: resolve_step_def resolve_bond_def resolve_lower_def lower_of_def path_join_def starts_with_def bridge_env_def
      bridge_files_def)

lemma bridge_resolution_prefers_physical_port_over_faster_tap_holds: "bridge_resolution_prefers_physical_port_over_faster_tap"
proof -
  have keys: "port_key bridge_env ''/net'' ''enp3s0'' = 2 ^ 17 + 2 ^ 16 + 2500" "port_key bridge_env ''/net'' ''tap100i0'' = 2 ^ 16 + 10000"
    by (simp_all add: port_key_def bridge_link path_join_def starts_with_def) (simp_all add: bridge_env_def)
  have "sort [''tap100i0'', ''enp3s0''] = [''enp3s0'', ''tap100i0'']" by (simp add: list_less_def)
  then have "resolve_bridge (resolve_interface 3 bridge_env ''/net'') bridge_env ''/net'' [''tap100i0'', ''enp3s0''] [''vmbr0'']
      = Some (Some ''enp3s0'', [''vmbr0''])"
    using bridge_walk [of 2] by (simp add: resolve_bridge_def keys numeral_3_eq_3)
  then have "resolve_interface 4 bridge_env ''/net'' ''vmbr0'' [] = Some (Some ''enp3s0'', [''vmbr0''])"
    by (simp add: resolve_step_def resolve_bond_def path_join_def starts_with_def bridge_env_def bridge_files_def
        numeral_eq_Suc)
  then show ?thesis
    by (simp add: bridge_resolution_prefers_physical_port_over_faster_tap_def resolve_physical_interface_def bridge_link)
qed

section \<open>The connectivity probe\<close>

definition tests_probe_new :: "time \<Rightarrow> probe_state" where
  "tests_probe_new now = probe_new now (secs 30) (secs 3) (secs 5) 2"

definition link_up_waits_then_retries_before_counting_a_failure :: "time \<Rightarrow> bool" where
  "link_up_waits_then_retries_before_counting_a_failure now =
     (let (s1, r1) = prepare_probe now True (tests_probe_new now);
          (s2, r2) = prepare_probe (now + secs 2) True s1;
          (s3, r3) = prepare_probe (now + secs 3) True s2 in
      r1 = None \<and> r2 = None \<and> (case r3 of None \<Rightarrow> False | Some initial_generation \<Rightarrow>
        (let s4 = record_result initial_generation False (now + secs 3) s3;
             (s5, r5) = prepare_probe (now + secs 7) True s4;
             retry_at = now + secs 3 + secs 5;
             (s6, r6) = prepare_probe retry_at True s5 in
         ps_status s4 = Checking \<and> ps_failures s4 = 0 \<and> r5 = None \<and> (case r6 of None \<Rightarrow> False | Some retry_generation \<Rightarrow>
           (let s7 = record_result retry_generation False retry_at s6 in ps_status s7 = Missed \<and> ps_failures s7 = 1)))))"

definition link_down_schedules_an_immediate_fresh_probe :: "time \<Rightarrow> bool" where
  "link_down_schedules_an_immediate_fresh_probe now =
     (let (s1, r1) = prepare_probe now True (tests_probe_new now);
          (s2, r2) = prepare_probe (now + secs 3) True s1 in
      r1 = None \<and> (case r2 of None \<Rightarrow> False | Some initial_generation \<Rightarrow>
        (let succeeded_at = now + secs 3; s3 = record_result initial_generation True succeeded_at s2;
             (s4, r4) = prepare_probe (succeeded_at + secs 1) False s3 in
         (case r4 of None \<Rightarrow> False | Some changed_generation \<Rightarrow>
           changed_generation \<noteq> initial_generation \<and> ps_status s4 = Checking \<and> ps_last_success s4 = Some succeeded_at))))"

lemmas probe_steps = tests_probe_new_def probe_new_def prepare_probe_def note_link_def record_result_def secs_def sat_add_def

lemma link_up_waits_then_retries_before_counting_a_failure_holds: "link_up_waits_then_retries_before_counting_a_failure now"
  by (simp add: link_up_waits_then_retries_before_counting_a_failure_def probe_steps)

lemma link_down_schedules_an_immediate_fresh_probe_holds: "link_down_schedules_an_immediate_fresh_probe now"
  by (simp add: link_down_schedules_an_immediate_fresh_probe_def probe_steps)

end
