(* ===== verification/Tests_Host.thy ===== *)
theory Tests_Host
  imports Mock_Host Deployed Tests_Health
begin

text \<open>
  The unit tests of the configuration (\<open>host/src/config.rs\<close>), the shutdown handler (\<open>host/src/lib.rs\<close>), the
  daemon (\<open>host/src/main.rs\<close>) and the mock host (\<open>mock-host/src/lib.rs\<close>) on the model, as in
  \<open>Tests_Protocol\<close>. The deployed file is the value of \<open>Deployed\<close>; a test of what the derived
  deserializer refuses, or of how long real postcard output is, is left out.
\<close>

section \<open>Configuration\<close>

text \<open>\<open>current_config\<close>: the deployed file, once it validates. \<open>fits ser\<close>: postcard has room for every message.\<close>

definition current_config :: "serializer \<Rightarrow> str \<Rightarrow> yaml_scalar config option" where
  "current_config ser version = (if validate ser version deployed_config = Inr () then Some deployed_config else None)"

definition fits :: "serializer \<Rightarrow> bool" where
  "fits ser = (\<forall>m. ser m (max_host_frame_len - 3) \<noteq> None)"

lemma validates:
  assumes "fits ser" "validate_timing cfg = Inr ()" "validate_sources (cf_sources cfg) = Inr ()"
    and "validate_health (src_filesystems (cf_sources cfg)) (cf_health cfg) = Inr ()" "validate_outputs cfg = Inr ()"
    and "display_config version cfg 0 = Inr d" "network_config cfg 0 = Inr w"
  shows "validate ser version cfg = Inr ()"
proof -
  have encoded: "\<exists>f. encode ser m max_host_frame_len = Inr f" for m
    using assms(1) by (auto simp: fits_def encode_def max_host_frame_len_def split: option.splits)
  have "fits_frame ser m e = Inr ()" for m e
    using encoded [of m] by (auto simp: fits_frame_def)
  with assms show ?thesis by (simp add: validate_iff validate_manifest_sizes_def)
qed

lemma deployed_timing: "validate_timing deployed_config = Inr ()"
  by (simp add: validate_timing_def deployed_config_def)

lemma current: "fits ser \<Longrightarrow> current_config ser version = Some deployed_config"
  using validates [of ser deployed_config, OF _ deployed_timing deployed_sources_valid deployed_health_valid deployed_outputs_valid
      deployed_display_config deployed_network_config]
  by (simp add: current_config_def)

definition configuration_v1_requires_an_explicit_migration where
  "configuration_v1_requires_an_explicit_migration ser version \<longleftrightarrow>
     validate ser version (deployed_config\<lparr>cf_version := 1\<rparr>) = Inl (UnsupportedConfigVersion 1)"

lemma configuration_v1_requires_an_explicit_migration_holds: "configuration_v1_requires_an_explicit_migration ser version"
  by (simp add: configuration_v1_requires_an_explicit_migration_def validate_def validate_timing_def)

definition deployed_configuration_compiles_to_six_pages where
  "deployed_configuration_compiles_to_six_pages ser version \<longleftrightarrow> (case current_config ser version of
     None \<Rightarrow> False
   | Some config \<Rightarrow> (case display_config version config 5 of
       Inl e \<Rightarrow> False
     | Inr display \<Rightarrow> length (dc_pages display) = 6 \<and> label_str (dv_title (dc_pages display ! 2)) = ''STORAGE + SMART''))"

lemma deployed_configuration_compiles_to_six_pages_holds:
  "fits ser \<Longrightarrow> deployed_configuration_compiles_to_six_pages ser version"
  by (simp add: deployed_configuration_compiles_to_six_pages_def current deployed_display_config deployed_display_def
      deployed_pages_def div_ceil_def upt_rec display_view_new_def)

definition animation_delay_may_be_below_two_hundred_milliseconds where
  "animation_delay_may_be_below_two_hundred_milliseconds ser version \<longleftrightarrow>
     (let config = deployed_config\<lparr>cf_shutdown := (cf_shutdown deployed_config)\<lparr>sh_animation_delay := 1000000\<rparr>\<rparr> in
      validate ser version config = Inr ()
      \<and> (case display_config version config 0 of Inl e \<Rightarrow> False | Inr display \<Rightarrow> dc_delay_ms display = 1))"

lemma animation_delay_may_be_below_two_hundred_milliseconds_holds:
  assumes "fits ser"
  shows "animation_delay_may_be_below_two_hundred_milliseconds ser version"
proof -
  let ?config = "deployed_config\<lparr>cf_shutdown := (cf_shutdown deployed_config)\<lparr>sh_animation_delay := 1000000\<rparr>\<rparr>"
  have "filesystem_index ?config = filesystem_index deployed_config" "smart_index ?config = smart_index deployed_config"
    by (rule ext, simp add: filesystem_index_def, rule ext, simp add: smart_index_def)
  then have "view_pages ?config 0 = view_pages deployed_config 0"
    by (intro ext) (simp add: view_pages_def Let_def split: view_layout.split)
  then have pages: "compile_pages_for ?config ids 0 out = compile_pages_for deployed_config ids 0 out" for ids out
    by (simp add: compile_pages_for_def)
  have "compile_pages ?config 0 = Inr (deployed_pages 0)"
    using deployed_compiles [of 0] by (simp add: compile_pages_def pages) (simp add: deployed_config_def deployed_outputs_def)
  moreover have "sh_hold_time (cf_shutdown deployed_config) = 3000000000" "deployed_pages 0 \<noteq> []"
    by (simp_all add: deployed_config_def deployed_pages_def)
  ultimately obtain display where display: "display_config version ?config 0 = Inr display" "dc_delay_ms display = 1"
    by (simp add: display_config_def as_millis_def try_word_def display_config_new_def word_le_nat_alt)
  have "network_config ?config 0 = network_config deployed_config 0" by (simp add: network_config_def pages split: option.split)
  then have network: "network_config ?config 0 = Inr (deployed_network 0)" by (simp add: deployed_network_config)
  have "validate_timing ?config = Inr ()" by (simp add: validate_timing_def deployed_config_def)
  then have "validate ser version ?config = Inr ()"
    by (rule validates [OF assms _ _ _ _ display(1) network])
      (use deployed_sources_valid deployed_health_valid deployed_outputs_valid in \<open>simp_all add: validate_outputs_def split: option.splits\<close>)
  then show ?thesis using display by (simp add: animation_delay_may_be_below_two_hundred_milliseconds_def Let_def)
qed

text \<open>The test replaces the columns of the view in the text of the file, so its layout is parsed anew.\<close>

definition two_column_panels_can_be_swapped where
  "two_column_panels_can_be_swapped ser version \<longleftrightarrow>
     (case parse_view_layout yaml_values (yaml_map [(''columns'', yaml_map [(''left'', YString ''network''), (''right'', YString ''ups'')])]) of
       Inl e \<Rightarrow> False
     | Inr layout \<Rightarrow> (let config = deployed_config\<lparr>cf_views := (cf_views deployed_config)
           (''power_network'' \<mapsto> \<lparr>vw_title = ''UPS + ETHERNET'', vw_layout = layout\<rparr>)\<rparr> in
         validate ser version config = Inr ()
         \<and> (case display_config version config 0 of Inl e \<Rightarrow> False
           | Inr display \<Rightarrow> dv_page (dc_pages display ! 3) = PowerNetwork False)))"

lemma two_column_panels_can_be_swapped_holds:
  assumes "fits ser"
  shows "two_column_panels_can_be_swapped ser version"
proof -
  have layout: "parse_view_layout yaml_values (yaml_map [(''columns'', yaml_map [(''left'', YString ''network''), (''right'', YString ''ups'')])])
      = Inr (LPowerNetwork False)"
    by (simp add: parse_view_layout_def column_contains_def yaml_values_def)
  let ?config = "deployed_config\<lparr>cf_views := (cf_views deployed_config)
      (''power_network'' \<mapsto> \<lparr>vw_title = ''UPS + ETHERNET'', vw_layout = LPowerNetwork False\<rparr>)\<rparr>"
  have pages: "compile_pages_for ?config (map fst deployed_views) 0 out
      = Inr ((deployed_pages 0)[3 := display_view_new (DisplayLabel ''UPS + ETHERNET'') (PowerNetwork False)])" for out
    by (simp add: compile_pages_for_def deployed_config_def deployed_views_def view_pages_def
        guest_pages_list deployed_pages_def resolve_indices_def resolve_index_def filesystem_index_def smart_index_def
        deployed_sources_def try_word_def storage_pages_def div_ceil_def upt_rec)
  have outputs: "ou_lcd_views (cf_outputs deployed_config) = map fst deployed_views"
      "ou_http (cf_outputs deployed_config) = Some \<lparr>ho_enabled = True, ho_hostname = ''servatory'', ho_port = 80,
        ho_views = map fst deployed_views\<rparr>"
    by (simp_all add: deployed_config_def deployed_outputs_def)
  have "sh_hold_time (cf_shutdown deployed_config) = 3000000000" "sh_animation_delay (cf_shutdown deployed_config) = 200000000"
      "length (deployed_pages 0) = 5" "deployed_pages 0 \<noteq> []"
    by (simp_all add: deployed_config_def deployed_pages_def div_ceil_def)
  then obtain display where display: "display_config version ?config 0 = Inr display"
      "dv_page (dc_pages display ! 3) = PowerNetwork False"
    by (simp add: display_config_def compile_pages_def outputs pages as_millis_def try_word_def display_config_new_def display_view_new_def)
  obtain network where network: "network_config ?config 0 = Inr network"
    by (simp add: network_config_def outputs pages)
  have "validate_outputs ?config = Inr ()"
    by (simp add: deployed_config_def deployed_outputs_def validate_outputs_def validate_http_def validate_ntfy_def
        deployed_views_def is_alnum_def starts_with_def)
  moreover have "validate_timing ?config = Inr ()" by (simp add: validate_timing_def deployed_config_def)
  ultimately have "validate ser version ?config = Inr ()"
    using validates [OF assms _ _ _ _ display(1) network] deployed_sources_valid deployed_health_valid by simp
  then show ?thesis
    unfolding two_column_panels_can_be_swapped_def layout sum.case Let_def using display by simp
qed

section \<open>Health policy\<close>

text \<open>The snapshot of the tests is \<open>calm_snapshot\<close>.\<close>

definition evaluated :: "yaml_scalar config \<Rightarrow> health_snapshot \<Rightarrow> (health_level \<times> str \<times> str list) option" where
  "evaluated config s = map_option (\<lambda>(report, is). (hr_level report, hr_message report, map inc_message is))
     (evaluate_health yaml_values config s)"

definition ordered_yaml_policy_supplies_the_health_message where
  "ordered_yaml_policy_supplies_the_health_message ser version \<longleftrightarrow> (case current_config ser version of
     None \<Rightarrow> False
   | Some config \<Rightarrow> map_option fst (evaluated config calm_snapshot) = Some Healthy
       \<and> evaluated config (calm_snapshot\<lparr>hs_network_up := False\<rparr>) = Some (Critical, ''LINK DOWN'', [''LINK DOWN''])
       \<and> (case evaluate_health yaml_values config (calm_snapshot\<lparr>hs_network_up := False\<rparr>) of
           None \<Rightarrow> False | Some (report, incidents) \<Rightarrow> (case inc_id (incidents ! 0) of Rule i \<Rightarrow> True | _ \<Rightarrow> False)))"

definition backup_age_threshold_lives_in_health_policy where
  "backup_age_threshold_lives_in_health_policy ser version \<longleftrightarrow> (case current_config ser version of
     None \<Rightarrow> False
   | Some config \<Rightarrow> (case evaluated config (calm_snapshot\<lparr>hs_backup_age := Some (24 * 60 * 60 + 1)\<rparr>) of
       None \<Rightarrow> False
     | Some (level, message, messages) \<Rightarrow> level = Warning \<and> message = ''BACKUP OVERDUE'' \<and> length messages = 1))"

definition all_matching_incidents_are_preserved_and_primary_uses_severity_then_order where
  "all_matching_incidents_are_preserved_and_primary_uses_severity_then_order ser version \<longleftrightarrow> (case current_config ser version of
     None \<Rightarrow> False
   | Some config \<Rightarrow> evaluated config (calm_snapshot\<lparr>hs_network_up := False, hs_cpu := 99\<rparr>)
       = Some (Critical, ''LINK DOWN'', [''LINK DOWN'', ''CPU 99%'']))"

lemma matching_incidents:
  assumes "filter (\<lambda>r. matches_condition yaml_values (src_filesystems deployed_sources) s (rl_when r))
      (deployed_critical_rules @ deployed_warning_rules) = rs"
  shows "\<exists>is. rule_incidents yaml_values (src_filesystems deployed_sources) s (deployed_critical_rules @ deployed_warning_rules) = Some is
    \<and> map inc_message is = map (render_message (src_filesystems deployed_sources) s) rs
    \<and> map inc_level is = map (\<lambda>r. severity_level (rl_severity r)) rs"
proof -
  have "\<forall>r \<in> set (deployed_critical_rules @ deployed_warning_rules). valid_rule_id (rl_id r)"
    using deployed_ids_valid by (auto simp: list_all_iff valid_id_rule_id)
  then obtain "is" where "is": "rule_incidents yaml_values (src_filesystems deployed_sources) s
      (deployed_critical_rules @ deployed_warning_rules) = Some is"
    using rule_incidents_total by blast
  note all = rule_incidents_ids [OF this, unfolded assms]
  have "map inc_message is = map (render_message (src_filesystems deployed_sources) s) rs"
      "map inc_level is = map (\<lambda>r. severity_level (rl_severity r)) rs"
    using all by (auto simp: list_all2_conv_all_nth list_eq_iff_nth_eq)
  with "is" show ?thesis by blast
qed

lemma evaluated_by:
  assumes "filter (\<lambda>r. matches_condition yaml_values (src_filesystems deployed_sources) s (rl_when r))
      (deployed_critical_rules @ deployed_warning_rules) = rs"
  shows "evaluated deployed_config s = (let messages = map (\<lambda>r. (severity_level (rl_severity r), render_message (src_filesystems deployed_sources) s r)) rs
    in case foldl (\<lambda>p i. if is_none_or (\<lambda>c. priority (fst i) > priority (fst c)) p then Some i else p) None messages of
      None \<Rightarrow> Some (Healthy, ''HEALTHY'', []) | Some (l, m) \<Rightarrow> Some (l, m, map snd messages))"
proof -
  obtain "is" where "is": "rule_incidents yaml_values (src_filesystems deployed_sources) s (deployed_critical_rules @ deployed_warning_rules) = Some is"
      "map inc_message is = map (render_message (src_filesystems deployed_sources) s) rs"
      "map inc_level is = map (\<lambda>r. severity_level (rl_severity r)) rs"
    using matching_incidents [OF assms] by blast
  let ?f = "\<lambda>i. (inc_level i, inc_message i)"
  let ?m = "map (\<lambda>r. (severity_level (rl_severity r), render_message (src_filesystems deployed_sources) s r)) rs"
  have m: "map ?f is = ?m" using "is"(2,3) by (auto simp: list_eq_iff_nth_eq)
  have fold: "foldl (\<lambda>p i. if is_none_or (\<lambda>c. priority (fst i) > priority (fst c)) p then Some i else p) (map_option ?f p) (map ?f xs)
      = map_option ?f (foldl more_severe p xs)" for p xs
  proof (induction xs arbitrary: p)
    case (Cons x xs)
    have "(if is_none_or (\<lambda>c. priority (fst (?f x)) > priority (fst c)) (map_option ?f p) then Some (?f x) else map_option ?f p)
        = map_option ?f (more_severe p x)"
      by (cases p) (simp_all add: more_severe_def)
    then show ?case using Cons [of "more_severe p x"] by simp
  qed simp
  have "evaluated deployed_config s = Some (let report = primary_report deployed_health is in (hr_level report, hr_message report, map inc_message is))"
    using "is"(1) by (simp add: evaluated_def evaluate_health_def deployed_config_def deployed_health_def Let_def)
  moreover have "is = [] \<longleftrightarrow> rs = []" using "is"(2) by auto
  ultimately show ?thesis
    using fold [of None "is"] "is"(2) m foldl_more_severe [of "is"]
    by (cases "foldl more_severe None is")
      (auto simp: Let_def primary_report_def report_new_def deployed_health_def comp_def)
qed

lemmas deployed_matching = deployed_critical_rules_def deployed_warning_rules_def rule_of_def
  text_conditions [OF yaml_values_ok] number_conditions backup_condition [simplified]
  filesystem_conditions [OF yaml_values_ok deployed_positions(1)]
  filesystem_conditions [OF yaml_values_ok deployed_positions(2)]
  filesystem_conditions [OF yaml_values_ok deployed_positions(3)] status_names

lemmas calm_values = calm_snapshot_def snapshot_new_def filesystem_new_def ups_not_configured_def backup_overdue_def
  Health_Rules.memory_percent_def try_word_def

lemma evaluated_calm: "evaluated deployed_config calm_snapshot = Some (Healthy, ''HEALTHY'', [])"
proof -
  have "filter (\<lambda>r. matches_condition yaml_values (src_filesystems deployed_sources) calm_snapshot (rl_when r))
      (deployed_critical_rules @ deployed_warning_rules) = []"
    by (simp add: deployed_matching calm_values)
  from evaluated_by [OF this] show ?thesis by simp
qed

lemma evaluated_link_down:
  "evaluated deployed_config (calm_snapshot\<lparr>hs_network_up := False\<rparr>) = Some (Critical, ''LINK DOWN'', [''LINK DOWN''])"
proof -
  let ?s = "calm_snapshot\<lparr>hs_network_up := False\<rparr>"
  have "filter (\<lambda>r. matches_condition yaml_values (src_filesystems deployed_sources) ?s (rl_when r))
      (deployed_critical_rules @ deployed_warning_rules) = [rule_of SevCritical ''link_down'' (equals_bool SelNetworkUp False) ''LINK DOWN'']"
    by (simp add: deployed_matching calm_values)
  from evaluated_by [OF this] show ?thesis by (simp add: message_steps)
qed

lemma evaluated_overdue:
  "evaluated deployed_config (calm_snapshot\<lparr>hs_backup_age := Some (24 * 60 * 60 + 1)\<rparr>)
     = Some (Warning, ''BACKUP OVERDUE'', [''BACKUP OVERDUE''])"
proof -
  let ?s = "calm_snapshot\<lparr>hs_backup_age := Some (24 * 60 * 60 + 1)\<rparr>"
  let ?rule = "rule_of SevWarning ''backup_healthy_but_overdue'' (All [equals_text SelBackupStatus ''healthy'',
       missing_or_above SelBackupAge (86400 * 1000000000)]) ''BACKUP OVERDUE''"
  have "filter (\<lambda>r. matches_condition yaml_values (src_filesystems deployed_sources) ?s (rl_when r))
      (deployed_critical_rules @ deployed_warning_rules) = [?rule]"
    by (simp add: deployed_matching calm_values)
  from evaluated_by [OF this] show ?thesis by (simp add: message_steps)
qed

lemma evaluated_two:
  "evaluated deployed_config (calm_snapshot\<lparr>hs_network_up := False, hs_cpu := 99\<rparr>)
     = Some (Critical, ''LINK DOWN'', [''LINK DOWN'', ''CPU 99%''])"
proof -
  let ?s = "calm_snapshot\<lparr>hs_network_up := False, hs_cpu := 99\<rparr>"
  let ?rules = "[rule_of SevCritical ''link_down'' (equals_bool SelNetworkUp False) ''LINK DOWN'',
    rule_of SevWarning ''cpu_high'' (at_least_number SelCpuPercent 85) ''CPU {value}%'']"
  have "filter (\<lambda>r. matches_condition yaml_values (src_filesystems deployed_sources) ?s (rl_when r))
      (deployed_critical_rules @ deployed_warning_rules) = ?rules"
    by (simp add: deployed_matching calm_values)
  note evaluated = evaluated_by [OF this]
  have "dec 99 = ''99''" by code_simp
  then have "f64_fmt0 (f64_of_nat 99) = ''99''"
    using round_even_of_int [of 99] f64_of_u8 [of 99] by (simp add: f64_fmt0_def)
  then show ?thesis
    unfolding evaluated by (simp add: message_steps deployed_conditions metric_def calm_values f64_of_u8)
qed

lemma deployed_incident_rules:
  "evaluate_health yaml_values deployed_config s = Some (report, is) \<Longrightarrow> i \<in> set is \<Longrightarrow> \<exists>r. inc_id i = Rule r"
  using list_all2_right [OF rule_incidents_ids] by (fastforce simp: evaluate_health_def)

lemma ordered_yaml_policy_supplies_the_health_message_holds:
  assumes "fits ser"
  shows "ordered_yaml_policy_supplies_the_health_message ser version"
proof -
  obtain report incidents where e: "evaluate_health yaml_values deployed_config (calm_snapshot\<lparr>hs_network_up := False\<rparr>)
      = Some (report, incidents)" "length incidents = 1"
    using evaluated_link_down by (auto simp: evaluated_def)
  then have "\<exists>r. inc_id (incidents ! 0) = Rule r" using deployed_incident_rules [OF e(1)] by simp
  then show ?thesis
    using e(1) by (auto simp: ordered_yaml_policy_supplies_the_health_message_def current [OF assms] evaluated_calm evaluated_link_down)
qed

lemma backup_age_threshold_lives_in_health_policy_holds:
  "fits ser \<Longrightarrow> backup_age_threshold_lives_in_health_policy ser version"
  by (simp only: backup_age_threshold_lives_in_health_policy_def current option.case evaluated_overdue prod.case) simp

lemma all_matching_incidents_are_preserved_and_primary_uses_severity_then_order_holds:
  "fits ser \<Longrightarrow> all_matching_incidents_are_preserved_and_primary_uses_severity_then_order ser version"
  by (simp only: all_matching_incidents_are_preserved_and_primary_uses_severity_then_order_def current option.case evaluated_two)

section \<open>Shutdown\<close>

text \<open>\<open>FakeShutdown\<close> counts its calls; here they are the \<open>RanPoweroff\<close> events of the log. The output is the log.\<close>

definition fake_poweroff :: "unit act" where
  "fake_poweroff = log_event RanPoweroff"

definition shutdown_requires_explicit_permission where
  "shutdown_requires_explicit_permission ser \<longleftrightarrow>
     (case handle ser fake_poweroff False ShutdownRequested \<lparr>io_log = [], io_faults = []\<rparr> of
       Some (Inr done, io) \<Rightarrow> \<not> done \<and> io_log io = []
     | _ \<Rightarrow> False)"

lemma shutdown_requires_explicit_permission_holds: "shutdown_requires_explicit_permission ser"
  by (simp add: shutdown_requires_explicit_permission_def handle_def ret_def)

definition accepted_shutdown_is_acknowledged_before_poweroff where
  "accepted_shutdown_is_acknowledged_before_poweroff ser de cobs \<longleftrightarrow>
     (case handle ser fake_poweroff True ShutdownRequested \<lparr>io_log = [], io_faults = []\<rparr> of
       Some (Inr done, io) \<Rightarrow> done
         \<and> (let output = concat (map (\<lambda>ev. case ev of Wrote bs \<Rightarrow> bs | _ \<Rightarrow> []) (io_log io)) in
             decode de cobs output = Inr ShutdownAccepted)
         \<and> length (filter (\<lambda>ev. ev = RanPoweroff) (io_log io)) = 1
     | _ \<Rightarrow> False)"

lemma accepted_shutdown_is_acknowledged_before_poweroff_holds:
  assumes "postcard_ok ser de" "encode ser ShutdownAccepted max_host_frame_len = Inr frame"
  shows "accepted_shutdown_is_acknowledged_before_poweroff ser de cobs"
  using decode_encode_frame [OF assms]
  by (simp add: accepted_shutdown_is_acknowledged_before_poweroff_def handle_def write_host_message_def assms(2) port_op_def
      then_do_def catch_do_def fake_poweroff_def log_event_def ret_def)

definition guest_texts :: "(string \<times> json_tree) list" where
  "guest_texts = [(''guests'', TreeArray
     [TreeObject [(''node'', TreeText ''pve-01''), (''status'', TreeText ''running'')],
      TreeObject [(''node'', TreeText ''pve-01''), (''status'', TreeText ''stopped'')],
      TreeObject [(''node'', TreeText ''pve-02''), (''status'', TreeText ''running'')],
      TreeObject [(''node'', TreeText ''pve-01''), (''status'', TreeText ''running'')]])]"

definition counts_only_running_guests_on_the_local_node :: bool where
  "counts_only_running_guests_on_the_local_node \<longleftrightarrow>
     running_guest_count_from_json (tree_api guest_texts) ''guests'' ''pve-01'' = Some 2"

lemma counts_only_running_guests_on_the_local_node_holds: "counts_only_running_guests_on_the_local_node"
  by (simp add: counts_only_running_guests_on_the_local_node_def running_guest_count_from_json_def guest_texts_def tree_steps
      clamp_word_def try_word_def)

section \<open>The daemon\<close>

definition logs_initial_problems_changes_and_recovery_once :: bool where
  "logs_initial_problems_changes_and_recovery_once \<longleftrightarrow>
     (let warning = report_new Warning ''CPU 85%''; critical = report_new Critical ''PING FAILED'' in
       changed_health_status None warning = Some warning
       \<and> changed_health_status (Some warning) (report_new Warning ''CPU 99%'') = Some (report_new Warning ''CPU 99%'')
       \<and> changed_health_status (Some warning) critical = Some critical
       \<and> changed_health_status (Some critical) report_healthy = Some report_healthy
       \<and> changed_health_status (Some report_healthy) report_healthy = None)"

lemma logs_initial_problems_changes_and_recovery_once_holds: "logs_initial_problems_changes_and_recovery_once"
  by (simp add: logs_initial_problems_changes_and_recovery_once_def changed_health_status_def report_new_def report_healthy_def)

definition guest_manifests_change_only_at_page_boundaries :: bool where
  "guest_manifests_change_only_at_page_boundaries \<longleftrightarrow>
     guest_page_count 0 = 1 \<and> guest_page_count 1 = 1 \<and> guest_page_count 4 = 1
     \<and> guest_page_count 5 = 2 \<and> guest_page_count 8 = 2 \<and> guest_page_count 9 = 3"

lemma guest_manifests_change_only_at_page_boundaries_holds: "guest_manifests_change_only_at_page_boundaries"
  by (simp add: guest_manifests_change_only_at_page_boundaries_def guest_page_count_def div_ceil_def)

section \<open>The mock host\<close>

definition mock_data_contains_running_and_stopped_guests :: bool where
  "mock_data_contains_running_and_stopped_guests \<longleftrightarrow>
     length made_up_guests > 1
     \<and> list_ex (\<lambda>g. g_status g = GuestRunning) made_up_guests \<and> list_ex (\<lambda>g. g_status g = GuestStopped) made_up_guests"

lemma mock_data_contains_running_and_stopped_guests_holds: "mock_data_contains_running_and_stopped_guests"
  by (simp add: mock_data_contains_running_and_stopped_guests_def made_up_guests_def guest_new_def)

definition mock_health_matches_the_ui_draft :: bool where
  "mock_health_matches_the_ui_draft \<longleftrightarrow> (let health = made_up_health in
     hs_host_name health = ''pve-01'' \<and> hs_cpu health = 23 \<and> hs_network_up health \<and> hs_network_mbps health = 2500
     \<and> hs_interface health = ''enp3s0'' \<and> hs_internet health = Reachable \<and> hs_backup health = BackupHealthy
     \<and> hs_backup_age health = Some 21600 \<and> ups_watts (hs_ups health) = Some 102
     \<and> length (hs_smart health) = 5 \<and> length (hs_guests health) = 5)"

lemma mock_health_matches_the_ui_draft_holds: "mock_health_matches_the_ui_draft"
  by (simp add: mock_health_matches_the_ui_draft_def made_up_health_def snapshot_new_def made_up_guests_def)

definition shutdown_only_writes_a_message where
  "shutdown_only_writes_a_message ser \<longleftrightarrow>
     (case console_poweroff True ser 0 \<lparr>io_log = [], io_faults = []\<rparr> of
       Some (Inr u, io) \<Rightarrow> list_ex (\<lambda>ev. case ev of Printed t \<Rightarrow> contains_str ''no system shutdown'' t | _ \<Rightarrow> False) (io_log io)
     | _ \<Rightarrow> False)"

lemma shutdown_only_writes_a_message_holds:
  assumes "fits ser"
  shows "shutdown_only_writes_a_message ser"
proof -
  have "\<exists>f. encode ser m max_host_frame_len = Inr f" for m
    using assms by (auto simp: fits_def encode_def max_host_frame_len_def split: option.splits)
  then obtain frame where frame: "\<And>m. encode ser m max_host_frame_len = Inr (frame m)" by metis
  show ?thesis
    by (simp add: shutdown_only_writes_a_message_def console_poweroff_def mock_phases_def write_shutdown_progress_def
        write_host_message_def frame port_op_def then_do_def log_event_def ret_def contains_str_def starts_with_def)
qed

end
