(* ===== verification/Spec2Isabelle.thy ===== *)
theory Spec2Isabelle
  imports Shutdown_Path Store_Runs Screen_Props Frame_Buffer Mock_Host Command Setup Net_Tasks Build_Checks Health_Slot Board
    Repeats Readings Tests_Protocol Tests_Host
begin

text \<open>
  A verification of servatory: a daemon on a Proxmox host measures its health and sends it over a
  USB serial line to an M5Stick, which shows it, serves it on the network, publishes alarms and can
  ask the host to power off. The development follows the Rust sources; each definition carries the
  name of the function, type or constant it models, or of the part of a long function it stands for.

  \<^bold>\<open>The program and its theories.\<close>

  \<^item> Both peers, \<open>protocol/src/lib.rs\<close>: \<open>Protocol\<close> has the messages and their data, \<open>Framing\<close> the
    frames and the stream decoder. The host writes \<open>host_message\<close>s, the stick \<open>device_message\<close>s.
  \<^item> Host readings, \<open>host/src/health.rs\<close>: \<open>Measure\<close> (procfs, \<open>df\<close>, \<open>upsc\<close>), \<open>Inventory\<close> (SMART, backups,
    guests), \<open>Network_Link\<close> (route and physical link), \<open>Probe\<close> (connectivity probe, UPS collector, one
    collection round), \<open>Readings\<close> (the collector the daemon makes, its rounds).
    \<open>Command\<close> runs child processes (\<open>host/src/lib.rs\<close>, and \<open>ping_target\<close>).
  \<^item> Host configuration, \<open>host/src/config.rs\<close>: \<open>Config\<close> (data and parsers), \<open>Views\<close> (compilation to the
    manifests of the stick), \<open>Validate\<close>, \<open>Health_Rules\<close> (conditions, messages, the report). \<open>Deployed\<close> is the file
    that ships, \<open>deploy/servatory.yaml\<close>, as the value \<open>deployed_config\<close>.
  \<^item> Host process, \<open>host/src/main.rs\<close> and \<open>host/src/lib.rs\<close>: \<open>Daemon\<close> is the main loop, \<open>Health_Slot\<close> the slot
    in which the collecting thread leaves the newest snapshot for it, \<open>Host_Shutdown\<close> the event handler
    and the orderly power-off. \<open>Mock_Host\<close> is the portable stand-in (\<open>mock-host/src\<close>).
  \<^item> Stick main loop, \<open>firmware/src/main.rs\<close>: \<open>Stick\<close> has the transmit queue, the button, the messages and
    the shutdown screens, \<open>Stick_Props\<close> its invariants. \<open>Screen_Text\<close>, \<open>Screen\<close> and \<open>Screen_Props\<close> are its
    drawing functions, \<open>Frame_Buffer\<close> is \<open>framebuffer.rs\<close>, \<open>Board\<close> the display power and the memory.
  \<^item> Stick network, \<open>firmware/src/network.rs\<close> and \<open>provisioning.rs\<close>: \<open>Provisioning\<close> (settings in flash, the
    form), \<open>Store_Runs\<close> (the store task and restarts), \<open>Net_State\<close> (what the tasks share), \<open>Net_Tasks\<close> (start and task loops), \<open>Notify\<close> (the
    notification worker), \<open>Dashboard_Buffer\<close>, \<open>Dashboard\<close> and \<open>Web\<close> (pages, JSON, routes, requests).
    \<open>Repeats\<close>: the interval between repeated notifications, from the configuration to the worker.
  \<^item> Across both: \<open>Link\<close> (the peers on one line, message by message), \<open>Handshake\<close> (byte by byte), \<open>Alarm\<close> (from
    a rule to a notification), \<open>Shutdown_Path\<close> (from the button to the last report), \<open>Setup\<close> (from the
    browser's form to the next start).
  \<^item> Unit tests: \<open>Tests_Protocol\<close>, \<open>Tests_Health\<close> and \<open>Tests_Host\<close> restate the tests of the protocol crate and of the
    two host crates, each under its name, as boolean definitions on the model.
  \<^item> Build, \<open>firmware/build-checks.rs\<close> and \<open>build-support.rs\<close>: \<open>Build_Checks\<close>.
  \<^item> Shared: \<open>Prelude\<close> (machine integers, results, collections), \<open>Rust_Text\<close> (strings as lists of UTF-8
    bytes), \<open>Rust_Float\<close> (\<open>f64\<close> with rounding to nearest even).

  \<^bold>\<open>State and operations.\<close> A struct is a record, an enum a datatype, an integer a word of its width,
  \<open>Result\<close> a sum, a panic or an early \<open>None\<close> an option. The daemon is the record \<open>daemon\<close> and one iteration
  is \<open>daemon_step\<close>, on a port that may fail at every operation: \<open>io\<close> holds the log of what was written or
  run and the faults to come. The stick is the record \<open>stick\<close>; \<open>stick_step\<close> is one iteration, with clock
  readings, interrupt flag, pin and bytes as an \<open>input\<close> and drawings and written bytes as results. The
  tasks share \<open>net_statics\<close>. Loops are recursion over what they consume. Whatever runs beside another is
  an inductive relation over all interleavings: \<open>probe_system\<close> (ping threads), \<open>linked\<close> (both peers on a
  line that loses, delays and keeps stale messages), \<open>http_system\<close> (server and manifests), \<open>slot_system\<close>
  (collecting thread and main loop).

  \<^bold>\<open>Interfaces.\<close> Locales state what one component relies on: \<open>framer\<close> (a decoder against the segments of
  the stream, met by \<open>push\<close>), \<open>shutdown_impl\<close> (what the event handler needs of a power-off, met by the
  systemd and the console one), \<open>canvas\<close> (a pixel store, met by the frame buffer).

  \<^bold>\<open>What is shown.\<close>

  \<^item> Safety of the power-off: only a long press on a connected stick asks for it, only a device that
    acknowledged this connection's challenge is heard, the host acknowledges before it acts, and
    reports the power-off last; a mock host never powers off.
  \<^item> The line: the decoder is exact on every byte stream, messages survive junk and cuts, and the byte
    loops of both peers implement handling the messages one by one. The handshake is authentic on a
    lossy line and completes on one that delivers.
  \<^item> No crash: the daemon with a validated configuration, the stick's loop, its renderer for compiled
    manifests, and the network start for any flash contents never panic.
  \<^item> Function: rules give exactly the incidents of the conditions that hold; an alarm that went out
    reaches the notification queue with the message of its rule; screens, pages and JSON show what
    they are given, whole; settings and the setup form come back as they went in, after any run of the store task whose
    last write succeeded; manifests follow the guests; readings stay in range, are younger than their
    refresh interval and belong to the source a rule names; probe and UPS count failures as configured.
  \<^item> The policy that ships: it validates, its report is critical, a warning or healthy in exactly the
    states listed in \<open>Deployed\<close>, and its messages fit the screen.
  \<^item> Conformance: the assertions of each test of the source hold of the model (lemmas \<open>..._holds\<close>), so what
    the tests pin down of the code the definitions have too.
  \<^item> Termination: interface resolution on cyclic sysfs, the wait for guests, running a command.

  \<^bold>\<open>Bounds and fuel.\<close> Frames: 4096 and 128 bytes; settings record: 2048 bytes; page body: 16384 bytes; notification queue: 8; transmit
  queue: 8; request: 3072 bytes; texts on the display: the capacity of their \<open>heapless\<close> string. \<open>usize\<close>
  wraps at 32 bits on the stick where the source adds without a check. Two loops have fuel:
  \<open>monitor_system_guest_shutdown\<close>, which polls until no guest runs (any fuel beyond the poll that says so is
  enough), and \<open>wait_for\<close> (one poll for each interval of the timeout and two more are enough). Times are
  natural numbers, nanoseconds on the host and microseconds on the stick.

  \<^bold>\<open>Parameters.\<close> What is not under \<open>src/\<close> is an argument: postcard and COBS (\<open>postcard_ok\<close>: a serialized
  message ends in its only zero byte and is read back), serde's YAML and JSON values, the readings of
  the operating system and its child processes, the flash driver (\<open>flash_ok\<close>), I2C (\<open>registers_ok\<close>),
  \<open>heapless\<close> queues and strings (\<open>deque_ok\<close>, \<open>strings_ok\<close>), channels (\<open>channel_ok\<close>), the QR encoder
  (\<open>qr_ok\<close>), the graphics library (a drawing is the list of its primitives), the HTTP, TCP and Wi-Fi
  stacks. The named hypotheses say what those document; each is met by a concrete instance in a
  witness.

  \<^bold>\<open>Not modelled.\<close> Pins, peripherals, interrupts and the mapping of the external memory at the start of
  the firmware (calls of the hardware crates only), argument parsing, log lines, the derived
  (de)serializers, fonts and rasterisation, style sheet and script of the dashboard, the certificate
  constant, \<open>Display\<close> texts of the protocol errors. Of the tests: those of real processes and directories, of
  what the derived deserializer refuses, of the length of real postcard output, of two rules with the
  same template, and \<open>firmware/tests\<close>, which scan the sources.
\<close>

end
